(* ===== verification/Prelude.thy ===== *)
theory Prelude
  imports Main "HOL-Library.Multiset"
begin

text \<open>
  Shared vocabulary of the development: fixed-width integer wrap-around, Go maps as
  association lists behind an interface locale, the iteration order of a Go map as an
  explicit permutation, a fold that may fail, and the fact collections the component
  theories add to.
\<close>

named_theorems go_map_simps \<open>reading a Go map after a write\<close>
named_theorems wf_intros \<open>operations keep the well-formedness invariant\<close>
named_theorems tracked_intros \<open>operations either leave the state alone or mark it dirty\<close>
named_theorems frame_simps \<open>fields an operation does not write\<close>

section \<open>Machine integers\<close>

text \<open>
  Go's \<open>int32\<close> and \<open>int64\<close> (and \<open>int\<close> on the 64-bit platforms the image is built for)
  are represented by the integer they denote. An operation that may leave the range goes
  through \<open>wrap32\<close> or \<open>wrap64\<close>, which write out two's complement wrap-around.
\<close>

definition wrap32 :: "int \<Rightarrow> int" where
  "wrap32 x = (x + 2147483648) mod 4294967296 - 2147483648"

definition wrap64 :: "int \<Rightarrow> int" where
  "wrap64 x = (x + 9223372036854775808) mod 18446744073709551616 - 9223372036854775808"

definition int32_range :: "int \<Rightarrow> bool" where
  "int32_range x \<longleftrightarrow> - 2147483648 \<le> x \<and> x \<le> 2147483647"

definition int64_range :: "int \<Rightarrow> bool" where
  "int64_range x \<longleftrightarrow> - 9223372036854775808 \<le> x \<and> x \<le> 9223372036854775807"

lemma wrap32_id [simp]: "int32_range x \<Longrightarrow> wrap32 x = x"
  by (simp add: wrap32_def int32_range_def)

lemma wrap64_id [simp]: "int64_range x \<Longrightarrow> wrap64 x = x"
  by (simp add: wrap64_def int64_range_def)

lemma int32_range_wrap32 [simp]: "int32_range (wrap32 x)"
  by (auto simp: wrap32_def int32_range_def)

lemma int64_range_wrap64 [simp]: "int64_range (wrap64 x)"
  by (auto simp: wrap64_def int64_range_def)

text \<open>Go's integer division truncates towards zero.\<close>

definition quot :: "int \<Rightarrow> int \<Rightarrow> int" where
  "quot a b = sgn a * sgn b * (\<bar>a\<bar> div \<bar>b\<bar>)"

lemma quot_nonneg [simp]: "0 \<le> a \<Longrightarrow> 0 < b \<Longrightarrow> quot a b = a div b"
  by (cases "a = 0") (auto simp: quot_def)

section \<open>A fold whose steps may fail\<close>

fun foldM :: "('a \<Rightarrow> 's \<Rightarrow> 's option) \<Rightarrow> 'a list \<Rightarrow> 's \<Rightarrow> 's option" where
  "foldM f [] s = Some s"
| "foldM f (x # xs) s = (case f x s of None \<Rightarrow> None | Some s' \<Rightarrow> foldM f xs s')"

lemma foldM_append:
  "foldM f (xs @ ys) s = (case foldM f xs s of None \<Rightarrow> None | Some s' \<Rightarrow> foldM f ys s')"
  by (induction xs arbitrary: s) (auto split: option.splits)

text \<open>
  The loop rule: an invariant that every step keeps holds at the end, and if every step
  returns under the invariant, so does the loop.
\<close>

lemma foldM_invariant:
  assumes "foldM f xs s = Some t" and "I s"
    and "\<And>x s t. x \<in> set xs \<Longrightarrow> I s \<Longrightarrow> f x s = Some t \<Longrightarrow> I t"
  shows "I t"
  using assms
proof (induction xs arbitrary: s)
  case Nil
  then show ?case by simp
next
  case (Cons x xs)
  from Cons.prems(1) obtain u where u: "f x s = Some u" "foldM f xs u = Some t"
    by (auto split: option.splits)
  have "I u" using Cons.prems(2,3) u(1) by auto
  with u(2) show ?case using Cons.IH Cons.prems(3) by (metis list.set_intros(2))
qed

lemma foldM_total:
  assumes "I s"
    and "\<And>x s. x \<in> set xs \<Longrightarrow> I s \<Longrightarrow> \<exists>t. f x s = Some t \<and> I t"
  shows "\<exists>t. foldM f xs s = Some t \<and> I t"
  using assms
proof (induction xs arbitrary: s)
  case Nil
  then show ?case by simp
next
  case (Cons x xs)
  obtain u where u: "f x s = Some u" "I u" using Cons.prems by auto
  then show ?case using Cons.IH[of u] Cons.prems(2) by auto
qed

text \<open>A relation that every step respects and that composes holds across the loop.\<close>

lemma foldM_relates:
  assumes "foldM f xs s = Some t" and "\<And>s. R s s"
    and "\<And>s t u. R s t \<Longrightarrow> R t u \<Longrightarrow> R s u"
    and "\<And>x s t. x \<in> set xs \<Longrightarrow> f x s = Some t \<Longrightarrow> R s t"
  shows "R s t"
  using assms(1,4)
proof (induction xs arbitrary: s)
  case Nil
  then show ?case using assms(2) by simp
next
  case (Cons x xs)
  from Cons.prems(1) obtain u where u: "f x s = Some u" "foldM f xs u = Some t"
    by (auto split: option.splits)
  have "R s u" using u(1) by (rule Cons.prems(2)[of x s u, rotated]) simp
  moreover have "R u t" using Cons.IH u(2) Cons.prems(2) by auto
  ultimately show ?case by (rule assms(3))
qed

lemma fold_preserves: "P acc \<Longrightarrow> (\<And>x acc. P acc \<Longrightarrow> P (f x acc)) \<Longrightarrow> P (fold f xs acc)"
  by (induction xs arbitrary: acc) auto

section \<open>Go maps\<close>

text \<open>
  A Go map is an association list whose keys are distinct (\<open>gm_wf\<close>). The list order has no
  meaning: code that ranges over a map goes through \<open>permute\<close> below.
\<close>

type_synonym ('k, 'v) go_map = "('k \<times> 'v) list"

definition gm_wf :: "('k, 'v) go_map \<Rightarrow> bool" where
  "gm_wf m \<longleftrightarrow> distinct (map fst m)"

definition gm_get :: "('k, 'v) go_map \<Rightarrow> 'k \<Rightarrow> 'v option" where
  "gm_get m = map_of m"

fun gm_set :: "'k \<Rightarrow> 'v \<Rightarrow> ('k, 'v) go_map \<Rightarrow> ('k, 'v) go_map" where
  "gm_set k v [] = [(k, v)]"
| "gm_set k v ((k', v') # m) = (if k' = k then (k, v) # m else (k', v') # gm_set k v m)"

definition gm_del :: "'k \<Rightarrow> ('k, 'v) go_map \<Rightarrow> ('k, 'v) go_map" where
  "gm_del k m = filter (\<lambda>kv. fst kv \<noteq> k) m"

definition gm_keys :: "('k, 'v) go_map \<Rightarrow> 'k list" where
  "gm_keys m = map fst m"

definition gm_len :: "('k, 'v) go_map \<Rightarrow> nat" where
  "gm_len m = length m"

text \<open>
  The interface the components rely on: what a lookup returns after a write or a delete,
  that the keys are exactly the domain without repetition, and that \<open>len\<close> counts them.
\<close>

locale key_store =
  fixes get :: "'m \<Rightarrow> 'k \<Rightarrow> 'v option"
    and put :: "'k \<Rightarrow> 'v \<Rightarrow> 'm \<Rightarrow> 'm"
    and del :: "'k \<Rightarrow> 'm \<Rightarrow> 'm"
    and keys :: "'m \<Rightarrow> 'k list"
    and len :: "'m \<Rightarrow> nat"
    and ok :: "'m \<Rightarrow> bool"
  assumes get_put: "ok m \<Longrightarrow> get (put k v m) = (get m)(k \<mapsto> v)"
    and get_del: "ok m \<Longrightarrow> get (del k m) = (get m)(k := None)"
    and ok_put: "ok m \<Longrightarrow> ok (put k v m)"
    and ok_del: "ok m \<Longrightarrow> ok (del k m)"
    and set_keys: "ok m \<Longrightarrow> set (keys m) = dom (get m)"
    and distinct_keys: "ok m \<Longrightarrow> distinct (keys m)"
    and len_keys: "len m = length (keys m)"
begin

lemma len_card: "ok m \<Longrightarrow> len m = card (dom (get m))"
  by (metis distinct_card distinct_keys len_keys set_keys)

lemma finite_dom: "ok m \<Longrightarrow> finite (dom (get m))"
  by (metis List.finite_set set_keys)

lemma len_del: "ok m \<Longrightarrow> get m k \<noteq> None \<Longrightarrow> len (del k m) = len m - 1"
  by (simp add: len_card ok_del get_del dom_fun_upd card_Diff_singleton domIff finite_dom)

lemma ok_del_all: "ok m \<Longrightarrow> ok (fold del ks m)"
  by (induction ks arbitrary: m) (auto simp: ok_del)

lemma get_del_all: "ok m \<Longrightarrow> get (fold del ks m) k = (if k \<in> set ks then None else get m k)"
  by (induction ks arbitrary: m) (auto simp: ok_del get_del)

lemma dom_del_all: "ok m \<Longrightarrow> dom (get (fold del ks m)) = dom (get m) - set ks"
  by (auto simp: get_del_all dom_def split: if_splits)

lemma len_del_all:
  assumes "ok m" "distinct ks" "set ks \<subseteq> dom (get m)"
  shows "len (fold del ks m) = len m - length ks"
proof -
  have "len (fold del ks m) = card (dom (get m) - set ks)"
    using assms(1) by (simp add: len_card ok_del_all dom_del_all)
  also have "\<dots> = card (dom (get m)) - card (set ks)"
    using assms(3) by (intro card_Diff_subset) auto
  finally show ?thesis using assms(1,2) by (simp add: len_card distinct_card)
qed

lemma len_put: "ok m \<Longrightarrow> len (put k v m) = (if get m k = None then Suc (len m) else len m)"
  by (auto simp: len_card ok_put get_put dom_fun_upd finite_dom insert_absorb domIff)

end

lemma map_of_gm_set [simp]: "map_of (gm_set k v m) = (map_of m)(k \<mapsto> v)"
  by (induction k v m rule: gm_set.induct) auto

lemma keys_gm_set: "map fst (gm_set k v m) = (if k \<in> set (map fst m) then map fst m else map fst m @ [k])"
  by (induction k v m rule: gm_set.induct) auto

lemma map_of_gm_del: "map_of (gm_del k m) = (map_of m)(k := None)"
  by (induction m) (auto simp: gm_del_def)

lemma keys_gm_del: "map fst (gm_del k m) = filter (\<lambda>x. x \<noteq> k) (map fst m)"
  by (induction m) (auto simp: gm_del_def)

interpretation gm: key_store gm_get gm_set gm_del gm_keys gm_len gm_wf
proof unfold_locales
  fix m :: "('k, 'v) go_map" and k v
  show "gm_wf m \<Longrightarrow> gm_get (gm_set k v m) = (gm_get m)(k \<mapsto> v)"
    by (simp add: gm_get_def fun_eq_iff)
  show "gm_wf m \<Longrightarrow> gm_get (gm_del k m) = (gm_get m)(k := None)"
    by (simp add: gm_get_def fun_eq_iff map_of_gm_del)
  show "gm_wf m \<Longrightarrow> gm_wf (gm_set k v m)"
    by (simp add: gm_wf_def keys_gm_set)
  show "gm_wf m \<Longrightarrow> gm_wf (gm_del k m)"
    by (simp add: gm_wf_def keys_gm_del)
  show "gm_wf m \<Longrightarrow> set (gm_keys m) = dom (gm_get m)"
    by (simp add: gm_keys_def gm_get_def dom_map_of_conv_image_fst)
  show "gm_wf m \<Longrightarrow> distinct (gm_keys m)"
    by (simp add: gm_wf_def gm_keys_def)
  show "gm_len m = length (gm_keys m)"
    by (simp add: gm_len_def gm_keys_def)
qed

lemmas gm_facts [go_map_simps] =
  gm.get_put gm.get_del gm.ok_put gm.ok_del gm.ok_del_all gm.get_del_all gm.dom_del_all

lemma gm_wf_Nil [simp]: "gm_wf []"
  by (simp add: gm_wf_def)

lemma gm_get_Nil [simp]: "gm_get [] k = None"
  by (simp add: gm_get_def)

lemma gm_get_Cons [simp]: "gm_get ((k', v) # m) k = (if k = k' then Some v else gm_get m k)"
  by (simp add: gm_get_def)

lemma gm_get_mem: "gm_wf m \<Longrightarrow> (gm_get m k = Some v) = ((k, v) \<in> set m)"
  by (simp add: gm_get_def gm_wf_def)

section \<open>The order in which a range statement visits a map\<close>

text \<open>
  The Go runtime visits the entries of a map in an unspecified order. A list of numbers
  chooses it: \<open>permute c xs\<close> takes, step by step, the element at position
  \<open>c ! 0 mod length xs\<close>, and so on. Every code gives a permutation and every permutation
  has a code, so a statement over all codes covers exactly the orders the runtime can pick.
\<close>

definition remove_nth :: "nat \<Rightarrow> 'a list \<Rightarrow> 'a list" where
  "remove_nth i xs = take i xs @ drop (Suc i) xs"

function permute :: "nat list \<Rightarrow> 'a list \<Rightarrow> 'a list" where
  "permute c [] = []"
| "permute [] (x # xs) = x # xs"
| "permute (i # c) (x # xs) =
     (let j = i mod length (x # xs)
      in (x # xs) ! j # permute c (remove_nth j (x # xs)))"
  by pat_completeness auto
termination by (relation "measure (\<lambda>(c, xs). length c)") auto

declare permute.simps(3) [simp del]

lemma permute_Nil_code [simp]: "permute [] xs = xs"
  by (cases xs) simp_all

lemma remove_nth_split:
  "j < length xs \<Longrightarrow> mset xs = add_mset (xs ! j) (mset (remove_nth j xs))"
  by (subst id_take_nth_drop[of j xs]) (simp_all add: remove_nth_def)

theorem mset_permute [simp]: "mset (permute c xs) = mset xs"
proof (induction c xs rule: permute.induct)
  case (3 i c x xs)
  let ?j = "i mod length (x # xs)"
  have "?j < length (x # xs)" by (rule mod_less_divisor) simp
  then have "mset (x # xs) = add_mset ((x # xs) ! ?j) (mset (remove_nth ?j (x # xs)))"
    by (rule remove_nth_split)
  with 3[OF refl] show ?case by (simp add: permute.simps(3) Let_def)
qed simp_all

lemma set_permute [simp]: "set (permute c xs) = set xs"
  by (metis mset_permute set_mset_mset)

lemma length_permute [simp]: "length (permute c xs) = length xs"
  by (metis mset_permute size_mset)

lemma distinct_permute [simp]: "distinct (permute c xs) = distinct xs"
  by (metis mset_permute mset_eq_imp_distinct_iff)

text \<open>Every order is the order of some code.\<close>

theorem permute_reaches_every_order:
  "mset ys = mset xs \<Longrightarrow> \<exists>c. permute c xs = ys"
proof (induction ys arbitrary: xs)
  case Nil
  then show ?case by simp
next
  case (Cons y ys)
  from Cons.prems have "y \<in> set xs" by (metis list.set_intros(1) mset_eq_setD)
  then obtain j where j: "j < length xs" "xs ! j = y" by (auto simp: in_set_conv_nth)
  then have "mset ys = mset (remove_nth j xs)"
    using Cons.prems remove_nth_split[of j xs] by simp
  then obtain c where c: "permute c (remove_nth j xs) = ys" using Cons.IH by blast
  obtain z zs where xs: "xs = z # zs" using j(1) by (cases xs) auto
  have "permute (j # c) xs = y # ys"
    using j c by (simp add: xs permute.simps(3) Let_def)
  then show ?case by blast
qed

end
