(* ===== verification/Go_Runtime.thy ===== *)
theory Go_Runtime
  imports Prelude
begin

text \<open>
  The parts of the Go standard library the program computes with: ASCII string functions of
  package strings, decimal formatting of package fmt and strconv, and instants and durations
  of package time.

  A Go string is a sequence of bytes, here a list of \<open>char\<close>. The case functions act on the
  ASCII letters and leave bytes from 128 on alone: the strings they are applied to
  (Kubernetes kinds, names, groups, condition types, environment variables) are ASCII.
\<close>

section \<open>Strings\<close>

definition is_upper :: "char \<Rightarrow> bool" where
  "is_upper c \<longleftrightarrow> 65 \<le> (of_char c :: nat) \<and> (of_char c :: nat) \<le> 90"

definition lower_char :: "char \<Rightarrow> char" where
  "lower_char c = (if is_upper c then char_of ((of_char c :: nat) + 32) else c)"

definition to_lower :: "string \<Rightarrow> string" where
  "to_lower s = map lower_char s"

definition is_space :: "char \<Rightarrow> bool" where
  "is_space c \<longleftrightarrow> (of_char c :: nat) \<in> {9, 10, 11, 12, 13, 32}"

definition trim_space :: "string \<Rightarrow> string" where
  "trim_space s = rev (dropWhile is_space (rev (dropWhile is_space s)))"

definition equal_fold :: "string \<Rightarrow> string \<Rightarrow> bool" where
  "equal_fold s t \<longleftrightarrow> to_lower s = to_lower t"

text \<open>\<open>strings.Split\<close> with a one-byte separator: always at least one part.\<close>

fun split_on :: "char \<Rightarrow> string \<Rightarrow> string list" where
  "split_on sep [] = [[]]"
| "split_on sep (c # s) =
     (if c = sep then [] # split_on sep s
      else (case split_on sep s of [] \<Rightarrow> [[c]] | p # ps \<Rightarrow> (c # p) # ps))"

definition has_suffix_char :: "char \<Rightarrow> string \<Rightarrow> bool" where
  "has_suffix_char c s \<longleftrightarrow> s \<noteq> [] \<and> last s = c"

lemma lower_char_not_upper [simp]: "\<not> is_upper (lower_char c)"
  by (auto simp: lower_char_def is_upper_def)

lemma lower_char_idem [simp]: "lower_char (lower_char c) = lower_char c"
  by (simp add: lower_char_def[of "lower_char c"])

lemma to_lower_idem [simp]: "to_lower (to_lower s) = to_lower s"
  by (simp add: to_lower_def)

lemma to_lower_append [simp]: "to_lower (s @ t) = to_lower s @ to_lower t"
  by (simp add: to_lower_def)

lemma to_lower_Nil [simp]: "to_lower s = [] \<longleftrightarrow> s = []"
  by (simp add: to_lower_def)

lemma is_space_lower_char [simp]: "is_space (lower_char c) = is_space c"
  by (auto simp: lower_char_def is_space_def is_upper_def)

lemma trim_space_Nil [simp]: "trim_space [] = []"
  by (simp add: trim_space_def)

lemma trim_space_hd: "trim_space s \<noteq> [] \<Longrightarrow> \<not> is_space (hd (trim_space s))"
proof -
  assume ne: "trim_space s \<noteq> []"
  let ?t = "dropWhile is_space s"
  obtain u where u: "?t = trim_space s @ u"
    by (metis rev_append rev_rev_ident takeWhile_dropWhile_id trim_space_def)
  with ne have "hd ?t = hd (trim_space s)" "?t \<noteq> []" by auto
  then show ?thesis using hd_dropWhile[of is_space s] by simp
qed

lemma trim_space_last: "trim_space s \<noteq> [] \<Longrightarrow> \<not> is_space (last (trim_space s))"
  using hd_dropWhile[of is_space "rev (dropWhile is_space s)"]
  by (simp add: trim_space_def last_rev)

lemma trim_space_id:
  "s \<noteq> [] \<Longrightarrow> \<not> is_space (hd s) \<Longrightarrow> \<not> is_space (last s) \<Longrightarrow> trim_space s = s"
proof -
  assume a: "s \<noteq> []" "\<not> is_space (hd s)" "\<not> is_space (last s)"
  have "dropWhile is_space s = s" using a(1,2) by (cases s) auto
  moreover have "dropWhile is_space (rev s) = rev s"
    using a(1,3) by (cases "rev s") (auto simp: hd_rev)
  ultimately show ?thesis by (simp add: trim_space_def)
qed

lemma trim_space_idem [simp]: "trim_space (trim_space s) = trim_space s"
  by (cases "trim_space s = []") (simp_all add: trim_space_id trim_space_hd trim_space_last)

lemma trim_space_to_lower: "trim_space (to_lower s) = to_lower (trim_space s)"
  by (simp add: trim_space_def to_lower_def dropWhile_map rev_map o_def)

section \<open>Formatting numbers\<close>

definition digit_char :: "nat \<Rightarrow> char" where
  "digit_char d = ''0123456789'' ! (d mod 10)"

fun show_nat :: "nat \<Rightarrow> string" where
  "show_nat n = (if n < 10 then [digit_char n] else show_nat (n div 10) @ [digit_char (n mod 10)])"

declare show_nat.simps [simp del]

definition show_int :: "int \<Rightarrow> string" where
  "show_int i = (if i < 0 then ''-'' @ show_nat (nat (- i)) else show_nat (nat i))"

text \<open>\<open>%q\<close> on a string: \<open>strconv.Quote\<close>, with its escapes for the ASCII control characters.\<close>

definition hex_digit :: "nat \<Rightarrow> char" where
  "hex_digit d = ''0123456789abcdef'' ! (d mod 16)"

definition quote_char :: "char \<Rightarrow> string" where
  "quote_char c =
     (let n = (of_char c :: nat) in
      if n = 34 then [CHR 0x5C, CHR 0x22]
      else if n = 92 then [CHR 0x5C, CHR 0x5C]
      else if n = 7 then CHR 0x5C # ''a''
      else if n = 8 then CHR 0x5C # ''b''
      else if n = 9 then CHR 0x5C # ''t''
      else if n = 10 then CHR 0x5C # ''n''
      else if n = 11 then CHR 0x5C # ''v''
      else if n = 12 then CHR 0x5C # ''f''
      else if n = 13 then CHR 0x5C # ''r''
      else if n < 32 \<or> n = 127
        then CHR 0x5C # ''x'' @ [hex_digit (n div 16), hex_digit n]
      else [c])"

definition quote :: "string \<Rightarrow> string" where
  "quote s = CHR 0x22 # concat (map quote_char s) @ [CHR 0x22]"

section \<open>Instants and durations\<close>

text \<open>
  A \<open>time.Time\<close> is the number of nanoseconds since Go's zero instant, 1 January of year 1,
  00:00 UTC, so that \<open>IsZero\<close> is comparison with 0. The program reads the clock with
  \<open>time.Now().UTC()\<close>, which drops the monotonic reading, and compares instants only. A
  \<open>time.Duration\<close> is an \<open>int64\<close> number of nanoseconds.
\<close>

type_synonym time = int
type_synonym duration = int

definition microsecond :: duration where "microsecond = 1000"
definition millisecond :: duration where "millisecond = 1000000"
definition second :: duration where "second = 1000000000"
definition minute :: duration where "minute = 60000000000"
definition hour :: duration where "hour = 3600000000000"

lemmas duration_defs = microsecond_def millisecond_def second_def minute_def hour_def

definition is_zero :: "time \<Rightarrow> bool" where
  "is_zero t \<longleftrightarrow> t = 0"

text \<open>\<open>t.Sub(u)\<close> saturates at the ends of the \<open>int64\<close> range.\<close>

definition time_sub :: "time \<Rightarrow> time \<Rightarrow> duration" where
  "time_sub t u = max (- 9223372036854775808) (min 9223372036854775807 (t - u))"

lemma time_sub_exact [simp]: "int64_range (t - u) \<Longrightarrow> time_sub t u = t - u"
  by (auto simp: time_sub_def int64_range_def)

lemma time_sub_le: "int64_range d \<Longrightarrow> d < 9223372036854775807 \<Longrightarrow> time_sub t u \<le> d \<longleftrightarrow> t - u \<le> d"
  by (auto simp: time_sub_def int64_range_def min_def max_def)

lemma time_sub_less: "int64_range d \<Longrightarrow> time_sub t u < d \<longleftrightarrow> t - u < d \<and> - 9223372036854775808 < d"
  by (auto simp: time_sub_def int64_range_def min_def max_def)

definition before :: "time \<Rightarrow> time \<Rightarrow> bool" where
  "before t u \<longleftrightarrow> t < u"

definition after :: "time \<Rightarrow> time \<Rightarrow> bool" where
  "after t u \<longleftrightarrow> t > u"

text \<open>\<open>UnixNano\<close> and \<open>time.Unix(0, ns)\<close>; the constant is 1 January 1970 on the scale above.\<close>

definition unix_epoch :: time where
  "unix_epoch = 62135596800000000000"

definition unix_nano :: "time \<Rightarrow> int" where
  "unix_nano t = wrap64 (t - unix_epoch)"

definition from_unix_nano :: "int \<Rightarrow> time" where
  "from_unix_nano ns = unix_epoch + ns"

lemma from_unix_nano_inverse: "int64_range (t - unix_epoch) \<Longrightarrow> from_unix_nano (unix_nano t) = t"
  by (simp add: from_unix_nano_def unix_nano_def)

text \<open>\<open>Duration.Round\<close> (half away from zero, saturating) and \<open>Duration.Truncate\<close>.\<close>

definition round_dur :: "duration \<Rightarrow> duration \<Rightarrow> duration" where
  "round_dur d m =
     (if m \<le> 0 then d
      else let r = \<bar>d\<bar> mod m in
        if d < 0 then
          (if 2 * r < m then d + r
           else if - 9223372036854775808 \<le> d - m + r then d - m + r else - 9223372036854775808)
        else
          (if 2 * r < m then d - r
           else if d + m - r \<le> 9223372036854775807 then d + m - r else 9223372036854775807))"

definition truncate_dur :: "duration \<Rightarrow> duration \<Rightarrow> duration" where
  "truncate_dur d m = (if m \<le> 0 then d else d - sgn d * (\<bar>d\<bar> mod m))"

text \<open>
  \<open>Duration.String\<close>: below a second the unit is ns, the two bytes of the micro sign with
  s, or ms; from a second on hours, minutes and seconds, leading zero units omitted. The
  fraction drops its trailing zeros (\<open>fmtFrac\<close>).
\<close>

fun frac_digits :: "nat \<Rightarrow> nat \<Rightarrow> bool \<Rightarrow> string" where
  "frac_digits v 0 started = (if started then ''.'' else [])"
| "frac_digits v (Suc prec) started =
     (let d = v mod 10; started' = (started \<or> d \<noteq> 0)
      in frac_digits (v div 10) prec started' @ (if started' then [digit_char d] else []))"

definition show_dur :: "duration \<Rightarrow> string" where
  "show_dur d =
     (let u = nat \<bar>d\<bar>;
          body =
            (if u = 0 then ''0s''
             else if u < 1000 then show_nat u @ ''ns''
             else if u < 1000000
               then show_nat (u div 1000) @ frac_digits u 3 False
                    @ [CHR 0xC2, CHR 0xB5] @ ''s''
             else if u < 1000000000
               then show_nat (u div 1000000) @ frac_digits u 6 False @ ''ms''
             else let s = u div 1000000000; frac = frac_digits u 9 False in
               (if s < 60 then show_nat s @ frac @ ''s''
                else if s < 3600
                  then show_nat (s div 60) @ ''m'' @ show_nat (s mod 60) @ frac @ ''s''
                else show_nat (s div 3600) @ ''h'' @ show_nat (s div 60 mod 60) @ ''m''
                     @ show_nat (s mod 60) @ frac @ ''s''))
      in (if d < 0 then ''-'' @ body else body))"

lemma frac_digits_numeral [simp]:
  "frac_digits v (numeral k) started =
     (let d = v mod 10; started' = (started \<or> d \<noteq> 0)
      in frac_digits (v div 10) (pred_numeral k) started' @ (if started' then [digit_char d] else []))"
  by (simp add: numeral_eq_Suc[of k])

lemmas fmt_eval = show_dur_def duration_defs show_nat.simps digit_char_def

lemma show_dur_examples:
  "show_dur (5 * minute + 7 * second) = ''5m7s''"
  "show_dur (90 * minute) = ''1h30m0s''"
  "show_dur 1500000000 = ''1.5s''"
  "show_dur (250 * millisecond) = ''250ms''"
  by (simp_all add: fmt_eval)

end
