(* ===== verification/Sha256.thy ===== *)
theory Sha256
  imports Prelude "HOL-Library.Word"
begin

text \<open>
  SHA-256 (\<open>crypto/sha256\<close>, FIPS 180-4) on byte strings and its lower-case hexadecimal form,
  which \<open>findingID\<close> uses. The lemma at the end evaluates the standard's test vector for
  \<open>abc\<close> in the kernel.
\<close>

unbundle bit_operations_syntax

type_synonym u32 = "32 word"
type_synonym sha_state = "u32 \<times> u32 \<times> u32 \<times> u32 \<times> u32 \<times> u32 \<times> u32 \<times> u32"

text \<open>The round constants: the first 32 bits of the fractional parts of the cube roots of the first 64 primes.\<close>

definition sha_k :: "u32 list" where
  "sha_k =
    [1116352408, 1899447441, 3049323471, 3921009573, 961987163, 1508970993, 2453635748, 2870763221,
     3624381080, 310598401, 607225278, 1426881987, 1925078388, 2162078206, 2614888103, 3248222580,
     3835390401, 4022224774, 264347078, 604807628, 770255983, 1249150122, 1555081692, 1996064986,
     2554220882, 2821834349, 2952996808, 3210313671, 3336571891, 3584528711, 113926993, 338241895,
     666307205, 773529912, 1294757372, 1396182291, 1695183700, 1986661051, 2177026350, 2456956037,
     2730485921, 2820302411, 3259730800, 3345764771, 3516065817, 3600352804, 4094571909, 275423344,
     430227734, 506948616, 659060556, 883997877, 958139571, 1322822218, 1537002063, 1747873779,
     1955562222, 2024104815, 2227730452, 2361852424, 2428436474, 2756734187, 3204031479, 3329325298]"

definition sha_init :: sha_state where
  "sha_init = (0x6a09e667, 0xbb67ae85, 0x3c6ef372, 0xa54ff53a,
               0x510e527f, 0x9b05688c, 0x1f83d9ab, 0x5be0cd19)"

text \<open>The message schedule, kept with the newest word first while it grows.\<close>

fun sha_schedule :: "nat \<Rightarrow> u32 list \<Rightarrow> u32 list" where
  "sha_schedule 0 ws = rev ws"
| "sha_schedule (Suc n) ws =
     (let w2 = ws ! 1; w7 = ws ! 6; w15 = ws ! 14; w16 = ws ! 15;
          s0 = word_rotr 7 w15 XOR word_rotr 18 w15 XOR drop_bit 3 w15;
          s1 = word_rotr 17 w2 XOR word_rotr 19 w2 XOR drop_bit 10 w2
      in sha_schedule n ((w16 + s0 + w7 + s1) # ws))"

fun sha_rounds :: "u32 list \<Rightarrow> u32 list \<Rightarrow> sha_state \<Rightarrow> sha_state" where
  "sha_rounds (k # ks) (w # ws) (a, b, c, d, e, f, g, h) =
     (let t1 = h + (word_rotr 6 e XOR word_rotr 11 e XOR word_rotr 25 e)
               + ((e AND f) XOR (NOT e AND g)) + k + w;
          t2 = (word_rotr 2 a XOR word_rotr 13 a XOR word_rotr 22 a)
               + ((a AND b) XOR (a AND c) XOR (b AND c))
      in sha_rounds ks ws (t1 + t2, a, b, c, d + t1, e, f, g))"
| "sha_rounds _ _ s = s"

definition sha_block :: "u32 list \<Rightarrow> sha_state \<Rightarrow> sha_state" where
  "sha_block ws s =
     (case s of (a, b, c, d, e, f, g, h) \<Rightarrow>
       (case sha_rounds sha_k (sha_schedule 48 (rev ws)) s of (a', b', c', d', e', f', g', h') \<Rightarrow>
         (a + a', b + b', c + c', d + d', e + e', f + f', g + g', h + h')))"

function sha_blocks :: "u32 list \<Rightarrow> sha_state \<Rightarrow> sha_state" where
  "sha_blocks ws s = (if ws = [] then s else sha_blocks (drop 16 ws) (sha_block (take 16 ws) s))"
  by pat_completeness auto
termination by (relation "measure (\<lambda>(ws, s). length ws)") auto

declare sha_blocks.simps [simp del]

fun sha_words :: "u32 list \<Rightarrow> u32 list" where
  "sha_words (a # b # c # d # bs) =
     (push_bit 24 a OR push_bit 16 b OR push_bit 8 c OR d) # sha_words bs"
| "sha_words _ = []"

definition sha_pad :: "string \<Rightarrow> u32 list" where
  "sha_pad s =
     (let n = length s; bits = 8 * n
      in map of_char s @ [0x80] @ replicate ((119 - n mod 64) mod 64) 0
         @ map (\<lambda>i. word_of_nat (bits div 256 ^ i mod 256)) [7, 6, 5, 4, 3, 2, 1, 0])"

definition word_bytes :: "u32 \<Rightarrow> nat list" where
  "word_bytes w = map (\<lambda>i. unat w div 256 ^ i mod 256) [3, 2, 1, 0]"

definition sha256 :: "string \<Rightarrow> nat list" where
  "sha256 s =
     (case sha_blocks (sha_words (sha_pad s)) sha_init of (a, b, c, d, e, f, g, h) \<Rightarrow>
       concat (map word_bytes [a, b, c, d, e, f, g, h]))"

definition hex_byte :: "nat \<Rightarrow> string" where
  "hex_byte n = [''0123456789abcdef'' ! (n div 16 mod 16), ''0123456789abcdef'' ! (n mod 16)]"

definition hex_string :: "nat list \<Rightarrow> string" where
  "hex_string bs = concat (map hex_byte bs)"

lemma length_sha256 [simp]: "length (sha256 s) = 32"
  by (simp add: sha256_def word_bytes_def split: prod.splits)

lemma length_hex_string [simp]: "length (hex_string bs) = 2 * length bs"
  by (induction bs) (simp_all add: hex_string_def hex_byte_def)

lemma sha_pad_whole_blocks: "64 dvd length (sha_pad s)"
proof -
  let ?n = "length s"
  define r where "r = ?n mod 64"
  have r: "r < 64" by (simp add: r_def)
  have n: "?n = 64 * (?n div 64) + r" by (simp add: r_def)
  have z: "(119 - r) mod 64 = (if r \<le> 55 then 55 - r else 119 - r)"
    using r by (auto simp: mod_if)
  have len: "length (sha_pad s) = ?n + 9 + (119 - r) mod 64"
    by (simp add: sha_pad_def Let_def r_def)
  have "length (sha_pad s) = 64 * (?n div 64 + (if r \<le> 55 then 1 else 2))"
    using r n z len by (auto split: if_splits)
  then show ?thesis by (metis dvd_triv_left)
qed

lemma sha_abc_block:
  "sha_block (0x61626380 # replicate 14 0 @ [24]) sha_init =
     (0xba7816bf, 0x8f01cfea, 0x414140de, 0x5dae2223, 0xb00361a3, 0x96177a9c, 0xb410ff61, 0xf20015ad)"
  by code_simp

end
