(* ===== verification/Findings.thy ===== *)
theory Findings
  imports Go_Runtime Sha256
begin

text \<open>
  \<open>finding.go\<close>: the published \<open>Finding\<close>, its constructor, its deterministic identifier and
  the score bands behind severity and classification.
\<close>

definition sourceName :: string where "sourceName = ''autonomous-monitor''"
definition payloadType :: string where "payloadType = ''namespace_finding''"

record Finding =
  f_Source :: string
  f_PayloadType :: string
  f_ID :: string
  f_Namespace :: string
  f_Kind :: string
  f_Name :: string
  f_Severity :: string
  f_Classification :: string
  f_Score :: int
  f_Check :: string
  f_Reason :: string
  f_Status :: string
  f_FirstSeen :: time
  f_LastSeen :: time
  f_Evidence :: "string list"
  f_Prediction :: string
  f_MatchingKubernetesEventFound :: bool
  f_AITriageRequired :: bool
  f_CooldownUntil :: "time option"

definition clampScore :: "int \<Rightarrow> int" where
  "clampScore score = (if score < 0 then 0 else if score > 100 then 100 else score)"

definition classificationForScore :: "int \<Rightarrow> string" where
  "classificationForScore score0 =
     (let score = clampScore score0 in
      if score \<ge> 80 then ''incident-likely''
      else if score \<ge> 60 then ''degraded''
      else if score \<ge> 40 then ''suspicious''
      else if score \<ge> 20 then ''watch''
      else ''healthy'')"

definition severityForScore :: "int \<Rightarrow> string" where
  "severityForScore score0 =
     (let score = clampScore score0 in
      if score \<ge> 80 then ''critical''
      else if score \<ge> 60 then ''high''
      else if score \<ge> 40 then ''medium''
      else ''low'')"

text \<open>The string that is hashed, and the identifier: 64 lower-case hexadecimal digits.\<close>

definition id_preimage :: "string \<Rightarrow> string \<Rightarrow> string \<Rightarrow> string \<Rightarrow> string \<Rightarrow> string" where
  "id_preimage ns kind nm check reason =
     ns @ ''|'' @ kind @ ''|'' @ nm @ ''|'' @ check @ ''|'' @ reason"

definition findingID :: "string \<Rightarrow> string \<Rightarrow> string \<Rightarrow> string \<Rightarrow> string \<Rightarrow> string" where
  "findingID ns kind nm check reason = hex_string (sha256 (id_preimage ns kind nm check reason))"

definition NewFinding ::
  "string \<Rightarrow> string \<Rightarrow> string \<Rightarrow> string \<Rightarrow> string \<Rightarrow> int \<Rightarrow> string list \<Rightarrow> Finding" where
  "NewFinding ns kind nm check reason score evidence =
     \<lparr>f_Source = sourceName, f_PayloadType = payloadType,
      f_ID = findingID ns kind nm check reason,
      f_Namespace = ns, f_Kind = kind, f_Name = nm,
      f_Severity = severityForScore score,
      f_Classification = classificationForScore score,
      f_Score = clampScore score,
      f_Check = check, f_Reason = reason, f_Status = ''ongoing'',
      f_FirstSeen = 0, f_LastSeen = 0,
      f_Evidence = evidence, f_Prediction = [],
      f_MatchingKubernetesEventFound = False, f_AITriageRequired = False,
      f_CooldownUntil = None\<rparr>"

section \<open>Score bands\<close>

text \<open>
  The abstract reading of the two string functions: a score falls in one of five bands,
  which are linearly ordered; classification names the band and severity merges the two
  lowest.
\<close>

datatype band = Healthy | Watch | Suspicious | Degraded | Incident

fun band_rank :: "band \<Rightarrow> nat" where
  "band_rank Healthy = 0"
| "band_rank Watch = 1"
| "band_rank Suspicious = 2"
| "band_rank Degraded = 3"
| "band_rank Incident = 4"

lemma band_rank_inject: "band_rank a = band_rank b \<longleftrightarrow> a = b"
  by (cases a; cases b) simp_all

instantiation band :: linorder
begin

definition less_eq_band :: "band \<Rightarrow> band \<Rightarrow> bool" where
  "less_eq_band a b \<longleftrightarrow> band_rank a \<le> band_rank b"

definition less_band :: "band \<Rightarrow> band \<Rightarrow> bool" where
  "less_band a b \<longleftrightarrow> band_rank a < band_rank b"

instance
  by standard (auto simp: less_eq_band_def less_band_def band_rank_inject)

end

fun band_name :: "band \<Rightarrow> string" where
  "band_name Healthy = ''healthy''"
| "band_name Watch = ''watch''"
| "band_name Suspicious = ''suspicious''"
| "band_name Degraded = ''degraded''"
| "band_name Incident = ''incident-likely''"

fun band_severity :: "band \<Rightarrow> string" where
  "band_severity Incident = ''critical''"
| "band_severity Degraded = ''high''"
| "band_severity Suspicious = ''medium''"
| "band_severity _ = ''low''"

definition band_of :: "int \<Rightarrow> band" where
  "band_of s = (if s \<ge> 80 then Incident else if s \<ge> 60 then Degraded
                else if s \<ge> 40 then Suspicious else if s \<ge> 20 then Watch else Healthy)"

lemma clampScore_bounds [simp]: "0 \<le> clampScore s" "clampScore s \<le> 100"
  by (simp_all add: clampScore_def)

lemma clampScore_idem [simp]: "clampScore (clampScore s) = clampScore s"
  by (simp add: clampScore_def)

lemma clampScore_in_range: "0 \<le> s \<Longrightarrow> s \<le> 100 \<Longrightarrow> clampScore s = s"
  by (simp add: clampScore_def)

lemma band_of_clampScore [simp]: "band_of (clampScore s) = band_of s"
  by (simp add: band_of_def clampScore_def)

lemma classification_band: "classificationForScore s = band_name (band_of s)"
  by (simp add: classificationForScore_def band_of_def clampScore_def Let_def)

lemma severity_band: "severityForScore s = band_severity (band_of s)"
  by (simp add: severityForScore_def band_of_def clampScore_def Let_def)

lemma band_of_mono: "s \<le> t \<Longrightarrow> band_of s \<le> band_of t"
  by (simp add: band_of_def less_eq_band_def)

lemma band_name_inject [simp]: "band_name a = band_name b \<longleftrightarrow> a = b"
  by (cases a; cases b) simp_all

section \<open>Well-formed findings\<close>

text \<open>What every finding a check reports satisfies, for the monitor of namespace \<open>ns\<close>.\<close>

definition finding_ok :: "string \<Rightarrow> Finding \<Rightarrow> bool" where
  "finding_ok ns f \<longleftrightarrow>
     f_Source f = sourceName \<and> f_PayloadType f = payloadType \<and> f_Namespace f = ns \<and>
     f_ID f = findingID ns (f_Kind f) (f_Name f) (f_Check f) (f_Reason f) \<and>
     0 < f_Score f \<and> f_Score f \<le> 100 \<and>
     f_Severity f = severityForScore (f_Score f) \<and>
     f_Classification f = classificationForScore (f_Score f) \<and>
     f_Status f = ''ongoing'' \<and> \<not> f_AITriageRequired f \<and> f_CooldownUntil f = None"

lemma finding_ok_NewFinding [simp, intro]:
  "0 < score \<Longrightarrow> finding_ok ns (NewFinding ns kind nm check reason score ev)"
  by (simp add: finding_ok_def NewFinding_def classification_band severity_band)
     (simp add: clampScore_def)

lemma NewFinding_sel [simp]:
  "f_ID (NewFinding ns kind nm check reason score ev) = findingID ns kind nm check reason"
  "f_Kind (NewFinding ns kind nm check reason score ev) = kind"
  "f_Name (NewFinding ns kind nm check reason score ev) = nm"
  "f_Check (NewFinding ns kind nm check reason score ev) = check"
  "f_Reason (NewFinding ns kind nm check reason score ev) = reason"
  "f_Score (NewFinding ns kind nm check reason score ev) = clampScore score"
  "f_Evidence (NewFinding ns kind nm check reason score ev) = ev"
  "f_Status (NewFinding ns kind nm check reason score ev) = ''ongoing''"
  "f_Classification (NewFinding ns kind nm check reason score ev) = classificationForScore score"
  by (simp_all add: NewFinding_def)

section \<open>Properties\<close>

lemma append_sep_inject:
  assumes "x \<notin> set as" "x \<notin> set bs" "as @ x # cs = bs @ x # ds"
  shows "as = bs \<and> cs = ds"
  using assms
proof (induction as arbitrary: bs)
  case Nil
  then show ?case by (cases bs) auto
next
  case (Cons a as)
  then show ?case by (cases bs) auto
qed

text \<open>The fields can be read back off the hashed string, one bar at a time.\<close>

lemma id_preimage_inject:
  assumes "id_preimage ns kind nm check reason = id_preimage ns' kind' nm' check' reason'"
    and "CHR ''|'' \<notin> set ns" "CHR ''|'' \<notin> set kind" "CHR ''|'' \<notin> set nm" "CHR ''|'' \<notin> set check"
    and "CHR ''|'' \<notin> set ns'" "CHR ''|'' \<notin> set kind'" "CHR ''|'' \<notin> set nm'" "CHR ''|'' \<notin> set check'"
  shows "ns = ns' \<and> kind = kind' \<and> nm = nm' \<and> check = check' \<and> reason = reason'"
proof -
  note eq = assms(1)[unfolded id_preimage_def append_Cons append_Nil]
  note 1 = append_sep_inject[OF assms(2,6) eq]
  note 2 = append_sep_inject[OF assms(3,7) 1[THEN conjunct2]]
  note 3 = append_sep_inject[OF assms(4,8) 2[THEN conjunct2]]
  note 4 = append_sep_inject[OF assms(5,9) 3[THEN conjunct2]]
  from 1 2 3 4 show ?thesis by blast
qed

text \<open>
  C35. The identity of a finding loses nothing: as long as namespace, kind, name and check
  contain no bar (the reason may), the strings that are hashed are equal only if all five
  fields are, and then and only then two new findings hash the same string. Without the
  condition different fields can give the same string.
\<close>

theorem finding_identity:
  assumes "CHR ''|'' \<notin> set (ns @ kind @ nm @ check)" and "CHR ''|'' \<notin> set (ns' @ kind' @ nm' @ check')"
  shows "(id_preimage ns kind nm check reason = id_preimage ns' kind' nm' check' reason' \<longleftrightarrow>
      ns = ns' \<and> kind = kind' \<and> nm = nm' \<and> check = check' \<and> reason = reason') \<and>
    f_ID (NewFinding ns kind nm check reason score ev) = hex_string (sha256 (id_preimage ns kind nm check reason)) \<and>
    id_preimage ''a|b'' ''c'' nm check reason = id_preimage ''a'' ''b|c'' nm check reason"
proof (intro conjI)
  have bars: "CHR ''|'' \<notin> set ns" "CHR ''|'' \<notin> set kind" "CHR ''|'' \<notin> set nm" "CHR ''|'' \<notin> set check"
    "CHR ''|'' \<notin> set ns'" "CHR ''|'' \<notin> set kind'" "CHR ''|'' \<notin> set nm'" "CHR ''|'' \<notin> set check'"
    using assms by simp_all
  show "id_preimage ns kind nm check reason = id_preimage ns' kind' nm' check' reason' \<longleftrightarrow>
      ns = ns' \<and> kind = kind' \<and> nm = nm' \<and> check = check' \<and> reason = reason'"
    using id_preimage_inject[OF _ bars] by blast
  show "f_ID (NewFinding ns kind nm check reason score ev) = hex_string (sha256 (id_preimage ns kind nm check reason))"
    unfolding NewFinding_sel(1) findingID_def ..
  show "id_preimage ''a|b'' ''c'' nm check reason = id_preimage ''a'' ''b|c'' nm check reason"
    by (simp add: id_preimage_def)
qed

theorem finding_identity_witness:
  "id_preimage ''ns'' ''Pod'' ''web'' ''pod-health'' ''not-ready'' \<noteq> id_preimage ''ns'' ''Pod'' ''web'' ''pod-health'' ''oom-killed''"
  using finding_identity[of "''ns''" "''Pod''" "''web''" "''pod-health''" "''ns''" "''Pod''" "''web''" "''pod-health''",
      THEN conjunct1] by simp

end
