(* ===== verification/Config.thy ===== *)
theory Config
  imports Go_Runtime
begin

text \<open>
  \<open>config.go\<close>: the configuration records, the environment readers and \<open>LoadConfig\<close>. The
  process environment is a function from names to values, the empty string for an unset
  variable, as \<open>os.Getenv\<close> returns it. \<open>strconv.Atoi\<close> and \<open>time.ParseDuration\<close> are written
  out; a fraction of a duration is computed exactly, where Go multiplies in \<open>float64\<close>.
\<close>

type_synonym getenv = "string \<Rightarrow> string"

section \<open>Reading numbers\<close>

definition is_digit :: "char \<Rightarrow> bool" where
  "is_digit c \<longleftrightarrow> 48 \<le> (of_char c :: nat) \<and> (of_char c :: nat) \<le> 57"

definition digit_val :: "char \<Rightarrow> nat" where
  "digit_val c = of_char c - 48"

definition digits_val :: "string \<Rightarrow> nat" where
  "digits_val s = foldl (\<lambda>n c. 10 * n + digit_val c) 0 s"

text \<open>\<open>strconv.Atoi\<close>: \<open>None\<close> is a syntax or range error.\<close>

definition atoi :: "string \<Rightarrow> int option" where
  "atoi s =
     (let neg = (s \<noteq> [] \<and> hd s = CHR ''-'');
          body = (if s \<noteq> [] \<and> (hd s = CHR ''-'' \<or> hd s = CHR ''+'') then tl s else s)
      in if body = [] \<or> \<not> list_all is_digit body then None
         else let n = (if neg then - int (digits_val body) else int (digits_val body))
              in if int64_range n then Some n else None)"

fun lead_frac :: "string \<Rightarrow> nat \<Rightarrow> nat \<Rightarrow> bool \<Rightarrow> nat \<times> nat" where
  "lead_frac [] x scale overflow = (x, scale)"
| "lead_frac (c # s) x scale overflow =
     (if overflow \<or> x > 922337203685477580 \<or> 10 * x + digit_val c > 9223372036854775808
      then lead_frac s x scale True
      else lead_frac s (10 * x + digit_val c) (10 * scale) False)"

definition unit_ns :: "string \<Rightarrow> nat option" where
  "unit_ns u =
     (if u = ''ns'' then Some 1
      else if u \<in> {''us'', [CHR 0xC2, CHR 0xB5] @ ''s'',
                   [CHR 0xCE, CHR 0xBC] @ ''s''} then Some 1000
      else if u = ''ms'' then Some 1000000
      else if u = ''s'' then Some 1000000000
      else if u = ''m'' then Some 60000000000
      else if u = ''h'' then Some 3600000000000
      else None)"

text \<open>One number with its unit; the result is its nanoseconds and the rest of the string.\<close>

definition dur_term :: "string \<Rightarrow> (nat \<times> string) option" where
  "dur_term s =
     (let ints = takeWhile is_digit s; s1 = dropWhile is_digit s;
          dot = (s1 \<noteq> [] \<and> hd s1 = CHR ''.'');
          fracs = (if dot then takeWhile is_digit (tl s1) else []);
          s2 = (if dot then dropWhile is_digit (tl s1) else s1);
          u = takeWhile (\<lambda>c. \<not> is_digit c \<and> c \<noteq> CHR ''.'') s2;
          s3 = dropWhile (\<lambda>c. \<not> is_digit c \<and> c \<noteq> CHR ''.'') s2;
          v = digits_val ints
      in if v > 9223372036854775808 \<or> (ints = [] \<and> fracs = []) \<or> u = [] then None
         else (case unit_ns u of
             None \<Rightarrow> None
           | Some unit \<Rightarrow>
               if v > 9223372036854775808 div unit then None
               else (case lead_frac fracs 0 1 False of (f, scale) \<Rightarrow>
                 let w = v * unit + f * unit div scale
                 in if w > 9223372036854775808 then None else Some (w, s3))))"

lemma length_dur_term: "dur_term s = Some (w, r) \<Longrightarrow> length r < length s"
proof -
  assume a: "dur_term s = Some (w, r)"
  let ?s1 = "dropWhile is_digit s"
  let ?dot = "?s1 \<noteq> [] \<and> hd ?s1 = CHR ''.''"
  let ?s2 = "if ?dot then dropWhile is_digit (tl ?s1) else ?s1"
  let ?u = "takeWhile (\<lambda>c. \<not> is_digit c \<and> c \<noteq> CHR ''.'') ?s2"
  from a have u: "?u \<noteq> []" and r: "r = dropWhile (\<lambda>c. \<not> is_digit c \<and> c \<noteq> CHR ''.'') ?s2"
    by (auto simp: dur_term_def Let_def split: if_splits option.splits prod.splits)
  have "length ?s2 \<le> length s"
    using length_dropWhile_le[of is_digit "tl ?s1"] length_dropWhile_le[of is_digit s]
    by (auto simp del: length_dropWhile_le)
  moreover have "length ?u + length r = length ?s2"
    unfolding r by (metis length_append takeWhile_dropWhile_id)
  ultimately show ?thesis using u by (cases ?u) auto
qed

function dur_terms :: "nat \<Rightarrow> string \<Rightarrow> nat option" where
  "dur_terms d s =
     (if s = [] then Some d
      else if \<not> (hd s = CHR ''.'' \<or> is_digit (hd s)) then None
      else (case dur_term s of
          None \<Rightarrow> None
        | Some (v, r) \<Rightarrow> if d + v > 9223372036854775808 then None else dur_terms (d + v) r))"
  by pat_completeness auto
termination by (relation "measure (\<lambda>(d, s). length s)") (auto dest: length_dur_term)

declare dur_terms.simps [simp del]

definition parse_duration :: "string \<Rightarrow> duration option" where
  "parse_duration s =
     (let neg = (s \<noteq> [] \<and> hd s = CHR ''-'');
          body = (if s \<noteq> [] \<and> (hd s = CHR ''-'' \<or> hd s = CHR ''+'') then tl s else s)
      in if body = ''0'' then Some 0
         else if body = [] then None
         else (case dur_terms 0 body of
             None \<Rightarrow> None
           | Some d \<Rightarrow> if neg then Some (- int d)
                       else if d > 9223372036854775807 then None else Some (int d)))"

section \<open>Records\<close>

record CheckConfig =
  Pods :: bool
  Events :: bool
  Logs :: bool
  Workloads :: bool
  Scaling :: bool
  ResourceUsage :: bool
  ResourceSpecs :: bool
  CustomResource :: bool
  Services :: bool
  PVCs :: bool

record Config =
  Namespace :: string
  PollInterval :: duration
  MetricsPort :: string
  RedpandaBroker :: string
  FindingsTopic :: string
  PublishTimeout :: duration
  CheckTimeout :: duration
  StateConfigMapName :: string
  StateWriteInterval :: duration
  ResolvedFindingRetention :: duration
  ObservationRetention :: duration
  MaxObservations :: int
  MaxFindings :: int
  MaxStateBytes :: int
  DownstreamTriageEnabled :: bool
  DownstreamMinScore :: int
  DownstreamCooldown :: duration
  DownstreamCooldownIncident :: duration
  LogScanLines :: int
  ResourceUsageBackend :: string
  MemoryWarningPercent :: int
  MemoryCriticalPercent :: int
  RestartWarningCount :: int
  RestartWindow :: duration
  EventLookback :: duration
  SuppressConfigMapName :: string
  CustomResourceAllowlist :: "string list"
  CustomResourceExcludelist :: "string list"
  CustomResourceDiscoveryTTL :: duration
  HealthMaxPollGap :: duration
  Checks :: CheckConfig

section \<open>Environment readers\<close>

definition env :: "getenv \<Rightarrow> string \<Rightarrow> string \<Rightarrow> string" where
  "env ge key fallback = (let v = ge key in if v \<noteq> [] then v else fallback)"

definition lookupEnv :: "getenv \<Rightarrow> string \<Rightarrow> string option" where
  "lookupEnv ge key = (let v = ge key in if v = [] then None else Some v)"

definition namespace :: "getenv \<Rightarrow> string" where
  "namespace ge =
     (let v = ge ''WATCH_NAMESPACE'' in if v \<noteq> [] then v
      else let w = ge ''POD_NAMESPACE'' in if w \<noteq> [] then w else ''default'')"

definition boolEnvDefaultOn :: "getenv \<Rightarrow> string \<Rightarrow> bool" where
  "boolEnvDefaultOn ge key =
     (let v = trim_space (to_lower (ge key)) in
      if v \<in> {[], ''1'', ''true'', ''yes'', ''on'', ''enabled''} then True
      else if v \<in> {''0'', ''false'', ''no'', ''off'', ''disabled''} then False
      else True)"

definition intEnv :: "getenv \<Rightarrow> string \<Rightarrow> int \<Rightarrow> int" where
  "intEnv ge key fallback =
     (let v = ge key in
      if v \<noteq> [] then (case atoi v of Some n \<Rightarrow> n | None \<Rightarrow> fallback) else fallback)"

definition durationEnv :: "getenv \<Rightarrow> string \<Rightarrow> duration \<Rightarrow> duration" where
  "durationEnv ge key fallback =
     (let v = ge key in
      if v \<noteq> [] then (case parse_duration v of Some d \<Rightarrow> d | None \<Rightarrow> fallback) else fallback)"

definition list_items :: "string \<Rightarrow> string list" where
  "list_items v =
     filter (\<lambda>item. item \<noteq> []) (map (\<lambda>part. to_lower (trim_space part)) (split_on CHR '','' v))"

fun listEnv :: "getenv \<Rightarrow> string list \<Rightarrow> string list" where
  "listEnv ge [] = []"
| "listEnv ge (key # keys) =
     (let v = ge key in if v \<noteq> [] then list_items v else listEnv ge keys)"

definition clampInt32 :: "int \<Rightarrow> int \<Rightarrow> int \<Rightarrow> int" where
  "clampInt32 v0 lo hi =
     (let v1 = (if v0 < lo then lo else v0);
          v2 = (if v1 > hi then hi else v1)
      in if v2 > 2147483647 then 2147483647
         else if v2 < - 2147483648 then - 2147483648
         else wrap32 v2)"

definition downstreamTriageEnabled :: "getenv \<Rightarrow> bool" where
  "downstreamTriageEnabled ge =
     (if lookupEnv ge ''DOWNSTREAM_TRIAGE_ENABLED'' \<noteq> None
        then boolEnvDefaultOn ge ''DOWNSTREAM_TRIAGE_ENABLED''
      else if lookupEnv ge ''AI_TRIAGE_ENABLED'' \<noteq> None
        then boolEnvDefaultOn ge ''AI_TRIAGE_ENABLED''
      else True)"

definition downstreamMinScore :: "getenv \<Rightarrow> int" where
  "downstreamMinScore ge =
     (if lookupEnv ge ''DOWNSTREAM_MIN_SCORE'' \<noteq> None
        then intEnv ge ''DOWNSTREAM_MIN_SCORE'' 60
      else if lookupEnv ge ''AI_MIN_SCORE'' \<noteq> None then intEnv ge ''AI_MIN_SCORE'' 60
      else 60)"

definition LoadChecks :: "getenv \<Rightarrow> bool \<Rightarrow> CheckConfig" where
  "LoadChecks ge resourceUsageEnabled =
     \<lparr>Pods = boolEnvDefaultOn ge ''CHECK_PODS_ENABLED'',
      Events = boolEnvDefaultOn ge ''CHECK_EVENTS_ENABLED'',
      Logs = boolEnvDefaultOn ge ''CHECK_LOGS_ENABLED'',
      Workloads = boolEnvDefaultOn ge ''CHECK_WORKLOADS_ENABLED'',
      Scaling = boolEnvDefaultOn ge ''CHECK_SCALING_ENABLED'',
      ResourceUsage = resourceUsageEnabled,
      ResourceSpecs = boolEnvDefaultOn ge ''CHECK_RESOURCE_SPECS_ENABLED'',
      CustomResource = boolEnvDefaultOn ge ''CHECK_CUSTOM_RESOURCES_ENABLED'',
      Services = boolEnvDefaultOn ge ''CHECK_SERVICES_ENABLED'',
      PVCs = boolEnvDefaultOn ge ''CHECK_PVCS_ENABLED''\<rparr>"

definition LoadConfig :: "getenv \<Rightarrow> Config" where
  "LoadConfig ge =
     (let resourceBackend = env ge ''RESOURCE_USAGE_BACKEND'' ''metrics-server'';
          resourceUsageEnabled =
            (if equal_fold resourceBackend ''disabled'' then False
             else boolEnvDefaultOn ge ''CHECK_RESOURCE_USAGE_ENABLED'')
      in \<lparr>Namespace = namespace ge,
          PollInterval = durationEnv ge ''POLL_INTERVAL'' (60 * second),
          MetricsPort = env ge ''METRICS_PORT'' ''8080'',
          RedpandaBroker = env ge ''REDPANDA_BROKER'' ''localhost:9092'',
          FindingsTopic = env ge ''FINDINGS_TOPIC'' ''k8s.namespace.findings'',
          PublishTimeout = durationEnv ge ''PUBLISH_TIMEOUT'' (10 * second),
          CheckTimeout = durationEnv ge ''CHECK_TIMEOUT'' (30 * second),
          StateConfigMapName = env ge ''STATE_CONFIGMAP_NAME'' ''autonomous-monitor-state'',
          StateWriteInterval = durationEnv ge ''STATE_WRITE_INTERVAL'' (60 * second),
          ResolvedFindingRetention = durationEnv ge ''RESOLVED_FINDING_RETENTION'' (24 * hour),
          ObservationRetention = durationEnv ge ''OBSERVATION_RETENTION'' (24 * hour),
          MaxObservations = intEnv ge ''MAX_OBSERVATIONS'' 5000,
          MaxFindings = intEnv ge ''MAX_FINDINGS'' 2000,
          MaxStateBytes = intEnv ge ''MAX_STATE_BYTES'' (900 * 1024),
          DownstreamTriageEnabled = downstreamTriageEnabled ge,
          DownstreamMinScore = downstreamMinScore ge,
          DownstreamCooldown =
            durationEnv ge ''DOWNSTREAM_COOLDOWN'' (durationEnv ge ''AI_COOLDOWN'' (30 * minute)),
          DownstreamCooldownIncident =
            durationEnv ge ''DOWNSTREAM_COOLDOWN_INCIDENT''
              (durationEnv ge ''AI_COOLDOWN_INCIDENT'' (10 * minute)),
          LogScanLines = intEnv ge ''LOG_SCAN_LINES'' 100,
          ResourceUsageBackend = resourceBackend,
          MemoryWarningPercent = intEnv ge ''MEMORY_WARNING_PERCENT'' 80,
          MemoryCriticalPercent = intEnv ge ''MEMORY_CRITICAL_PERCENT'' 90,
          RestartWarningCount = clampInt32 (intEnv ge ''RESTART_WARNING_COUNT'' 3) 1 1000,
          RestartWindow = durationEnv ge ''RESTART_WINDOW'' (10 * minute),
          EventLookback = durationEnv ge ''EVENT_LOOKBACK'' (30 * minute),
          SuppressConfigMapName = env ge ''SUPPRESS_CONFIGMAP'' [],
          CustomResourceAllowlist =
            listEnv ge [''CUSTOM_RESOURCE_ALLOWLIST'', ''CUSTOM_RESOURCE_GROUPS''],
          CustomResourceExcludelist =
            listEnv ge [''CUSTOM_RESOURCE_EXCLUDELIST'', ''CUSTOM_RESOURCE_EXCLUDE_GROUPS''],
          CustomResourceDiscoveryTTL = durationEnv ge ''CUSTOM_RESOURCE_DISCOVERY_TTL'' (10 * minute),
          HealthMaxPollGap = durationEnv ge ''HEALTH_MAX_POLL_GAP'' 0,
          Checks = LoadChecks ge resourceUsageEnabled\<rparr>)"

section \<open>Lemmas\<close>

lemma atoi_range: "atoi s = Some n \<Longrightarrow> int64_range n"
  by (auto simp: atoi_def Let_def split: if_splits)

lemma dur_terms_le:
  "d \<le> 9223372036854775808 \<Longrightarrow> dur_terms d s = Some n \<Longrightarrow> n \<le> 9223372036854775808"
proof (induction d s rule: dur_terms.induct)
  case (1 d s)
  from "1.prems"(2) show ?case
    using "1.IH" "1.prems"(1)
    by (subst (asm) dur_terms.simps) (fastforce split: if_splits option.splits)
qed

lemma parse_duration_range: "parse_duration s = Some d \<Longrightarrow> int64_range d"
  by (auto simp: parse_duration_def int64_range_def Let_def
      split: if_splits option.splits dest!: dur_terms_le[rotated])

lemma intEnv_range: "int64_range fallback \<Longrightarrow> int64_range (intEnv ge key fallback)"
  by (auto simp: intEnv_def Let_def dest: atoi_range split: option.split)

lemma durationEnv_range: "int64_range fallback \<Longrightarrow> int64_range (durationEnv ge key fallback)"
  by (auto simp: durationEnv_def Let_def dest: parse_duration_range split: option.split)

lemma env_nonempty: "fallback \<noteq> [] \<Longrightarrow> env ge key fallback \<noteq> []"
  by (simp add: env_def Let_def)

lemma namespace_nonempty: "namespace ge \<noteq> []"
  by (simp add: namespace_def Let_def)

lemma clampInt32_between:
  "int32_range lo \<Longrightarrow> int32_range hi \<Longrightarrow> lo \<le> hi \<Longrightarrow>
   lo \<le> clampInt32 v lo hi \<and> clampInt32 v lo hi \<le> hi"
  by (auto simp: clampInt32_def Let_def int32_range_def)

text \<open>An item of a list variable: not empty, lower case, no space at either end.\<close>

definition clean_item :: "string \<Rightarrow> bool" where
  "clean_item s \<longleftrightarrow> s \<noteq> [] \<and> to_lower s = s \<and> trim_space s = s"

lemma list_items_clean: "list_all clean_item (list_items v)"
  by (auto simp: list_items_def list_all_iff clean_item_def trim_space_to_lower)

lemma listEnv_clean: "list_all clean_item (listEnv ge keys)"
  by (induction keys) (simp_all add: Let_def list_items_clean)

text \<open>What every loaded configuration satisfies, whatever the environment holds.\<close>

definition config_ok :: "Config \<Rightarrow> bool" where
  "config_ok c \<longleftrightarrow>
     Namespace c \<noteq> [] \<and> StateConfigMapName c \<noteq> [] \<and> RedpandaBroker c \<noteq> [] \<and>
     FindingsTopic c \<noteq> [] \<and> MetricsPort c \<noteq> [] \<and>
     1 \<le> RestartWarningCount c \<and> RestartWarningCount c \<le> 1000 \<and>
     list_all clean_item (CustomResourceAllowlist c) \<and>
     list_all clean_item (CustomResourceExcludelist c) \<and>
     list_all int64_range
       [PollInterval c, PublishTimeout c, CheckTimeout c, StateWriteInterval c,
        ResolvedFindingRetention c, ObservationRetention c, DownstreamCooldown c,
        DownstreamCooldownIncident c, RestartWindow c, EventLookback c,
        CustomResourceDiscoveryTTL c, HealthMaxPollGap c,
        MaxObservations c, MaxFindings c, MaxStateBytes c, DownstreamMinScore c,
        LogScanLines c, MemoryWarningPercent c, MemoryCriticalPercent c] \<and>
     (ResourceUsageBackend c \<noteq> ''disabled'' \<or> \<not> ResourceUsage (Checks c))"

lemma downstreamMinScore_range: "int64_range (downstreamMinScore ge)"
  by (simp add: downstreamMinScore_def intEnv_range int64_range_def[of 60])

section \<open>Decimal numbers read back\<close>

lemma digit_char_props:
  assumes "d < 10"
  shows "is_digit (digit_char d)" and "digit_val (digit_char d) = d"
proof -
  have "d \<in> {0, 1, 2, 3, 4, 5, 6, 7, 8, 9}" using assms by auto
  then show "is_digit (digit_char d)" and "digit_val (digit_char d) = d"
    by (auto simp: digit_char_def is_digit_def digit_val_def)
qed

lemma show_nat_digits: "show_nat n \<noteq> [] \<and> list_all is_digit (show_nat n)"
proof (induction n rule: show_nat.induct)
  case (1 n)
  then show ?case by (subst (1 2) show_nat.simps) (simp add: digit_char_props)
qed

lemma digits_val_snoc: "digits_val (s @ [c]) = 10 * digits_val s + digit_val c"
  by (simp add: digits_val_def)

lemma digits_val_show_nat: "digits_val (show_nat n) = n"
proof (induction n rule: show_nat.induct)
  case (1 n)
  show ?case
  proof (cases "n < 10")
    case True
    then show ?thesis
      by (subst show_nat.simps) (simp add: digits_val_def digit_char_props)
  next
    case False
    then have "digits_val (show_nat n) = 10 * (n div 10) + n mod 10"
      using 1 by (subst show_nat.simps) (simp add: digits_val_snoc digit_char_props)
    then show ?thesis by simp
  qed
qed

lemma atoi_show_int: "int64_range n \<Longrightarrow> atoi (show_int n) = Some n"
proof -
  assume r: "int64_range n"
  have "hd (show_nat k) \<noteq> CHR ''-'' \<and> hd (show_nat k) \<noteq> CHR ''+''" for k
    using show_nat_digits[of k] by (cases "show_nat k") (auto simp: is_digit_def)
  then show ?thesis
    using r show_nat_digits by (auto simp: atoi_def show_int_def Let_def digits_val_show_nat)
qed

lemma show_int_nonempty: "show_int n \<noteq> []"
  using show_nat_digits by (simp add: show_int_def)

text \<open>Readers look at their own variable only.\<close>

lemma reader_update:
  "k \<noteq> key \<Longrightarrow> env (ge(k := v)) key fb = env ge key fb"
  "k \<noteq> key \<Longrightarrow> intEnv (ge(k := v)) key n = intEnv ge key n"
  "k \<noteq> key \<Longrightarrow> durationEnv (ge(k := v)) key n = durationEnv ge key n"
  "k \<noteq> key \<Longrightarrow> boolEnvDefaultOn (ge(k := v)) key = boolEnvDefaultOn ge key"
  "k \<noteq> ''WATCH_NAMESPACE'' \<Longrightarrow> k \<noteq> ''POD_NAMESPACE'' \<Longrightarrow> namespace (ge(k := v)) = namespace ge"
  "k \<notin> set keys \<Longrightarrow> listEnv (ge(k := v)) keys = listEnv ge keys"
proof -
  show "k \<notin> set keys \<Longrightarrow> listEnv (ge(k := v)) keys = listEnv ge keys"
    by (induction keys) (auto simp: Let_def)
qed (simp_all add: env_def intEnv_def durationEnv_def boolEnvDefaultOn_def namespace_def Let_def)

section \<open>Properties\<close>

text \<open>
  C40. Whatever the environment holds, the loaded configuration is usable: no name is empty,
  the restart threshold lies in 1..1000, every integer and duration is in its Go range, the
  custom-resource lists hold trimmed lower-case items only, and the usage backend
  \<open>disabled\<close> turns the usage check off.
\<close>

theorem LoadConfig_ok: "config_ok (LoadConfig ge)"
proof -
  have restart: "1 \<le> clampInt32 v 1 1000 \<and> clampInt32 v 1 1000 \<le> 1000" for v
    by (rule clampInt32_between) (simp_all add: int32_range_def)
  have backend: "env ge ''RESOURCE_USAGE_BACKEND'' ''metrics-server'' = ''disabled'' \<Longrightarrow>
      equal_fold (env ge ''RESOURCE_USAGE_BACKEND'' ''metrics-server'') ''disabled''"
    by (simp add: equal_fold_def)
  have ranges: "int64_range (intEnv ge key n)" "int64_range (durationEnv ge key n)"
      "int64_range (durationEnv ge key (durationEnv ge key' n))"
    if "0 \<le> n" "n \<le> 1000000000000000" for n key key'
    using that by (simp_all add: intEnv_range durationEnv_range int64_range_def[of n])
  show ?thesis
    using restart backend
    by (simp add: config_ok_def LoadConfig_def LoadChecks_def Let_def namespace_nonempty
        env_nonempty listEnv_clean downstreamMinScore_range duration_defs ranges
        del: listEnv.simps)
qed

text \<open>
  An integer variable holding the decimal form of any 64-bit integer is read back as
  that integer, whatever the fallback.
\<close>

lemma intEnv_reads_back:
  "int64_range n \<Longrightarrow> ge key = show_int n \<Longrightarrow> intEnv ge key fallback = n"
  by (simp add: intEnv_def Let_def show_int_nonempty atoi_show_int)

text \<open>
  Once the four \<open>DOWNSTREAM_*\<close> variables are set and the two durations parse, the
  deprecated \<open>AI_*\<close> variables have no influence on the configuration.
\<close>

lemma deprecated_aliases_ignored:
  assumes "ge ''DOWNSTREAM_TRIAGE_ENABLED'' \<noteq> []" and "ge ''DOWNSTREAM_MIN_SCORE'' \<noteq> []"
    and "parse_duration (ge ''DOWNSTREAM_COOLDOWN'') \<noteq> None"
    and "parse_duration (ge ''DOWNSTREAM_COOLDOWN_INCIDENT'') \<noteq> None"
  shows "LoadConfig (ge(''AI_TRIAGE_ENABLED'' := a, ''AI_MIN_SCORE'' := b,
                        ''AI_COOLDOWN'' := c, ''AI_COOLDOWN_INCIDENT'' := d)) = LoadConfig ge"
proof -
  have set: "durationEnv ge' key x = durationEnv ge' key y"
    if "parse_duration (ge' key) \<noteq> None" for ge' key x y
    using that by (auto simp: durationEnv_def Let_def parse_duration_def split: option.split)
  let ?ge = "ge(''AI_TRIAGE_ENABLED'' := a, ''AI_MIN_SCORE'' := b,
                ''AI_COOLDOWN'' := c, ''AI_COOLDOWN_INCIDENT'' := d)"
  have triage': "downstreamTriageEnabled ?ge = downstreamTriageEnabled ge"
    and score': "downstreamMinScore ?ge = downstreamMinScore ge"
    using assms(1,2)
    by (simp_all add: downstreamTriageEnabled_def downstreamMinScore_def lookupEnv_def Let_def
        reader_update)
  have cool: "durationEnv ?ge ''DOWNSTREAM_COOLDOWN'' x = durationEnv ge ''DOWNSTREAM_COOLDOWN'' y"
    and cool_incident:
      "durationEnv ?ge ''DOWNSTREAM_COOLDOWN_INCIDENT'' x = durationEnv ge ''DOWNSTREAM_COOLDOWN_INCIDENT'' y"
    for x y
    using assms(3,4) set[of ge "''DOWNSTREAM_COOLDOWN''" x y]
      set[of ge "''DOWNSTREAM_COOLDOWN_INCIDENT''" x y]
    by (simp_all add: reader_update)
  show ?thesis
    unfolding LoadConfig_def LoadChecks_def Let_def triage' score'
      cool[of _ "durationEnv ge ''AI_COOLDOWN'' (30 * minute)"]
      cool_incident[of _ "durationEnv ge ''AI_COOLDOWN_INCIDENT'' (10 * minute)"]
    by (simp add: reader_update del: listEnv.simps)
qed

end
