(* ===== verification/State_Store.thy ===== *)
theory State_Store
  imports Go_Runtime
begin

text \<open>
  \<open>state.go\<close>: the persisted state and the ConfigMap-backed store with \<open>Load\<close>, \<open>Save\<close> and
  \<open>create\<close>. The Kubernetes API and the JSON codec are arguments: the API is three functions
  that read and change a world of any type, the codec is \<open>marshal\<close> (\<open>None\<close> for an error)
  and \<open>unmarshal\<close>.
\<close>

section \<open>The persisted state\<close>

record FindingState =
  fs_Kind :: string
  fs_Name :: string
  fs_Check :: string
  fs_Reason :: string
  fs_FirstSeen :: time
  fs_LastSeen :: time
  fs_LastPublished :: "time option"
  fs_LastPublishFailed :: "time option"
  fs_LastAIDispatchRequested :: "time option"
  fs_CooldownUntil :: "time option"
  fs_Score :: int
  fs_Classification :: string
  fs_Status :: string

record Observation =
  ob_RestartCount :: int
  ob_LastSeen :: time
  ob_MemorySamplesPct :: "int list"
  ob_LastResourceSample :: time

text \<open>Map values are pointers in the source; \<open>None\<close> is nil, which a JSON \<open>null\<close> decodes to.\<close>

record MonitorState =
  ms_Version :: int
  ms_Namespace :: string
  ms_Findings :: "(string, FindingState option) go_map"
  ms_Observations :: "(string, Observation option) go_map"

definition newMonitorState :: "string \<Rightarrow> MonitorState" where
  "newMonitorState ns =
     \<lparr>ms_Version = 1, ms_Namespace = ns, ms_Findings = [], ms_Observations = []\<rparr>"

text \<open>
  A state the monitor can work on: proper maps, no nil finding, and no observation under the
  empty key (the size-pruning loop uses the empty key as \<open>nothing found yet\<close>).
\<close>

definition state_wf :: "MonitorState \<Rightarrow> bool" where
  "state_wf s \<longleftrightarrow>
     gm_wf (ms_Findings s) \<and> gm_wf (ms_Observations s) \<and>
     (\<forall>id. gm_get (ms_Findings s) id \<noteq> Some None) \<and>
     gm_get (ms_Observations s) [] = None"

lemma state_wf_new [simp]: "state_wf (newMonitorState ns)"
  by (simp add: state_wf_def newMonitorState_def)

section \<open>The API and the codec\<close>

datatype api_error = NotFound | Conflict | OtherError string

record configmap =
  cm_Name :: string
  cm_Namespace :: string
  cm_ResourceVersion :: string
  cm_Labels :: "(string, string) go_map"
  cm_Data :: "(string, string) go_map"

record 'w cm_api =
  get_cm :: "string \<Rightarrow> string \<Rightarrow> 'w \<Rightarrow> (api_error + configmap) \<times> 'w"
  update_cm :: "string \<Rightarrow> configmap \<Rightarrow> 'w \<Rightarrow> (api_error + configmap) \<times> 'w"
  create_cm :: "string \<Rightarrow> configmap \<Rightarrow> 'w \<Rightarrow> (api_error + configmap) \<times> 'w"

text \<open>
  \<open>json.Unmarshal\<close> into a zero \<open>MonitorState\<close>: a map that the text does not mention, or sets
  to \<open>null\<close>, stays nil (\<open>None\<close>).
\<close>

record decoded_state =
  de_Version :: int
  de_Namespace :: string
  de_Findings :: "(string, FindingState option) go_map option"
  de_Observations :: "(string, Observation option) go_map option"

record codec =
  marshal :: "MonitorState \<Rightarrow> string option"
  unmarshal :: "string \<Rightarrow> decoded_state option"

datatype store_error =
    ApiFailed api_error
  | MarshalFailed
  | IncompatibleJSON
  | UnsupportedVersion int
  | NotWriteable
  | Conflicted api_error

section \<open>The store\<close>

record StateStore =
  ss_namespace :: string
  ss_name :: string
  ss_writeable :: bool
  ss_configMap :: "configmap option"

definition NewStateStore :: "string \<Rightarrow> string \<Rightarrow> StateStore" where
  "NewStateStore ns nm =
     \<lparr>ss_namespace = ns, ss_name = nm, ss_writeable = True, ss_configMap = None\<rparr>"

definition stateDataKey :: string where "stateDataKey = ''state.json''"

definition stateSaveConflictRetries :: nat where "stateSaveConflictRetries = 3"

text \<open>Reading a missing key of a Go map gives the zero value, here the empty string.\<close>

definition data_at :: "(string, string) go_map \<Rightarrow> string \<Rightarrow> string" where
  "data_at d key = (case gm_get d key of None \<Rightarrow> [] | Some v \<Rightarrow> v)"

definition create ::
  "'w cm_api \<Rightarrow> codec \<Rightarrow> StateStore \<Rightarrow> MonitorState \<Rightarrow> 'w \<Rightarrow> (store_error + configmap) \<times> 'w" where
  "create api co s state w =
     (case marshal co state of
        None \<Rightarrow> (Inl MarshalFailed, w)
      | Some data \<Rightarrow>
          (case create_cm api (ss_namespace s)
             \<lparr>cm_Name = ss_name s, cm_Namespace = ss_namespace s, cm_ResourceVersion = [],
              cm_Labels = [(''app.kubernetes.io/name'', ''autonomous-monitor''),
                           (''app.kubernetes.io/component'', ''state'')],
              cm_Data = [(stateDataKey, data)]\<rparr> w of
            (Inl e, w') \<Rightarrow> (Inl (ApiFailed e), w')
          | (Inr cm, w') \<Rightarrow> (Inr cm, w')))"

text \<open>
  The part of \<open>Load\<close> that follows a successful Get: the state, the error if any, and whether
  the store stays writeable.
\<close>

definition adopt :: "codec \<Rightarrow> string \<Rightarrow> configmap \<Rightarrow> MonitorState \<times> store_error option \<times> bool" where
  "adopt co ns cm =
     (let raw = data_at (cm_Data cm) stateDataKey in
      if raw = [] then (newMonitorState ns, None, True)
      else (case unmarshal co raw of
          None \<Rightarrow> (newMonitorState ns, Some IncompatibleJSON, False)
        | Some d \<Rightarrow>
            if de_Version d \<noteq> 1
            then (newMonitorState ns, Some (UnsupportedVersion (de_Version d)), False)
            else (\<lparr>ms_Version = de_Version d,
                   ms_Namespace = (if de_Namespace d = [] then ns else de_Namespace d),
                   ms_Findings = (case de_Findings d of None \<Rightarrow> [] | Some m \<Rightarrow> m),
                   ms_Observations = (case de_Observations d of None \<Rightarrow> [] | Some m \<Rightarrow> m)\<rparr>,
                  None, True)))"

text \<open>\<open>Load\<close> returns a possibly nil state, a possibly nil error, the store and the world.\<close>

definition Load ::
  "'w cm_api \<Rightarrow> codec \<Rightarrow> StateStore \<Rightarrow> 'w \<Rightarrow>
   MonitorState option \<times> store_error option \<times> StateStore \<times> 'w" where
  "Load api co s w =
     (case get_cm api (ss_namespace s) (ss_name s) w of
        (Inl NotFound, w1) \<Rightarrow>
          (let state = newMonitorState (ss_namespace s) in
           case create api co s state w1 of
             (Inl e, w2) \<Rightarrow> (None, Some e, s, w2)
           | (Inr cm, w2) \<Rightarrow> (Some state, None, s\<lparr>ss_configMap := Some cm\<rparr>, w2))
      | (Inl e, w1) \<Rightarrow> (None, Some (ApiFailed e), s, w1)
      | (Inr cm, w1) \<Rightarrow>
          (let s1 = s\<lparr>ss_configMap := Some cm\<rparr> in
           case adopt co (ss_namespace s) cm of
             (state, err, writeable) \<Rightarrow>
               (Some state, err,
                (if writeable then s1 else s1\<lparr>ss_writeable := False\<rparr>), w1)))"

definition with_state :: "string \<Rightarrow> configmap \<Rightarrow> configmap" where
  "with_state data cm = cm\<lparr>cm_Data := gm_set stateDataKey data (cm_Data cm)\<rparr>"

text \<open>
  The attempts of \<open>Save\<close>: \<open>n\<close> are left, \<open>again\<close> says whether this is not the first one,
  \<open>lastErr\<close> is the conflict seen last. A Get precedes the update when there is no cached
  object or the previous attempt conflicted.
\<close>

fun save_attempts ::
  "'w cm_api \<Rightarrow> string \<Rightarrow> nat \<Rightarrow> bool \<Rightarrow> api_error \<Rightarrow> StateStore \<Rightarrow> 'w \<Rightarrow>
   store_error option \<times> StateStore \<times> 'w" where
  "save_attempts api data 0 again lastErr s w = (Some (Conflicted lastErr), s, w)"
| "save_attempts api data (Suc n) again lastErr s w =
     (case (if ss_configMap s = None \<or> again
            then get_cm api (ss_namespace s) (ss_name s) w
            else (Inr (the (ss_configMap s)), w)) of
        (Inl e, w1) \<Rightarrow> (Some (ApiFailed e), s, w1)
      | (Inr cm0, w1) \<Rightarrow>
          (let s1 = s\<lparr>ss_configMap := Some cm0\<rparr> in
           case update_cm api (ss_namespace s1) (with_state data cm0) w1 of
             (Inr updated, w2) \<Rightarrow> (None, s1\<lparr>ss_configMap := Some updated\<rparr>, w2)
           | (Inl e, w2) \<Rightarrow>
               if e \<noteq> Conflict then (Some (ApiFailed e), s1, w2)
               else save_attempts api data n True e (s1\<lparr>ss_configMap := None\<rparr>) w2))"

definition Save ::
  "'w cm_api \<Rightarrow> codec \<Rightarrow> StateStore \<Rightarrow> MonitorState \<Rightarrow> 'w \<Rightarrow> store_error option \<times> StateStore \<times> 'w" where
  "Save api co s state w =
     (if \<not> ss_writeable s then (Some NotWriteable, s, w)
      else (case marshal co state of
          None \<Rightarrow> (Some MarshalFailed, s, w)
        | Some data \<Rightarrow>
            save_attempts api data stateSaveConflictRetries False Conflict s w))"

section \<open>Lemmas\<close>

lemma save_attempts_frame:
  "save_attempts api data n again le s w = (err, s', w') \<Longrightarrow>
   ss_writeable s' = ss_writeable s \<and> ss_namespace s' = ss_namespace s \<and> ss_name s' = ss_name s"
  by (induction n arbitrary: again le s w)
     (fastforce simp: Let_def split: prod.splits sum.splits if_splits)+

lemma Save_frame [frame_simps]:
  "Save api co s state w = (err, s', w') \<Longrightarrow>
   ss_writeable s' = ss_writeable s \<and> ss_namespace s' = ss_namespace s \<and> ss_name s' = ss_name s"
  by (auto simp: Save_def split: if_splits option.splits dest: save_attempts_frame)

text \<open>
  A successful save ends with an accepted update that carries the new text under the state
  key of the object the store held or fetched; the store then holds what the API returned.
\<close>

lemma save_attempts_success:
  "save_attempts api data n again le s w = (None, s', w') \<Longrightarrow>
   \<exists>cm w1 updated. update_cm api (ss_namespace s) (with_state data cm) w1 = (Inr updated, w') \<and>
     ss_configMap s' = Some updated"
proof (induction n arbitrary: again le s w)
  case 0
  then show ?case by simp
next
  case (Suc n)
  from Suc.prems show ?case
    by (auto simp: Let_def split: prod.splits sum.splits if_splits dest!: Suc.IH) blast+
qed

lemma Save_success:
  assumes "Save api co s state w = (None, s', w')"
  obtains data cm w1 updated where "marshal co state = Some data"
    "update_cm api (ss_namespace s) (with_state data cm) w1 = (Inr updated, w')"
    "ss_configMap s' = Some updated"
  using assms
  by (auto simp: Save_def split: if_splits option.splits dest!: save_attempts_success)

text \<open>An update returns the object it stored: the data is the data sent.\<close>

definition update_keeps_data :: "'w cm_api \<Rightarrow> bool" where
  "update_keeps_data api \<longleftrightarrow>
     (\<forall>ns cm w updated w'. update_cm api ns cm w = (Inr updated, w') \<longrightarrow> cm_Data updated = cm_Data cm)"

lemma data_at_with_state [simp]: "data_at (cm_Data (with_state data cm)) stateDataKey = data"
  by (simp add: data_at_def with_state_def gm_get_def)

lemma data_at_with_state_other:
  "key \<noteq> stateDataKey \<Longrightarrow> data_at (cm_Data (with_state data cm)) key = data_at (cm_Data cm) key"
  by (simp add: data_at_def with_state_def gm_get_def)

text \<open>The object a successful save builds on was cached or fetched, and keeps its other keys.\<close>

lemma save_attempts_base:
  "save_attempts api data n again le s w = (None, s', w') \<Longrightarrow>
   \<exists>cm w1 updated. update_cm api (ss_namespace s) (with_state data cm) w1 = (Inr updated, w') \<and>
     ss_configMap s' = Some updated \<and>
     (ss_configMap s = Some cm \<or>
      (\<exists>w2 w3. get_cm api (ss_namespace s) (ss_name s) w2 = (Inr cm, w3)))"
proof (induction n arbitrary: again le s w)
  case 0
  then show ?case by simp
next
  case (Suc n)
  from Suc.prems show ?case
    by (auto simp: Let_def split: prod.splits sum.splits if_splits dest!: Suc.IH) blast+
qed

text \<open>Counting the updates an attempt issues.\<close>

definition counts_updates :: "'w cm_api \<Rightarrow> ('w \<Rightarrow> nat) \<Rightarrow> bool" where
  "counts_updates api n \<longleftrightarrow>
     (\<forall>ns cm w. n (snd (update_cm api ns cm w)) = Suc (n w)) \<and>
     (\<forall>ns nm w. n (snd (get_cm api ns nm w)) = n w)"

lemma save_attempts_count:
  assumes "counts_updates api c"
  shows "save_attempts api data n again le s w = (err, s', w') \<Longrightarrow>
    c w' \<le> c w + n \<and> (\<forall>e. err = Some (Conflicted e) \<longrightarrow> c w' = c w + n)"
proof (induction n arbitrary: again le s w)
  case 0
  then show ?case by simp
next
  case (Suc n)
  have u: "update_cm api ns cm v = (r, v') \<Longrightarrow> c v' = Suc (c v)" for ns cm v r v'
    using assms by (metis counts_updates_def snd_conv)
  have g: "get_cm api ns nm v = (r, v') \<Longrightarrow> c v' = c v" for ns nm v r v'
    using assms by (metis counts_updates_def snd_conv)
  from Suc.prems show ?case
    by (auto simp: Let_def split: prod.splits sum.splits if_splits dest!: Suc.IH u g)
qed

section \<open>An API server with optimistic locking\<close>

text \<open>
  The API as the store relies on it, for one object: an update is accepted if it carries the
  stored resource version and then gets a new one. The world is the stored object, the next
  version and the number of updates so far. Used to instantiate the API in witnesses.
\<close>

record cluster =
  cl_object :: "configmap option"
  cl_version :: nat
  cl_updates :: nat

definition cluster_get ::
  "string \<Rightarrow> string \<Rightarrow> cluster \<Rightarrow> (api_error + configmap) \<times> cluster" where
  "cluster_get ns nm c =
     (case cl_object c of
        None \<Rightarrow> (Inl NotFound, c)
      | Some cm \<Rightarrow>
          if cm_Name cm = nm \<and> cm_Namespace cm = ns then (Inr cm, c) else (Inl NotFound, c))"

definition cluster_update :: "string \<Rightarrow> configmap \<Rightarrow> cluster \<Rightarrow> (api_error + configmap) \<times> cluster" where
  "cluster_update ns cm c =
     (let c1 = c\<lparr>cl_updates := Suc (cl_updates c)\<rparr> in
      case cl_object c of
        None \<Rightarrow> (Inl NotFound, c1)
      | Some stored \<Rightarrow>
          if cm_ResourceVersion cm \<noteq> cm_ResourceVersion stored then (Inl Conflict, c1)
          else let cm1 = cm\<lparr>cm_ResourceVersion := show_nat (cl_version c)\<rparr>
               in (Inr cm1, c1\<lparr>cl_object := Some cm1, cl_version := Suc (cl_version c)\<rparr>))"

definition cluster_create :: "string \<Rightarrow> configmap \<Rightarrow> cluster \<Rightarrow> (api_error + configmap) \<times> cluster" where
  "cluster_create ns cm c =
     (case cl_object c of
        Some _ \<Rightarrow> (Inl (OtherError ''already exists''), c)
      | None \<Rightarrow>
          let cm1 = cm\<lparr>cm_ResourceVersion := show_nat (cl_version c)\<rparr>
          in (Inr cm1, c\<lparr>cl_object := Some cm1, cl_version := Suc (cl_version c)\<rparr>))"

definition cluster_api :: "cluster cm_api" where
  "cluster_api = \<lparr>get_cm = cluster_get, update_cm = cluster_update, create_cm = cluster_create\<rparr>"

lemma cluster_keeps_data: "update_keeps_data cluster_api"
  by (auto simp: update_keeps_data_def cluster_api_def cluster_update_def Let_def
      split: option.splits if_splits)

lemma cluster_counts: "counts_updates cluster_api cl_updates"
  by (auto simp: counts_updates_def cluster_api_def cluster_update_def cluster_get_def Let_def
      split: option.splits)

text \<open>A codec for one state, enough to run the store on a concrete input.\<close>

definition one_state_codec :: "MonitorState \<Rightarrow> codec" where
  "one_state_codec s0 =
     \<lparr>marshal = (\<lambda>s. if s = s0 then Some ''{}'' else None),
      unmarshal = (\<lambda>raw. if raw = ''{}'' then
        Some \<lparr>de_Version = ms_Version s0, de_Namespace = ms_Namespace s0,
              de_Findings = Some (ms_Findings s0), de_Observations = Some (ms_Observations s0)\<rparr>
        else None)\<rparr>"

definition foreign_cm :: configmap where
  "foreign_cm = \<lparr>cm_Name = ''st'', cm_Namespace = ''ns'', cm_ResourceVersion = ''0'', cm_Labels = [],
                 cm_Data = [(''owner'', ''team-a'')]\<rparr>"

definition foreign_cluster :: cluster where
  "foreign_cluster = \<lparr>cl_object = Some foreign_cm, cl_version = 1, cl_updates = 0\<rparr>"

lemmas store_eval = Save_def NewStateStore_def cluster_api_def cluster_get_def cluster_update_def
  Let_def foreign_cluster_def foreign_cm_def one_state_codec_def with_state_def
  stateSaveConflictRetries_def stateDataKey_def numeral_eq_Suc

definition saved_cm :: configmap where
  "saved_cm = (with_state ''{}'' foreign_cm)\<lparr>cm_ResourceVersion := show_nat 1\<rparr>"

lemma one_save:
  "Save cluster_api (one_state_codec (newMonitorState ''ns''))
     ((NewStateStore ''ns'' ''st'')\<lparr>ss_configMap := cached\<rparr>) (newMonitorState ''ns'') foreign_cluster
   = (None, (NewStateStore ''ns'' ''st'')\<lparr>ss_configMap := Some saved_cm\<rparr>,
      foreign_cluster\<lparr>cl_object := Some saved_cm, cl_version := 2, cl_updates := 1\<rparr>)"
  if "cached = None \<or> cached = Some foreign_cm"
  using that by (auto simp: store_eval saved_cm_def)

section \<open>Properties\<close>

text \<open>
  C19. State that cannot be read is never overwritten: if \<open>Load\<close> hands out a fresh state
  together with an error (incompatible JSON or an unsupported version), every later \<open>Save\<close>
  on that store is refused without any API call.
\<close>

theorem unreadable_state_is_never_overwritten:
  assumes "Load api co (NewStateStore ns nm) w = (Some state, Some err, s, w')"
  shows "Save api co' s st v = (Some NotWriteable, s, v)"
  using assms
  by (auto simp: Load_def Let_def adopt_def Save_def
      split: prod.splits sum.splits api_error.splits if_splits option.splits)

theorem unreadable_state_is_never_overwritten_witness:
  "\<exists>s. Load cluster_api (one_state_codec (newMonitorState ''ns'')) (NewStateStore ''ns'' ''st'')
        (foreign_cluster\<lparr>cl_object := Some (with_state ''garbage'' foreign_cm)\<rparr>)
      = (Some (newMonitorState ''ns''), Some IncompatibleJSON, s,
         foreign_cluster\<lparr>cl_object := Some (with_state ''garbage'' foreign_cm)\<rparr>) \<and>
      Save cluster_api (one_state_codec (newMonitorState ''ns'')) s (newMonitorState ''ns'') foreign_cluster
      = (Some NotWriteable, s, foreign_cluster)"
proof -
  let ?w = "foreign_cluster\<lparr>cl_object := Some (with_state ''garbage'' foreign_cm)\<rparr>"
  let ?co = "one_state_codec (newMonitorState ''ns'')"
  let ?s = "(NewStateStore ''ns'' ''st'')\<lparr>ss_configMap := Some (with_state ''garbage'' foreign_cm),
              ss_writeable := False\<rparr>"
  have "Load cluster_api ?co (NewStateStore ''ns'' ''st'') ?w =
      (Some (newMonitorState ''ns''), Some IncompatibleJSON, ?s, ?w)"
    by (simp add: Load_def NewStateStore_def cluster_api_def cluster_get_def adopt_def Let_def
        foreign_cluster_def foreign_cm_def one_state_codec_def with_state_def data_at_def
        gm_get_def stateDataKey_def)
  then show ?thesis
    by (intro exI[of _ ?s] conjI unreadable_state_is_never_overwritten)
qed

text \<open>
  C26. \<open>Save\<close> issues at most three updates, and exactly three when it gives up on conflicts.
\<close>

theorem Save_update_bound:
  assumes "counts_updates api updates" and "Save api co s state w = (err, s', w')"
  shows "updates w' \<le> updates w + 3 \<and>
    (\<forall>e. err = Some (Conflicted e) \<longrightarrow> updates w' = updates w + 3)"
  using assms
  by (auto simp: Save_def stateSaveConflictRetries_def split: if_splits option.splits
      dest!: save_attempts_count)

theorem Save_update_bound_witness:
  "cl_updates (snd (snd (Save cluster_api (one_state_codec (newMonitorState ''ns''))
      ((NewStateStore ''ns'' ''st'')\<lparr>ss_configMap := Some (foreign_cm\<lparr>cm_ResourceVersion := ''9''\<rparr>)\<rparr>)
      (newMonitorState ''ns'') foreign_cluster))) \<le> 3"
proof -
  obtain err s' w' where r: "Save cluster_api (one_state_codec (newMonitorState ''ns''))
      ((NewStateStore ''ns'' ''st'')\<lparr>ss_configMap := Some (foreign_cm\<lparr>cm_ResourceVersion := ''9''\<rparr>)\<rparr>)
      (newMonitorState ''ns'') foreign_cluster = (err, s', w')"
    by (metis prod_cases3)
  show ?thesis
    using Save_update_bound[OF cluster_counts r]
    by (subst r) (simp add: foreign_cluster_def)
qed

text \<open>
  C27. A save touches the state key only: every other key of the ConfigMap keeps the value it
  had in the object the update builds on, which is the cached one or one just fetched.
\<close>

theorem Save_keeps_foreign_keys:
  assumes "update_keeps_data api" and "Save api co s state w = (None, s', w')"
  shows "\<exists>cm updated. ss_configMap s' = Some updated \<and>
    (ss_configMap s = Some cm \<or>
     (\<exists>w1 w2. get_cm api (ss_namespace s) (ss_name s) w1 = (Inr cm, w2))) \<and>
    (\<forall>key. key \<noteq> stateDataKey \<longrightarrow> data_at (cm_Data updated) key = data_at (cm_Data cm) key)"
proof -
  from assms(2) obtain data where
    "save_attempts api data stateSaveConflictRetries False Conflict s w = (None, s', w')"
    by (auto simp: Save_def split: if_splits option.splits)
  then obtain cm w1 updated where
    u: "update_cm api (ss_namespace s) (with_state data cm) w1 = (Inr updated, w')"
      "ss_configMap s' = Some updated"
    and base: "ss_configMap s = Some cm \<or>
      (\<exists>w2 w3. get_cm api (ss_namespace s) (ss_name s) w2 = (Inr cm, w3))"
    by (blast dest: save_attempts_base)
  have "cm_Data updated = cm_Data (with_state data cm)"
    using assms(1) u(1) unfolding update_keeps_data_def by blast
  then show ?thesis using u(2) base data_at_with_state_other by metis
qed

theorem Save_keeps_foreign_keys_witness:
  "\<exists>cm updated. Some saved_cm = Some updated \<and>
    (Some foreign_cm = Some cm \<or>
     (\<exists>w1 w2. get_cm cluster_api ''ns'' ''st'' w1 = (Inr cm, w2))) \<and>
    (\<forall>key. key \<noteq> stateDataKey \<longrightarrow> data_at (cm_Data updated) key = data_at (cm_Data cm) key)"
  using Save_keeps_foreign_keys[OF cluster_keeps_data one_save[of "Some foreign_cm"]]
  by (simp add: NewStateStore_def)

end
