(* ===== verification/Snapshot.thy ===== *)
theory Snapshot
  imports Config State_Store
begin

text \<open>
  The Kubernetes objects the checks read, and \<open>snapshot.go\<close>: the per-poll snapshot, the
  gated List calls and the abandonment of a listing that misses its deadline.

  The object types belong to the client library; a record here holds the fields the program
  reads. Amounts of memory and CPU are values of an arbitrary type \<open>'q\<close> with the operations
  of \<open>'q deps\<close>.
\<close>

section \<open>Library code the checks call\<close>

record 'q deps =
  q_zero :: 'q                       \<comment> \<open>a zero \<open>resource.Quantity\<close>\<close>
  q_isZero :: "'q \<Rightarrow> bool"           \<comment> \<open>\<open>Quantity.IsZero\<close>\<close>
  q_add :: "'q \<Rightarrow> 'q \<Rightarrow> 'q"          \<comment> \<open>\<open>Quantity.Add\<close>\<close>
  q_value :: "'q \<Rightarrow> int"             \<comment> \<open>\<open>Quantity.Value\<close>\<close>
  sel_matches :: "(string \<times> string) list \<Rightarrow> (string \<times> string) list \<Rightarrow> bool"
                                      \<comment> \<open>\<open>labels.SelectorFromSet(s).Matches(l)\<close>\<close>
  sel_string :: "(string \<times> string) list \<Rightarrow> string"   \<comment> \<open>\<open>Selector.String\<close>\<close>
  local_rfc3339 :: "time \<Rightarrow> string"   \<comment> \<open>\<open>Format(time.RFC3339)\<close> in the process's time zone\<close>
  parse_gv :: "string \<Rightarrow> (string \<times> string) option"
                                      \<comment> \<open>\<open>schema.ParseGroupVersion\<close>: group and version\<close>

section \<open>Kubernetes objects\<close>

record 'q resource_list =
  rl_memory :: 'q
  rl_cpu :: 'q

record 'q container =
  c_Name :: string
  c_Requests :: "'q resource_list option"
  c_Limits :: "'q resource_list option"

record waiting =
  wa_Reason :: string
  wa_Message :: string

record container_status =
  cs_Name :: string
  cs_RestartCount :: int
  cs_Waiting :: "waiting option"
  cs_LastTerminated :: "string option"   \<comment> \<open>the reason of the last termination, if any\<close>

record condition =
  co_Type :: string
  co_Status :: string
  co_Reason :: string
  co_Message :: string

record 'q pod =
  pod_Name :: string
  pod_Labels :: "(string \<times> string) list"
  pod_CreationTimestamp :: time
  pod_DeletionTimestamp :: "time option"
  pod_Phase :: string
  pod_Conditions :: "condition list"
  pod_ContainerStatuses :: "container_status list"
  pod_Containers :: "'q container list"

record event =
  ev_Type :: string
  ev_Reason :: string
  ev_Message :: string
  ev_LastTimestamp :: time
  ev_EventTime :: time
  ev_CreationTimestamp :: time
  ev_InvolvedKind :: string
  ev_InvolvedName :: string

record deployment =
  dep_Name :: string
  dep_Generation :: int
  dep_Replicas :: "int option"
  dep_AvailableReplicas :: int
  dep_ObservedGeneration :: int

record stateful_set =
  sts_Name :: string
  sts_Replicas :: "int option"
  sts_ReadyReplicas :: int

record daemon_set =
  ds_Name :: string
  ds_DesiredNumberScheduled :: int
  ds_NumberReady :: int

record service =
  svc_Name :: string
  svc_DeletionTimestamp :: "time option"
  svc_Type :: string
  svc_Selector :: "(string \<times> string) list"
  svc_Ingress :: "string list"

record pvc =
  pvc_Name :: string
  pvc_DeletionTimestamp :: "time option"
  pvc_Phase :: string
  pvc_Conditions :: "condition list"

record hpa =
  hpa_Name :: string
  hpa_DeletionTimestamp :: "time option"
  hpa_Conditions :: "condition list"
  hpa_CurrentReplicas :: int
  hpa_DesiredReplicas :: int
  hpa_MaxReplicas :: int

section \<open>The snapshot\<close>

record 'q snapshot =
  sn_now :: time
  sn_pods :: "'q pod list"
  sn_podsOK :: bool
  sn_events :: "event list"
  sn_eventsOK :: bool
  sn_deployments :: "deployment list"
  sn_deploymentsOK :: bool
  sn_statefulSets :: "stateful_set list"
  sn_statefulSetsOK :: bool
  sn_daemonSets :: "daemon_set list"
  sn_daemonSetsOK :: bool
  sn_services :: "service list"
  sn_servicesOK :: bool
  sn_pvcs :: "pvc list"
  sn_pvcsOK :: bool
  sn_hpas :: "hpa list"
  sn_hpasOK :: bool
  sn_priorObservations :: "(string, Observation) go_map"

text \<open>What the API answers to the List calls of one poll; \<open>None\<close> is an error.\<close>

record 'q listing =
  li_pods :: "'q pod list option"
  li_events :: "event list option"
  li_deployments :: "deployment list option"
  li_statefulSets :: "stateful_set list option"
  li_daemonSets :: "daemon_set list option"
  li_services :: "service list option"
  li_pvcs :: "pvc list option"
  li_hpas :: "hpa list option"

definition empty_snapshot :: "time \<Rightarrow> (string, Observation) go_map \<Rightarrow> 'q snapshot" where
  "empty_snapshot now prior =
     \<lparr>sn_now = now, sn_pods = [], sn_podsOK = False, sn_events = [], sn_eventsOK = False,
      sn_deployments = [], sn_deploymentsOK = False, sn_statefulSets = [], sn_statefulSetsOK = False,
      sn_daemonSets = [], sn_daemonSetsOK = False, sn_services = [], sn_servicesOK = False,
      sn_pvcs = [], sn_pvcsOK = False, sn_hpas = [], sn_hpasOK = False,
      sn_priorObservations = prior\<rparr>"

definition needs_pods :: "CheckConfig \<Rightarrow> bool" where
  "needs_pods c \<longleftrightarrow> Pods c \<or> ResourceSpecs c \<or> Services c \<or> Logs c \<or> ResourceUsage c"

text \<open>One gated List call each, in the order of the source.\<close>

definition list_pods :: "CheckConfig \<Rightarrow> 'q listing \<Rightarrow> 'q snapshot \<Rightarrow> 'q snapshot" where
  "list_pods c ans s =
     (if needs_pods c then
        (case li_pods ans of
           Some items \<Rightarrow> s\<lparr>sn_pods := items, sn_podsOK := True\<rparr>
         | None \<Rightarrow> s)
      else s)"

definition list_events :: "CheckConfig \<Rightarrow> 'q listing \<Rightarrow> 'q snapshot \<Rightarrow> 'q snapshot" where
  "list_events c ans s =
     (if Events c then
        (case li_events ans of
           Some items \<Rightarrow> s\<lparr>sn_events := items, sn_eventsOK := True\<rparr>
         | None \<Rightarrow> s)
      else s)"

definition list_deployments :: "CheckConfig \<Rightarrow> 'q listing \<Rightarrow> 'q snapshot \<Rightarrow> 'q snapshot" where
  "list_deployments c ans s =
     (if Workloads c then
        (case li_deployments ans of
           Some items \<Rightarrow> s\<lparr>sn_deployments := items, sn_deploymentsOK := True\<rparr>
         | None \<Rightarrow> s)
      else s)"

definition list_statefulSets :: "CheckConfig \<Rightarrow> 'q listing \<Rightarrow> 'q snapshot \<Rightarrow> 'q snapshot" where
  "list_statefulSets c ans s =
     (if Workloads c then
        (case li_statefulSets ans of
           Some items \<Rightarrow> s\<lparr>sn_statefulSets := items, sn_statefulSetsOK := True\<rparr>
         | None \<Rightarrow> s)
      else s)"

definition list_daemonSets :: "CheckConfig \<Rightarrow> 'q listing \<Rightarrow> 'q snapshot \<Rightarrow> 'q snapshot" where
  "list_daemonSets c ans s =
     (if Workloads c then
        (case li_daemonSets ans of
           Some items \<Rightarrow> s\<lparr>sn_daemonSets := items, sn_daemonSetsOK := True\<rparr>
         | None \<Rightarrow> s)
      else s)"

definition list_services :: "CheckConfig \<Rightarrow> 'q listing \<Rightarrow> 'q snapshot \<Rightarrow> 'q snapshot" where
  "list_services c ans s =
     (if Services c then
        (case li_services ans of
           Some items \<Rightarrow> s\<lparr>sn_services := items, sn_servicesOK := True\<rparr>
         | None \<Rightarrow> s)
      else s)"

definition list_pvcs :: "CheckConfig \<Rightarrow> 'q listing \<Rightarrow> 'q snapshot \<Rightarrow> 'q snapshot" where
  "list_pvcs c ans s =
     (if PVCs c then
        (case li_pvcs ans of
           Some items \<Rightarrow> s\<lparr>sn_pvcs := items, sn_pvcsOK := True\<rparr>
         | None \<Rightarrow> s)
      else s)"

definition list_hpas :: "CheckConfig \<Rightarrow> 'q listing \<Rightarrow> 'q snapshot \<Rightarrow> 'q snapshot" where
  "list_hpas c ans s =
     (if Scaling c then
        (case li_hpas ans of
           Some items \<Rightarrow> s\<lparr>sn_hpas := items, sn_hpasOK := True\<rparr>
         | None \<Rightarrow> s)
      else s)"

definition listSnapshot :: "CheckConfig \<Rightarrow> 'q listing \<Rightarrow> 'q snapshot \<Rightarrow> 'q snapshot" where
  "listSnapshot c ans s =
     list_hpas c ans (list_pvcs c ans (list_services c ans (list_daemonSets c ans
       (list_statefulSets c ans (list_deployments c ans (list_events c ans (list_pods c ans s)))))))"

text \<open>The copy of the observations: nil entries are left out.\<close>

definition prior_observations :: "(string, Observation option) go_map \<Rightarrow> (string, Observation) go_map" where
  "prior_observations obs =
     concat (map (\<lambda>(key, ob). case ob of None \<Rightarrow> [] | Some o' \<Rightarrow> [(key, o')]) obs)"

text \<open>
  \<open>buildSnapshot\<close>: \<open>finished\<close> is the outcome of the race between the listing goroutine and
  the deadline, which only exists when a timeout is configured.
\<close>

definition buildSnapshot ::
  "Config \<Rightarrow> MonitorState \<Rightarrow> time \<Rightarrow> 'q listing \<Rightarrow> bool \<Rightarrow> 'q snapshot" where
  "buildSnapshot cfg state now ans finished =
     (let prior = prior_observations (ms_Observations state);
          snap = empty_snapshot now prior
      in if CheckTimeout cfg \<le> 0 then listSnapshot (Checks cfg) ans snap
         else if finished then listSnapshot (Checks cfg) ans snap
         else empty_snapshot now prior)"

section \<open>Lemmas\<close>

lemma list_pods_sel [simp]:
  "sn_now (list_pods c ans s) = sn_now s"
  "sn_priorObservations (list_pods c ans s) = sn_priorObservations s"
  "sn_pods (list_pods c ans s) = (if needs_pods c then (case li_pods ans of Some items \<Rightarrow> items | None \<Rightarrow> sn_pods s) else sn_pods s)"
  "sn_podsOK (list_pods c ans s) = (sn_podsOK s \<or> needs_pods c \<and> li_pods ans \<noteq> None)"
  "sn_events (list_pods c ans s) = sn_events s"
  "sn_eventsOK (list_pods c ans s) = sn_eventsOK s"
  "sn_deployments (list_pods c ans s) = sn_deployments s"
  "sn_deploymentsOK (list_pods c ans s) = sn_deploymentsOK s"
  "sn_statefulSets (list_pods c ans s) = sn_statefulSets s"
  "sn_statefulSetsOK (list_pods c ans s) = sn_statefulSetsOK s"
  "sn_daemonSets (list_pods c ans s) = sn_daemonSets s"
  "sn_daemonSetsOK (list_pods c ans s) = sn_daemonSetsOK s"
  "sn_services (list_pods c ans s) = sn_services s"
  "sn_servicesOK (list_pods c ans s) = sn_servicesOK s"
  "sn_pvcs (list_pods c ans s) = sn_pvcs s"
  "sn_pvcsOK (list_pods c ans s) = sn_pvcsOK s"
  "sn_hpas (list_pods c ans s) = sn_hpas s"
  "sn_hpasOK (list_pods c ans s) = sn_hpasOK s"
  by (simp_all add: list_pods_def split: option.split)

lemma list_events_sel [simp]:
  "sn_now (list_events c ans s) = sn_now s"
  "sn_priorObservations (list_events c ans s) = sn_priorObservations s"
  "sn_pods (list_events c ans s) = sn_pods s"
  "sn_podsOK (list_events c ans s) = sn_podsOK s"
  "sn_events (list_events c ans s) = (if Events c then (case li_events ans of Some items \<Rightarrow> items | None \<Rightarrow> sn_events s) else sn_events s)"
  "sn_eventsOK (list_events c ans s) = (sn_eventsOK s \<or> Events c \<and> li_events ans \<noteq> None)"
  "sn_deployments (list_events c ans s) = sn_deployments s"
  "sn_deploymentsOK (list_events c ans s) = sn_deploymentsOK s"
  "sn_statefulSets (list_events c ans s) = sn_statefulSets s"
  "sn_statefulSetsOK (list_events c ans s) = sn_statefulSetsOK s"
  "sn_daemonSets (list_events c ans s) = sn_daemonSets s"
  "sn_daemonSetsOK (list_events c ans s) = sn_daemonSetsOK s"
  "sn_services (list_events c ans s) = sn_services s"
  "sn_servicesOK (list_events c ans s) = sn_servicesOK s"
  "sn_pvcs (list_events c ans s) = sn_pvcs s"
  "sn_pvcsOK (list_events c ans s) = sn_pvcsOK s"
  "sn_hpas (list_events c ans s) = sn_hpas s"
  "sn_hpasOK (list_events c ans s) = sn_hpasOK s"
  by (simp_all add: list_events_def split: option.split)

lemma list_deployments_sel [simp]:
  "sn_now (list_deployments c ans s) = sn_now s"
  "sn_priorObservations (list_deployments c ans s) = sn_priorObservations s"
  "sn_pods (list_deployments c ans s) = sn_pods s"
  "sn_podsOK (list_deployments c ans s) = sn_podsOK s"
  "sn_events (list_deployments c ans s) = sn_events s"
  "sn_eventsOK (list_deployments c ans s) = sn_eventsOK s"
  "sn_deployments (list_deployments c ans s) = (if Workloads c then (case li_deployments ans of Some items \<Rightarrow> items | None \<Rightarrow> sn_deployments s) else sn_deployments s)"
  "sn_deploymentsOK (list_deployments c ans s) = (sn_deploymentsOK s \<or> Workloads c \<and> li_deployments ans \<noteq> None)"
  "sn_statefulSets (list_deployments c ans s) = sn_statefulSets s"
  "sn_statefulSetsOK (list_deployments c ans s) = sn_statefulSetsOK s"
  "sn_daemonSets (list_deployments c ans s) = sn_daemonSets s"
  "sn_daemonSetsOK (list_deployments c ans s) = sn_daemonSetsOK s"
  "sn_services (list_deployments c ans s) = sn_services s"
  "sn_servicesOK (list_deployments c ans s) = sn_servicesOK s"
  "sn_pvcs (list_deployments c ans s) = sn_pvcs s"
  "sn_pvcsOK (list_deployments c ans s) = sn_pvcsOK s"
  "sn_hpas (list_deployments c ans s) = sn_hpas s"
  "sn_hpasOK (list_deployments c ans s) = sn_hpasOK s"
  by (simp_all add: list_deployments_def split: option.split)

lemma list_statefulSets_sel [simp]:
  "sn_now (list_statefulSets c ans s) = sn_now s"
  "sn_priorObservations (list_statefulSets c ans s) = sn_priorObservations s"
  "sn_pods (list_statefulSets c ans s) = sn_pods s"
  "sn_podsOK (list_statefulSets c ans s) = sn_podsOK s"
  "sn_events (list_statefulSets c ans s) = sn_events s"
  "sn_eventsOK (list_statefulSets c ans s) = sn_eventsOK s"
  "sn_deployments (list_statefulSets c ans s) = sn_deployments s"
  "sn_deploymentsOK (list_statefulSets c ans s) = sn_deploymentsOK s"
  "sn_statefulSets (list_statefulSets c ans s) = (if Workloads c then (case li_statefulSets ans of Some items \<Rightarrow> items | None \<Rightarrow> sn_statefulSets s) else sn_statefulSets s)"
  "sn_statefulSetsOK (list_statefulSets c ans s) = (sn_statefulSetsOK s \<or> Workloads c \<and> li_statefulSets ans \<noteq> None)"
  "sn_daemonSets (list_statefulSets c ans s) = sn_daemonSets s"
  "sn_daemonSetsOK (list_statefulSets c ans s) = sn_daemonSetsOK s"
  "sn_services (list_statefulSets c ans s) = sn_services s"
  "sn_servicesOK (list_statefulSets c ans s) = sn_servicesOK s"
  "sn_pvcs (list_statefulSets c ans s) = sn_pvcs s"
  "sn_pvcsOK (list_statefulSets c ans s) = sn_pvcsOK s"
  "sn_hpas (list_statefulSets c ans s) = sn_hpas s"
  "sn_hpasOK (list_statefulSets c ans s) = sn_hpasOK s"
  by (simp_all add: list_statefulSets_def split: option.split)

lemma list_daemonSets_sel [simp]:
  "sn_now (list_daemonSets c ans s) = sn_now s"
  "sn_priorObservations (list_daemonSets c ans s) = sn_priorObservations s"
  "sn_pods (list_daemonSets c ans s) = sn_pods s"
  "sn_podsOK (list_daemonSets c ans s) = sn_podsOK s"
  "sn_events (list_daemonSets c ans s) = sn_events s"
  "sn_eventsOK (list_daemonSets c ans s) = sn_eventsOK s"
  "sn_deployments (list_daemonSets c ans s) = sn_deployments s"
  "sn_deploymentsOK (list_daemonSets c ans s) = sn_deploymentsOK s"
  "sn_statefulSets (list_daemonSets c ans s) = sn_statefulSets s"
  "sn_statefulSetsOK (list_daemonSets c ans s) = sn_statefulSetsOK s"
  "sn_daemonSets (list_daemonSets c ans s) = (if Workloads c then (case li_daemonSets ans of Some items \<Rightarrow> items | None \<Rightarrow> sn_daemonSets s) else sn_daemonSets s)"
  "sn_daemonSetsOK (list_daemonSets c ans s) = (sn_daemonSetsOK s \<or> Workloads c \<and> li_daemonSets ans \<noteq> None)"
  "sn_services (list_daemonSets c ans s) = sn_services s"
  "sn_servicesOK (list_daemonSets c ans s) = sn_servicesOK s"
  "sn_pvcs (list_daemonSets c ans s) = sn_pvcs s"
  "sn_pvcsOK (list_daemonSets c ans s) = sn_pvcsOK s"
  "sn_hpas (list_daemonSets c ans s) = sn_hpas s"
  "sn_hpasOK (list_daemonSets c ans s) = sn_hpasOK s"
  by (simp_all add: list_daemonSets_def split: option.split)

lemma list_services_sel [simp]:
  "sn_now (list_services c ans s) = sn_now s"
  "sn_priorObservations (list_services c ans s) = sn_priorObservations s"
  "sn_pods (list_services c ans s) = sn_pods s"
  "sn_podsOK (list_services c ans s) = sn_podsOK s"
  "sn_events (list_services c ans s) = sn_events s"
  "sn_eventsOK (list_services c ans s) = sn_eventsOK s"
  "sn_deployments (list_services c ans s) = sn_deployments s"
  "sn_deploymentsOK (list_services c ans s) = sn_deploymentsOK s"
  "sn_statefulSets (list_services c ans s) = sn_statefulSets s"
  "sn_statefulSetsOK (list_services c ans s) = sn_statefulSetsOK s"
  "sn_daemonSets (list_services c ans s) = sn_daemonSets s"
  "sn_daemonSetsOK (list_services c ans s) = sn_daemonSetsOK s"
  "sn_services (list_services c ans s) = (if Services c then (case li_services ans of Some items \<Rightarrow> items | None \<Rightarrow> sn_services s) else sn_services s)"
  "sn_servicesOK (list_services c ans s) = (sn_servicesOK s \<or> Services c \<and> li_services ans \<noteq> None)"
  "sn_pvcs (list_services c ans s) = sn_pvcs s"
  "sn_pvcsOK (list_services c ans s) = sn_pvcsOK s"
  "sn_hpas (list_services c ans s) = sn_hpas s"
  "sn_hpasOK (list_services c ans s) = sn_hpasOK s"
  by (simp_all add: list_services_def split: option.split)

lemma list_pvcs_sel [simp]:
  "sn_now (list_pvcs c ans s) = sn_now s"
  "sn_priorObservations (list_pvcs c ans s) = sn_priorObservations s"
  "sn_pods (list_pvcs c ans s) = sn_pods s"
  "sn_podsOK (list_pvcs c ans s) = sn_podsOK s"
  "sn_events (list_pvcs c ans s) = sn_events s"
  "sn_eventsOK (list_pvcs c ans s) = sn_eventsOK s"
  "sn_deployments (list_pvcs c ans s) = sn_deployments s"
  "sn_deploymentsOK (list_pvcs c ans s) = sn_deploymentsOK s"
  "sn_statefulSets (list_pvcs c ans s) = sn_statefulSets s"
  "sn_statefulSetsOK (list_pvcs c ans s) = sn_statefulSetsOK s"
  "sn_daemonSets (list_pvcs c ans s) = sn_daemonSets s"
  "sn_daemonSetsOK (list_pvcs c ans s) = sn_daemonSetsOK s"
  "sn_services (list_pvcs c ans s) = sn_services s"
  "sn_servicesOK (list_pvcs c ans s) = sn_servicesOK s"
  "sn_pvcs (list_pvcs c ans s) = (if PVCs c then (case li_pvcs ans of Some items \<Rightarrow> items | None \<Rightarrow> sn_pvcs s) else sn_pvcs s)"
  "sn_pvcsOK (list_pvcs c ans s) = (sn_pvcsOK s \<or> PVCs c \<and> li_pvcs ans \<noteq> None)"
  "sn_hpas (list_pvcs c ans s) = sn_hpas s"
  "sn_hpasOK (list_pvcs c ans s) = sn_hpasOK s"
  by (simp_all add: list_pvcs_def split: option.split)

lemma list_hpas_sel [simp]:
  "sn_now (list_hpas c ans s) = sn_now s"
  "sn_priorObservations (list_hpas c ans s) = sn_priorObservations s"
  "sn_pods (list_hpas c ans s) = sn_pods s"
  "sn_podsOK (list_hpas c ans s) = sn_podsOK s"
  "sn_events (list_hpas c ans s) = sn_events s"
  "sn_eventsOK (list_hpas c ans s) = sn_eventsOK s"
  "sn_deployments (list_hpas c ans s) = sn_deployments s"
  "sn_deploymentsOK (list_hpas c ans s) = sn_deploymentsOK s"
  "sn_statefulSets (list_hpas c ans s) = sn_statefulSets s"
  "sn_statefulSetsOK (list_hpas c ans s) = sn_statefulSetsOK s"
  "sn_daemonSets (list_hpas c ans s) = sn_daemonSets s"
  "sn_daemonSetsOK (list_hpas c ans s) = sn_daemonSetsOK s"
  "sn_services (list_hpas c ans s) = sn_services s"
  "sn_servicesOK (list_hpas c ans s) = sn_servicesOK s"
  "sn_pvcs (list_hpas c ans s) = sn_pvcs s"
  "sn_pvcsOK (list_hpas c ans s) = sn_pvcsOK s"
  "sn_hpas (list_hpas c ans s) = (if Scaling c then (case li_hpas ans of Some items \<Rightarrow> items | None \<Rightarrow> sn_hpas s) else sn_hpas s)"
  "sn_hpasOK (list_hpas c ans s) = (sn_hpasOK s \<or> Scaling c \<and> li_hpas ans \<noteq> None)"
  by (simp_all add: list_hpas_def split: option.split)

lemma listSnapshot_now [simp]:
  "sn_now (listSnapshot c ans s) = sn_now s"
  "sn_priorObservations (listSnapshot c ans s) = sn_priorObservations s"
  by (simp_all add: listSnapshot_def)

lemma buildSnapshot_now [simp]:
  "sn_now (buildSnapshot cfg state now ans finished) = now"
  "sn_priorObservations (buildSnapshot cfg state now ans finished) =
     prior_observations (ms_Observations state)"
  by (simp_all add: buildSnapshot_def empty_snapshot_def Let_def)

lemma listSnapshot_flags:
  "sn_podsOK (listSnapshot c ans (empty_snapshot now prior)) = (needs_pods c \<and> li_pods ans \<noteq> None)"
  "sn_eventsOK (listSnapshot c ans (empty_snapshot now prior)) = (Events c \<and> li_events ans \<noteq> None)"
  "sn_deploymentsOK (listSnapshot c ans (empty_snapshot now prior)) =
     (Workloads c \<and> li_deployments ans \<noteq> None)"
  "sn_statefulSetsOK (listSnapshot c ans (empty_snapshot now prior)) =
     (Workloads c \<and> li_statefulSets ans \<noteq> None)"
  "sn_daemonSetsOK (listSnapshot c ans (empty_snapshot now prior)) =
     (Workloads c \<and> li_daemonSets ans \<noteq> None)"
  "sn_servicesOK (listSnapshot c ans (empty_snapshot now prior)) = (Services c \<and> li_services ans \<noteq> None)"
  "sn_pvcsOK (listSnapshot c ans (empty_snapshot now prior)) = (PVCs c \<and> li_pvcs ans \<noteq> None)"
  "sn_hpasOK (listSnapshot c ans (empty_snapshot now prior)) = (Scaling c \<and> li_hpas ans \<noteq> None)"
  by (simp_all add: listSnapshot_def empty_snapshot_def)

lemma prior_observations_Cons [simp]:
  "prior_observations ((k, ob) # m) =
     (case ob of None \<Rightarrow> prior_observations m | Some o' \<Rightarrow> (k, o') # prior_observations m)"
  by (cases ob) (simp_all add: prior_observations_def)

lemma prior_observations_Nil [simp]: "prior_observations [] = []"
  by (simp add: prior_observations_def)

lemma prior_entry: "(k, o') \<in> set (prior_observations m) \<longleftrightarrow> (k, Some o') \<in> set m"
  by (induction m) (auto split: option.splits)

lemma keys_prior: "k \<notin> fst ` set m \<Longrightarrow> k \<notin> fst ` set (prior_observations m)"
  by (force simp: prior_entry)

lemma prior_wf: "gm_wf m \<Longrightarrow> gm_wf (prior_observations m)"
proof (induction m)
  case (Cons kv m)
  then show ?case
    using keys_prior[of "fst kv" m] by (cases kv) (simp add: gm_wf_def split: option.split)
qed simp

lemma get_prior:
  "gm_wf m \<Longrightarrow> gm_get (prior_observations m) key = (case gm_get m key of None \<Rightarrow> None | Some ob \<Rightarrow> ob)"
proof (induction m)
  case (Cons kv m)
  obtain k ob where kv: "kv = (k, ob)" by (cases kv)
  with Cons.prems have wf: "gm_wf m" and "k \<notin> fst ` set m" by (simp_all add: gm_wf_def)
  then have "gm_get (prior_observations m) k = None"
    using keys_prior[of k m] by (simp add: gm_get_def map_of_eq_None_iff)
  with Cons.IH[OF wf] show ?case by (simp add: kv split: option.split)
qed simp

end
