(* ===== verification/Log_Scan.thy ===== *)
theory Log_Scan
  imports Findings Config
begin

text \<open>
  The log scanner of \<open>checks.go\<close>: the pattern table \<open>logPatterns\<close> with a matcher for the
  regular expressions it uses, the line splitting of \<open>bufio.Scanner\<close> with its token limit,
  and \<open>scanContainerLogs\<close>.
\<close>

section \<open>Regular expressions\<close>

text \<open>
  The constructs the patterns use: a set of bytes, \<open>.*\<close>, sequence, alternative and the ASCII
  word boundary. A position is the byte before it, if any, and the bytes after it; \<open>rx_run\<close>
  lists the positions where a match from a position can end.
\<close>

datatype rx = RSet "char list" | RDots | RSeq rx rx | RAlt rx rx | RBoundary

type_synonym pos = "char option \<times> string"

definition is_word_char :: "char \<Rightarrow> bool" where
  "is_word_char c \<longleftrightarrow>
     (let n = (of_char c :: nat) in
      48 \<le> n \<and> n \<le> 57 \<or> 65 \<le> n \<and> n \<le> 90 \<or> n = 95 \<or> 97 \<le> n \<and> n \<le> 122)"

definition word_before :: "char option \<Rightarrow> bool" where
  "word_before p = (case p of None \<Rightarrow> False | Some c \<Rightarrow> is_word_char c)"

definition word_after :: "string \<Rightarrow> bool" where
  "word_after s = (case s of [] \<Rightarrow> False | c # _ \<Rightarrow> is_word_char c)"

fun dots :: "char option \<Rightarrow> string \<Rightarrow> pos list" where
  "dots p [] = [(p, [])]"
| "dots p (c # s) = (p, c # s) # (if c = CHR 0x0A then [] else dots (Some c) s)"

fun rx_run :: "rx \<Rightarrow> pos \<Rightarrow> pos list" where
  "rx_run (RSet cs) (p, []) = []"
| "rx_run (RSet cs) (p, c # s) = (if c \<in> set cs then [(Some c, s)] else [])"
| "rx_run RDots (p, s) = dots p s"
| "rx_run (RSeq a b) q = concat (map (rx_run b) (rx_run a q))"
| "rx_run (RAlt a b) q = rx_run a q @ rx_run b q"
| "rx_run RBoundary (p, s) = (if word_before p \<noteq> word_after s then [(p, s)] else [])"

text \<open>\<open>MatchString\<close> looks for a match at every position of the line.\<close>

fun search :: "rx \<Rightarrow> char option \<Rightarrow> string \<Rightarrow> bool" where
  "search r p [] \<longleftrightarrow> rx_run r (p, []) \<noteq> []"
| "search r p (c # s) \<longleftrightarrow> rx_run r (p, c # s) \<noteq> [] \<or> search r (Some c) s"

definition match_string :: "rx \<Rightarrow> string \<Rightarrow> bool" where
  "match_string r s = search r None s"

text \<open>
  A literal under \<open>(?i)\<close>. Go folds Unicode, so \<open>k\<close> also matches the Kelvin sign and \<open>s\<close> the
  long s, each given by its UTF-8 bytes.
\<close>

definition upper_char :: "char \<Rightarrow> char" where
  "upper_char c =
     (if 97 \<le> (of_char c :: nat) \<and> (of_char c :: nat) \<le> 122 then char_of ((of_char c :: nat) - 32) else c)"

fun rbytes :: "nat list \<Rightarrow> rx" where
  "rbytes [] = RSet []"
| "rbytes [n] = RSet [char_of n]"
| "rbytes (n # ns) = RSeq (RSet [char_of n]) (rbytes ns)"

definition ci :: "char \<Rightarrow> rx" where
  "ci c =
     (let base = RSet [c, upper_char c] in
      if c = CHR ''k'' then RAlt base (rbytes [226, 132, 170])
      else if c = CHR ''s'' then RAlt base (rbytes [197, 191])
      else base)"

fun lit :: "string \<Rightarrow> rx" where
  "lit [] = RDots"  \<comment> \<open>not used: literals are not empty\<close>
| "lit [c] = ci c"
| "lit (c # s) = RSeq (ci c) (lit s)"

section \<open>The pattern table\<close>

record log_pattern =
  lp_re :: rx
  lp_reason :: string
  lp_score :: int
  lp_minCount :: int

definition logPatterns :: "log_pattern list" where
  "logPatterns =
     [\<lparr>lp_re = RSeq RBoundary (RSeq (lit ''panic'') RBoundary),
       lp_reason = ''log-panic'', lp_score = 85, lp_minCount = 1\<rparr>,
      \<lparr>lp_re = RSeq RBoundary (RSeq (lit ''fatal'') RBoundary),
       lp_reason = ''log-fatal'', lp_score = 80, lp_minCount = 1\<rparr>,
      \<lparr>lp_re = RAlt (lit ''oomkilled'') (lit ''out of memory''),
       lp_reason = ''log-oom-risk'', lp_score = 75, lp_minCount = 1\<rparr>,
      \<lparr>lp_re = RAlt (lit ''x509:'') (RSeq (lit ''tls:'') (RSeq RDots (lit ''handshake''))),
       lp_reason = ''log-tls-error'', lp_score = 65, lp_minCount = 1\<rparr>,
      \<lparr>lp_re = RSeq (lit ''certificate'') (RSeq RDots (RAlt (lit ''expired'') (lit ''not yet valid''))),
       lp_reason = ''log-cert-expired'', lp_score = 70, lp_minCount = 1\<rparr>,
      \<lparr>lp_re = lit ''connection refused'',
       lp_reason = ''log-connection-refused'', lp_score = 60, lp_minCount = 3\<rparr>,
      \<lparr>lp_re = RAlt (lit ''context deadline exceeded'') (lit ''i/o timeout''),
       lp_reason = ''log-timeout'', lp_score = 55, lp_minCount = 3\<rparr>,
      \<lparr>lp_re = RSeq RBoundary (RSeq (lit ''error'') RBoundary),
       lp_reason = ''log-error'', lp_score = 45, lp_minCount = 10\<rparr>]"

section \<open>Lines\<close>

text \<open>
  \<open>bufio.ScanLines\<close> ends a token at each newline and returns a last token without one if it
  is not empty; a carriage return at the end of a token is dropped. The default buffer
  holds 65536 bytes: a token of that length or more stops the scanner for good.
\<close>

fun raw_lines :: "string \<Rightarrow> string list" where
  "raw_lines [] = []"
| "raw_lines (c # s) =
     (if c = CHR 0x0A then [] # raw_lines s
      else (case raw_lines s of
          [] \<Rightarrow> [[c]]
        | l # ls \<Rightarrow> (c # l) # ls))"

definition drop_cr :: "string \<Rightarrow> string" where
  "drop_cr l = (if l \<noteq> [] \<and> last l = CHR 0x0D then butlast l else l)"

definition scanner_lines :: "string \<Rightarrow> string list" where
  "scanner_lines s = map drop_cr (takeWhile (\<lambda>l. length l < 65536) (raw_lines s))"

section \<open>Scanning a container\<close>

type_synonym log_match = "int \<times> string list"

definition trim_line :: "string \<Rightarrow> string" where
  "trim_line line =
     (if length line > 200
      then take 200 line @ [CHR 0xE2, CHR 0x80, CHR 0xA6]
      else line)"

definition count_line :: "string \<Rightarrow> log_pattern \<Rightarrow> log_match \<Rightarrow> log_match" where
  "count_line line p m =
     (if match_string (lp_re p) line then
        (case m of (n, ls) \<Rightarrow>
          (n + 1, if length ls < 3 then ls @ [trim_line line] else ls))
      else m)"

definition scan_line :: "string \<Rightarrow> log_match list \<Rightarrow> log_match list" where
  "scan_line line counts = map2 (count_line line) logPatterns counts"

definition scan_counts :: "string list \<Rightarrow> log_match list" where
  "scan_counts lines = fold scan_line lines (replicate (length logPatterns) (0, []))"

definition log_finding ::
  "Config \<Rightarrow> string \<Rightarrow> string \<Rightarrow> log_pattern \<Rightarrow> log_match \<Rightarrow> Finding list" where
  "log_finding cfg podName containerName p m =
     (case m of (n, ls) \<Rightarrow>
       if n < lp_minCount p then []
       else [NewFinding (Namespace cfg) ''Pod'' (podName @ ''/'' @ containerName) ''log-pattern''
              (lp_reason p) (lp_score p)
              ((''found '' @ show_int n @ '' matching lines (pattern: '' @ lp_reason p @ '') in last ''
                @ show_int (LogScanLines cfg) @ '' log lines'') # ls)])"

text \<open>\<open>None\<close> as the stream is an error opening it: the container is skipped silently.\<close>

definition scanContainerLogs :: "Config \<Rightarrow> string option \<Rightarrow> string \<Rightarrow> string \<Rightarrow> Finding list" where
  "scanContainerLogs cfg stream podName containerName =
     (case stream of
        None \<Rightarrow> []
      | Some s \<Rightarrow>
          concat (map2 (log_finding cfg podName containerName) logPatterns
                    (scan_counts (scanner_lines s))))"

section \<open>Lemmas\<close>

text \<open>The counting loop, one pattern at a time: how many lines match and the first three of them.\<close>

definition pattern_match :: "log_pattern \<Rightarrow> string list \<Rightarrow> log_match" where
  "pattern_match p lines =
     (let ms = filter (match_string (lp_re p)) lines
      in (int (length ms), map trim_line (take 3 ms)))"

lemma count_line_step:
  "count_line line p (pattern_match p lines) = pattern_match p (lines @ [line])"
  by (auto simp: count_line_def pattern_match_def Let_def take_Cons')

lemma map2_map_same: "map2 f xs (map g xs) = map (\<lambda>x. f x (g x)) xs"
  by (induction xs) auto

lemma scan_line_step:
  "scan_line line (map (\<lambda>p. pattern_match p lines) logPatterns) =
   map (\<lambda>p. pattern_match p (lines @ [line])) logPatterns"
  by (simp add: scan_line_def map2_map_same count_line_step)

lemma scan_counts_eq: "scan_counts lines = map (\<lambda>p. pattern_match p lines) logPatterns"
proof -
  have base: "replicate (length logPatterns) (0, []) = map (\<lambda>p. pattern_match p []) logPatterns"
    by (simp add: pattern_match_def map_replicate_const)
  have "fold scan_line lines (map (\<lambda>p. pattern_match p done_lines) logPatterns) =
      map (\<lambda>p. pattern_match p (done_lines @ lines)) logPatterns" for done_lines
    by (induction lines arbitrary: done_lines) (simp_all add: scan_line_step)
  from this[of "[]"] show ?thesis by (simp add: scan_counts_def base)
qed

lemma logPatterns_scores: "p \<in> set logPatterns \<Longrightarrow> 0 < lp_score p \<and> lp_score p \<le> 100 \<and> 1 \<le> lp_minCount p"
  by (auto simp: logPatterns_def)

lemma log_finding_ok: "p \<in> set logPatterns \<Longrightarrow> f \<in> set (log_finding cfg pod c p m) \<Longrightarrow> finding_ok (Namespace cfg) f"
  by (auto simp: log_finding_def dest: logPatterns_scores split: prod.splits if_splits)

lemma scanContainerLogs_alt:
  "scanContainerLogs cfg (Some s) pod c =
   concat (map (\<lambda>p. log_finding cfg pod c p (pattern_match p (scanner_lines s))) logPatterns)"
  by (simp add: scanContainerLogs_def scan_counts_eq map2_map_same)

lemma scanContainerLogs_ok:
  "f \<in> set (scanContainerLogs cfg stream pod c) \<Longrightarrow> finding_ok (Namespace cfg) f"
  by (cases stream) (auto simp: scanContainerLogs_alt intro: log_finding_ok, simp add: scanContainerLogs_def)

text \<open>What a search finds: some split of the line with a match starting at it.\<close>

lemma search_iff:
  "search r p s \<longleftrightarrow>
     (\<exists>pre suf. s = pre @ suf \<and> rx_run r (if pre = [] then p else Some (last pre), suf) \<noteq> [])"
proof (induction s arbitrary: p)
  case Nil
  then show ?case by simp
next
  case (Cons c s)
  have "(\<exists>pre suf. c # s = pre @ suf \<and> rx_run r (if pre = [] then p else Some (last pre), suf) \<noteq> [])
      \<longleftrightarrow> rx_run r (p, c # s) \<noteq> [] \<or>
          (\<exists>pre suf. s = pre @ suf \<and> rx_run r (Some (last (c # pre)), suf) \<noteq> [])"
    (is "?l \<longleftrightarrow> ?r1 \<or> ?r2")
  proof
    assume ?l
    then obtain pre suf where p: "c # s = pre @ suf"
      "rx_run r (if pre = [] then p else Some (last pre), suf) \<noteq> []" by blast
    show "?r1 \<or> ?r2"
    proof (cases pre)
      case Nil
      with p show ?thesis by simp
    next
      case (Cons d pre')
      with p have "s = pre' @ suf" "rx_run r (Some (last (c # pre')), suf) \<noteq> []" by auto
      then show ?thesis by blast
    qed
  next
    assume "?r1 \<or> ?r2"
    then show ?l
    proof
      assume ?r1
      then show ?l by (intro exI[of _ "[]"] exI[of _ "c # s"]) simp
    next
      assume ?r2
      then obtain pre suf where "s = pre @ suf" "rx_run r (Some (last (c # pre)), suf) \<noteq> []" by blast
      then show ?l by (intro exI[of _ "c # pre"] exI[of _ suf]) simp
    qed
  qed
  then show ?case by (auto simp: Cons.IH)
qed

text \<open>A literal of lower-case letters other than \<open>k\<close> and \<open>s\<close>.\<close>

definition plain_letter :: "char \<Rightarrow> bool" where
  "plain_letter c \<longleftrightarrow> 97 \<le> (of_char c :: nat) \<and> (of_char c :: nat) \<le> 122 \<and> c \<noteq> CHR ''k'' \<and> c \<noteq> CHR ''s''"

lemma fold_case:
  assumes "97 \<le> (of_char c :: nat)" "(of_char c :: nat) \<le> 122"
  shows "d = c \<or> d = upper_char c \<longleftrightarrow> lower_char d = c"
proof -
  have inj: "a = b \<longleftrightarrow> (of_char a :: nat) = of_char b" for a b :: char by simp
  show ?thesis
    using assms unfolding inj[of d] inj[of "lower_char d"]
    by (auto simp: upper_char_def lower_char_def is_upper_def simp del: of_char_eq_iff)
qed

lemma run_ci:
  "plain_letter c \<Longrightarrow> rx_run (ci c) (p, s) =
     (case s of [] \<Rightarrow> [] | d # t \<Rightarrow> if lower_char d = c then [(Some d, t)] else [])"
  using fold_case[of c] by (auto simp: plain_letter_def ci_def Let_def split: list.split)

lemma run_lit:
  "w \<noteq> [] \<Longrightarrow> list_all plain_letter w \<Longrightarrow>
   rx_run (lit w) (p, s) =
     (if to_lower (take (length w) s) = w
      then [(Some (last (take (length w) s)), drop (length w) s)] else [])"
proof (induction w arbitrary: p s rule: lit.induct)
  case 1
  then show ?case by simp
next
  case (2 c)
  then show ?case by (cases s) (auto simp: run_ci to_lower_def)
next
  case (3 c d w)
  show ?case
  proof (cases s)
    case Nil
    then show ?thesis using "3.prems" by (simp add: run_ci to_lower_def)
  next
    case (Cons e t)
    have IH: "rx_run (lit (d # w)) (Some e, t) =
        (if to_lower (take (length (d # w)) t) = d # w
         then [(Some (last (take (length (d # w)) t)), drop (length (d # w)) t)] else [])"
      using "3.prems" by (intro "3.IH") simp_all
    have c: "plain_letter c" using "3.prems" by simp
    have "rx_run (lit (c # d # w)) (p, s) =
        (if lower_char e = c then rx_run (lit (d # w)) (Some e, t) else [])"
      by (simp add: Cons run_ci[OF c])
    moreover have "take (length (d # w)) t \<noteq> []" if "to_lower (take (length (d # w)) t) = d # w"
      using that by (metis list.distinct(1) to_lower_Nil)
    ultimately show ?thesis
      unfolding IH by (cases "lower_char e = c") (auto simp: Cons to_lower_def)
  qed
qed

text \<open>A word pattern matches exactly the lines that contain the word between boundaries.\<close>

definition word_rx :: "string \<Rightarrow> rx" where
  "word_rx w = RSeq RBoundary (RSeq (lit w) RBoundary)"

definition last_before :: "string \<Rightarrow> char option" where
  "last_before pre = (if pre = [] then None else Some (last pre))"

lemma is_word_char_lower: "is_word_char (lower_char c) = is_word_char c"
  by (auto simp: is_word_char_def lower_char_def is_upper_def Let_def)

lemma match_word_iff:
  assumes "w \<noteq> []" and "list_all plain_letter w"
  shows "match_string (word_rx w) line \<longleftrightarrow>
    (\<exists>pre mid post. line = pre @ mid @ post \<and> to_lower mid = w \<and>
       \<not> word_before (last_before pre) \<and> \<not> word_after post)"
proof -
  have letters: "is_word_char c" if "plain_letter c" for c
    using that by (auto simp: plain_letter_def is_word_char_def Let_def)
  have hd_last: "word_after (mid @ post) \<and> word_before (Some (last mid))" if "to_lower mid = w" for mid post
  proof -
    have "mid \<noteq> []" using that assms(1) by auto
    then have "lower_char (hd mid) \<in> set w" "lower_char (last mid) \<in> set w"
      using that by (auto simp: to_lower_def)
    then have "is_word_char (hd mid)" "is_word_char (last mid)"
      using assms(2) letters by (metis is_word_char_lower list_all_iff)+
    with \<open>mid \<noteq> []\<close> show ?thesis by (cases mid) (auto simp: word_after_def word_before_def)
  qed
  have run: "rx_run (word_rx w) (p, suf) \<noteq> [] \<longleftrightarrow>
      (\<exists>mid post. suf = mid @ post \<and> to_lower mid = w \<and> \<not> word_before p \<and> \<not> word_after post)" for p suf
  proof
    assume "rx_run (word_rx w) (p, suf) \<noteq> []"
    then have l: "to_lower (take (length w) suf) = w" and b: "word_before p \<noteq> word_after suf"
      and e: "word_before (Some (last (take (length w) suf))) \<noteq> word_after (drop (length w) suf)"
      by (auto simp: word_rx_def run_lit[OF assms] split: if_splits)
    with hd_last[OF l, of "drop (length w) suf"]
    show "\<exists>mid post. suf = mid @ post \<and> to_lower mid = w \<and> \<not> word_before p \<and> \<not> word_after post"
      by (intro exI[of _ "take (length w) suf"] exI[of _ "drop (length w) suf"]) simp
  next
    assume "\<exists>mid post. suf = mid @ post \<and> to_lower mid = w \<and> \<not> word_before p \<and> \<not> word_after post"
    then obtain mid post where m: "suf = mid @ post" "to_lower mid = w" "\<not> word_before p" "\<not> word_after post"
      by blast
    moreover have "length mid = length w" using m(2) by (auto simp: to_lower_def)
    ultimately show "rx_run (word_rx w) (p, suf) \<noteq> []"
      using hd_last[OF m(2), of post] by (simp add: word_rx_def run_lit[OF assms])
  qed
  show ?thesis
    by (auto simp: match_string_def search_iff run last_before_def)
qed

lemma raw_lines_append:
  "CHR 0x0A \<notin> set l \<Longrightarrow> raw_lines (l @ CHR 0x0A # rest) = l # raw_lines rest"
  by (induction l) auto

lemma scan_no_lines: "scanner_lines s = [] \<Longrightarrow> scanContainerLogs cfg (Some s) pod c = []"
  using logPatterns_scores
  by (fastforce simp: scanContainerLogs_alt pattern_match_def log_finding_def)

section \<open>Properties\<close>

text \<open>
  C28. The counting loop computes what it is meant to: for each pattern, in table order, one
  finding if and only if at least \<open>minCount\<close> of the scanned lines match, whose evidence is
  the count followed by the first three matching lines, cut at 200 bytes.
\<close>

theorem scanContainerLogs_report:
  "scanContainerLogs cfg (Some s) podName containerName =
   concat (map (\<lambda>p. let ms = filter (match_string (lp_re p)) (scanner_lines s) in
       if int (length ms) < lp_minCount p then []
       else [NewFinding (Namespace cfg) ''Pod'' (podName @ ''/'' @ containerName) ''log-pattern''
              (lp_reason p) (lp_score p)
              ((''found '' @ show_int (int (length ms)) @ '' matching lines (pattern: '' @ lp_reason p
                @ '') in last '' @ show_int (LogScanLines cfg) @ '' log lines'')
               # map trim_line (take 3 ms))])
     logPatterns)"
  by (simp add: scanContainerLogs_alt pattern_match_def log_finding_def Let_def)

text \<open>
  The panic pattern selects a line exactly if it contains the word \<open>panic\<close>, in any
  mixture of cases, with neither a letter, a digit nor an underscore directly before or
  after it.
\<close>

lemma panic_pattern_meaning:
  "match_string (lp_re (logPatterns ! 0)) line \<longleftrightarrow>
   (\<exists>pre mid post. line = pre @ mid @ post \<and> to_lower mid = ''panic'' \<and>
      \<not> word_before (last_before pre) \<and> \<not> word_after post)"
proof -
  have "list_all plain_letter ''panic''" by (simp add: plain_letter_def)
  from match_word_iff[OF _ this, of line] show ?thesis
    by (simp add: logPatterns_def word_rx_def)
qed

text \<open>
  C39. A log line of 64 KiB or more ends the scan: nothing after it is looked at, so a
  container whose tail begins with such a line yields no finding whatever follows. (The
  scanner's error is not read by the code.)
\<close>

theorem oversized_line_hides_the_rest:
  assumes "65536 \<le> length line" and "CHR 0x0A \<notin> set line"
  shows "scanContainerLogs cfg (Some (line @ CHR 0x0A # rest)) podName containerName = []"
  using assms by (intro scan_no_lines) (simp add: scanner_lines_def raw_lines_append)

theorem oversized_line_hides_the_rest_witness:
  "scanContainerLogs (LoadConfig (\<lambda>_. []))
     (Some (replicate 65536 CHR ''x'' @ CHR 0x0A # ''panic: out of memory'')) ''p'' ''c'' = []
   \<and> match_string (lp_re (logPatterns ! 0)) ''panic: out of memory''"
proof
  show "scanContainerLogs (LoadConfig (\<lambda>_. []))
      (Some (replicate 65536 CHR ''x'' @ CHR 0x0A # ''panic: out of memory'')) ''p'' ''c'' = []"
    by (rule oversized_line_hides_the_rest) simp_all
  show "match_string (lp_re (logPatterns ! 0)) ''panic: out of memory''"
    by (simp add: logPatterns_def match_string_def ci_def Let_def upper_char_def
        word_before_def word_after_def is_word_char_def)
qed

end
