(* ===== verification/Check_Families.thy ===== *)
theory Check_Families
  imports Findings Snapshot Log_Scan
begin

text \<open>
  The check families of \<open>checks.go\<close> that read the snapshot: pods, resource specs, events,
  workloads, services, PVCs, scaling, logs and resource usage. A check is a function of the
  configuration and the snapshot; its result is the \<open>checkResult\<close> of the source together
  with the Prometheus counters it increments, in order.
\<close>

section \<open>Results and counters\<close>

datatype metric = Inc string "string list" | SetGauge string "string list" int | Observe string "string list" int

record checkResult =
  cr_findings :: "Finding list"
  cr_complete :: bool
  cr_observations :: "(string, Observation) go_map"

type_synonym check_outcome = "metric list \<times> checkResult"

definition checks_total :: "string \<Rightarrow> string \<Rightarrow> string \<Rightarrow> metric" where
  "checks_total ns check result = Inc ''checks_total'' [ns, check, result]"

definition incomplete :: checkResult where
  "incomplete = \<lparr>cr_findings = [], cr_complete = False, cr_observations = []\<rparr>"

definition completed :: "Finding list \<Rightarrow> checkResult" where
  "completed fs = \<lparr>cr_findings = fs, cr_complete = True, cr_observations = []\<rparr>"

section \<open>Reasons and scores\<close>

fun normalize_chars :: "bool \<Rightarrow> string \<Rightarrow> string" where
  "normalize_chars first [] = []"
| "normalize_chars first (c # s) =
     (let sep = (if is_upper c \<and> \<not> first then ''-'' else []);
          r = (if is_upper c then lower_char c else c);
          r' = (if r = CHR ''_'' \<or> r = CHR '' '' \<or> r = CHR ''/'' then CHR ''-'' else r)
      in sep @ r' # normalize_chars False s)"

definition normalizeReason :: "string \<Rightarrow> string" where
  "normalizeReason reason0 =
     (let reason = trim_space reason0 in
      if reason = [] then ''unknown'' else to_lower (normalize_chars True reason))"

definition scoreWaitingReason :: "string \<Rightarrow> int" where
  "scoreWaitingReason reason =
     (if reason = ''CrashLoopBackOff'' then 85
      else if reason \<in> {''ImagePullBackOff'', ''ErrImagePull''} then 75
      else if reason \<in> {''CreateContainerConfigError'', ''CreateContainerError''} then 75
      else if reason = ''RunContainerError'' then 75
      else if reason \<in> {''ContainerCreating'', ''PodInitializing''} then 0
      else 50)"

definition scoreEventReason :: "string \<Rightarrow> int" where
  "scoreEventReason reason =
     (if reason \<in> {''FailedScheduling'', ''FailedMount'', ''FailedAttachVolume''} then 75
      else if reason \<in> {''BackOff'', ''CrashLoopBackOff'', ''Unhealthy'', ''OOMKilled'', ''OOMKilling''} then 70
      else if reason \<in> {''Failed'', ''FailedSync'', ''ReconciliationFailed''} then 65
      else 50)"

section \<open>Pods\<close>

fun ready_condition :: "condition list \<Rightarrow> bool" where
  "ready_condition [] = False"
| "ready_condition (c # cs) = (if co_Type c = ''Ready'' then co_Status c = ''True'' else ready_condition cs)"

definition podReady :: "'q pod \<Rightarrow> bool" where
  "podReady pod = ready_condition (pod_Conditions pod)"

definition live :: "'q pod \<Rightarrow> bool" where
  "live pod \<longleftrightarrow> pod_DeletionTimestamp pod = None"

definition total_restarts :: "container_status list \<Rightarrow> int" where
  "total_restarts sts = foldl (\<lambda>t st. wrap32 (t + cs_RestartCount st)) 0 sts"

definition status_findings :: "string \<Rightarrow> string \<Rightarrow> container_status \<Rightarrow> Finding list" where
  "status_findings ns podName st =
     (case cs_Waiting st of
        None \<Rightarrow> []
      | Some w \<Rightarrow>
          let score = scoreWaitingReason (wa_Reason w) in
          if score > 0 then
            [NewFinding ns ''Pod'' podName ''pod-health'' (normalizeReason (wa_Reason w)) score
               ((''container '' @ cs_Name st @ '' is waiting: '' @ wa_Reason w)
                # (if wa_Message w \<noteq> [] then [wa_Message w] else []))]
          else [])
     @ (if cs_LastTerminated st = Some ''OOMKilled'' then
          [NewFinding ns ''Pod'' podName ''pod-health'' ''oom-killed'' 85
             [''container '' @ cs_Name st @ '' last terminated with OOMKilled'']]
        else [])"

definition restart_key :: "string \<Rightarrow> string" where
  "restart_key podName = ''pod/'' @ podName @ ''/restarts''"

definition restart_findings :: "Config \<Rightarrow> 'q snapshot \<Rightarrow> string \<Rightarrow> int \<Rightarrow> Finding list" where
  "restart_findings cfg snap podName totalRestarts =
     (case gm_get (sn_priorObservations snap) (restart_key podName) of
        None \<Rightarrow> []
      | Some obs \<Rightarrow>
          if time_sub (sn_now snap) (ob_LastSeen obs) \<le> RestartWindow cfg then
            (let delta = wrap32 (totalRestarts - ob_RestartCount obs) in
             if delta \<ge> RestartWarningCount cfg then
               [NewFinding (Namespace cfg) ''Pod'' podName ''restart-rate'' ''restarts-increased'' 65
                 [''restart count increased by '' @ show_int delta @ '' within '' @ show_dur (RestartWindow cfg),
                  ''previous restarts='' @ show_int (ob_RestartCount obs)
                  @ '' current restarts='' @ show_int totalRestarts]]
             else [])
          else [])"

definition pod_findings :: "Config \<Rightarrow> 'q snapshot \<Rightarrow> 'q pod \<Rightarrow> Finding list" where
  "pod_findings cfg snap pod =
     (let age = time_sub (sn_now snap) (pod_CreationTimestamp pod) in
      (if pod_Phase pod = ''Pending'' \<and> age > 5 * minute then
         [NewFinding (Namespace cfg) ''Pod'' (pod_Name pod) ''pod-health'' ''pending-too-long'' 55
           [''pod phase is Pending for '' @ show_dur (round_dur age second)]]
       else [])
      @ (if \<not> podReady pod \<and> age > 5 * minute then
           [NewFinding (Namespace cfg) ''Pod'' (pod_Name pod) ''pod-health'' ''not-ready'' 60
             [''pod has not been Ready for '' @ show_dur (round_dur age second)]]
         else [])
      @ concat (map (status_findings (Namespace cfg) (pod_Name pod)) (pod_ContainerStatuses pod))
      @ restart_findings cfg snap (pod_Name pod) (total_restarts (pod_ContainerStatuses pod)))"

definition check_pod ::
  "Config \<Rightarrow> 'q snapshot \<Rightarrow> 'q pod \<Rightarrow> Finding list \<times> (string, Observation) go_map \<Rightarrow>
   Finding list \<times> (string, Observation) go_map" where
  "check_pod cfg snap pod acc =
     (if \<not> live pod then acc
      else (case acc of (fs, obs) \<Rightarrow>
        (fs @ pod_findings cfg snap pod,
         gm_set (restart_key (pod_Name pod))
           \<lparr>ob_RestartCount = total_restarts (pod_ContainerStatuses pod), ob_LastSeen = sn_now snap,
            ob_MemorySamplesPct = [], ob_LastResourceSample = 0\<rparr> obs)))"

definition checkPods :: "Config \<Rightarrow> 'q snapshot \<Rightarrow> check_outcome" where
  "checkPods cfg snap =
     (if \<not> sn_podsOK snap then ([checks_total (Namespace cfg) ''pods'' ''error''], incomplete)
      else (case fold (check_pod cfg snap) (sn_pods snap) ([], []) of (fs, obs) \<Rightarrow>
        ([checks_total (Namespace cfg) ''pods'' ''ok''],
         \<lparr>cr_findings = fs, cr_complete = True, cr_observations = obs\<rparr>)))"

section \<open>Resource specs\<close>

text \<open>\<open>ResourceList.Memory\<close> and \<open>Cpu\<close> on a nil list give a zero quantity.\<close>

definition rl_mem :: "'q deps \<Rightarrow> 'q resource_list option \<Rightarrow> 'q" where
  "rl_mem D rl = (case rl of None \<Rightarrow> q_zero D | Some r \<Rightarrow> rl_memory r)"

definition container_spec_findings :: "'q deps \<Rightarrow> string \<Rightarrow> string \<Rightarrow> 'q container \<Rightarrow> Finding list" where
  "container_spec_findings D ns podName c =
     (let nm = podName @ ''/'' @ c_Name c in
      (if (case c_Requests c of None \<Rightarrow> True | Some r \<Rightarrow> q_isZero D (rl_memory r)) then
         [NewFinding ns ''Pod'' nm ''resource-spec'' ''missing-memory-request'' 45
           [''container '' @ c_Name c @ '' has no memory request'']] else [])
      @ (if (case c_Limits c of None \<Rightarrow> True | Some r \<Rightarrow> q_isZero D (rl_memory r)) then
         [NewFinding ns ''Pod'' nm ''resource-spec'' ''missing-memory-limit'' 45
           [''container '' @ c_Name c @ '' has no memory limit'']] else [])
      @ (if (case c_Requests c of None \<Rightarrow> True | Some r \<Rightarrow> q_isZero D (rl_cpu r)) then
         [NewFinding ns ''Pod'' nm ''resource-spec'' ''missing-cpu-request'' 30
           [''container '' @ c_Name c @ '' has no CPU request'']] else []))"

definition checkPodResourceSpecs :: "'q deps \<Rightarrow> Config \<Rightarrow> 'q pod \<Rightarrow> Finding list" where
  "checkPodResourceSpecs D cfg pod =
     concat (map (container_spec_findings D (Namespace cfg) (pod_Name pod)) (pod_Containers pod))"

definition checkResourceSpecs :: "'q deps \<Rightarrow> Config \<Rightarrow> 'q snapshot \<Rightarrow> check_outcome" where
  "checkResourceSpecs D cfg snap =
     (if \<not> sn_podsOK snap then ([checks_total (Namespace cfg) ''resource-spec'' ''error''], incomplete)
      else ([checks_total (Namespace cfg) ''resource-spec'' ''ok''],
            completed (concat (map (\<lambda>pod. if \<not> live pod then [] else checkPodResourceSpecs D cfg pod)
                         (sn_pods snap)))))"

section \<open>Events\<close>

definition eventLastSeen :: "event \<Rightarrow> time" where
  "eventLastSeen ev =
     (if \<not> is_zero (ev_LastTimestamp ev) then ev_LastTimestamp ev
      else if \<not> is_zero (ev_EventTime ev) then ev_EventTime ev
      else ev_CreationTimestamp ev)"

definition event_findings :: "'q deps \<Rightarrow> Config \<Rightarrow> time \<Rightarrow> event \<Rightarrow> Finding list" where
  "event_findings D cfg now ev =
     (if ev_Type ev \<noteq> ''Warning'' then []
      else let lastSeen = eventLastSeen ev in
        if time_sub now lastSeen > EventLookback cfg then []
        else let kind = (if ev_InvolvedKind ev = [] then ''Object'' else ev_InvolvedKind ev);
                 f = NewFinding (Namespace cfg) kind (ev_InvolvedName ev) ''event''
                       (normalizeReason (ev_Reason ev)) (scoreEventReason (ev_Reason ev))
                       [''Warning event '' @ ev_Reason ev @ '' observed '' @ local_rfc3339 D lastSeen
                        @ '': '' @ ev_Message ev]
             in [f\<lparr>f_MatchingKubernetesEventFound := True\<rparr>])"

definition checkEvents :: "'q deps \<Rightarrow> Config \<Rightarrow> 'q snapshot \<Rightarrow> check_outcome" where
  "checkEvents D cfg snap =
     (if \<not> sn_eventsOK snap then ([checks_total (Namespace cfg) ''events'' ''error''], incomplete)
      else ([checks_total (Namespace cfg) ''events'' ''ok''],
            completed (concat (map (event_findings D cfg (sn_now snap)) (sn_events snap)))))"

section \<open>Workloads\<close>

definition deploymentFindings :: "string \<Rightarrow> deployment \<Rightarrow> Finding list" where
  "deploymentFindings ns d =
     (let desired = (case dep_Replicas d of None \<Rightarrow> 1 | Some n \<Rightarrow> n) in
      (if desired > dep_AvailableReplicas d then
         [NewFinding ns ''Deployment'' (dep_Name d) ''workload'' ''available-replicas-below-desired'' 65
           [''desired replicas='' @ show_int desired @ '' available replicas=''
            @ show_int (dep_AvailableReplicas d)]]
       else [])
      @ (if dep_ObservedGeneration d < dep_Generation d then
         [NewFinding ns ''Deployment'' (dep_Name d) ''workload'' ''generation-lag'' 50
           [''observed generation='' @ show_int (dep_ObservedGeneration d)
            @ '' metadata generation='' @ show_int (dep_Generation d)]]
       else []))"

definition statefulset_findings :: "string \<Rightarrow> stateful_set \<Rightarrow> Finding list" where
  "statefulset_findings ns sts =
     (let desired = (case sts_Replicas sts of None \<Rightarrow> 1 | Some n \<Rightarrow> n) in
      if desired > sts_ReadyReplicas sts then
        [NewFinding ns ''StatefulSet'' (sts_Name sts) ''workload'' ''ready-replicas-below-desired'' 65
          [''desired replicas='' @ show_int desired @ '' ready replicas='' @ show_int (sts_ReadyReplicas sts)]]
      else [])"

definition daemonset_findings :: "string \<Rightarrow> daemon_set \<Rightarrow> Finding list" where
  "daemonset_findings ns ds =
     (if ds_DesiredNumberScheduled ds > ds_NumberReady ds then
        [NewFinding ns ''DaemonSet'' (ds_Name ds) ''workload'' ''ready-pods-below-desired'' 65
          [''desired scheduled='' @ show_int (ds_DesiredNumberScheduled ds)
           @ '' ready='' @ show_int (ds_NumberReady ds)]]
      else [])"

definition checkWorkloads :: "Config \<Rightarrow> 'q snapshot \<Rightarrow> check_outcome" where
  "checkWorkloads cfg snap =
     (let ns = Namespace cfg;
          part = (\<lambda>family ok fs. if \<not> ok then ([checks_total ns family ''error''], [], False)
                                else ([checks_total ns family ''ok''], fs, True))
      in case part ''deployments'' (sn_deploymentsOK snap)
                (concat (map (deploymentFindings ns) (sn_deployments snap))) of (m1, f1, c1) \<Rightarrow>
         (case part ''statefulsets'' (sn_statefulSetsOK snap)
                (concat (map (statefulset_findings ns) (sn_statefulSets snap))) of (m2, f2, c2) \<Rightarrow>
         (case part ''daemonsets'' (sn_daemonSetsOK snap)
                (concat (map (daemonset_findings ns) (sn_daemonSets snap))) of (m3, f3, c3) \<Rightarrow>
            (m1 @ m2 @ m3,
             \<lparr>cr_findings = f1 @ f2 @ f3, cr_complete = (c1 \<and> c2 \<and> c3), cr_observations = []\<rparr>))))"

section \<open>Services, volume claims, autoscalers\<close>

definition countLiveMatchingPods ::
  "'q deps \<Rightarrow> 'q pod list \<Rightarrow> (string \<times> string) list \<Rightarrow> int" where
  "countLiveMatchingPods D pods selector =
     foldl (\<lambda>count pod. if \<not> live pod then count
                        else if sel_matches D selector (pod_Labels pod) then count + 1 else count) 0 pods"

definition service_findings :: "'q deps \<Rightarrow> Config \<Rightarrow> 'q pod list \<Rightarrow> service \<Rightarrow> Finding list" where
  "service_findings D cfg pods svc =
     (if svc_DeletionTimestamp svc \<noteq> None \<or> svc_Type svc = ''ExternalName'' then []
      else
       (if svc_Type svc = ''LoadBalancer'' \<and> svc_Ingress svc = [] then
          [NewFinding (Namespace cfg) ''Service'' (svc_Name svc) ''service'' ''load-balancer-pending'' 55
            [''service type LoadBalancer has no ingress assigned'']]
        else [])
       @ (if svc_Selector svc = [] then []
          else if countLiveMatchingPods D pods (svc_Selector svc) = 0 then
            [NewFinding (Namespace cfg) ''Service'' (svc_Name svc) ''service'' ''selector-matches-no-pods'' 60
              [''service selector '' @ quote (sel_string D (svc_Selector svc)) @ '' matches no live pods'']]
          else []))"

definition checkServices :: "'q deps \<Rightarrow> Config \<Rightarrow> 'q snapshot \<Rightarrow> check_outcome" where
  "checkServices D cfg snap =
     (if \<not> sn_servicesOK snap \<or> \<not> sn_podsOK snap
      then ([checks_total (Namespace cfg) ''services'' ''error''], incomplete)
      else ([checks_total (Namespace cfg) ''services'' ''ok''],
            completed (concat (map (service_findings D cfg (sn_pods snap)) (sn_services snap)))))"

definition pvc_condition_findings :: "string \<Rightarrow> string \<Rightarrow> condition \<Rightarrow> Finding list" where
  "pvc_condition_findings ns nm c =
     (if co_Status c \<noteq> ''True'' then []
      else [NewFinding ns ''PersistentVolumeClaim'' nm ''pvc''
             (''condition-'' @ normalizeReason (co_Type c) @ ''-true'') 55
             ((''condition '' @ co_Type c @ ''=True'') # (if co_Message c \<noteq> [] then [co_Message c] else []))])"

definition pvc_findings :: "Config \<Rightarrow> pvc \<Rightarrow> Finding list" where
  "pvc_findings cfg p =
     (if pvc_DeletionTimestamp p \<noteq> None then []
      else
       (if pvc_Phase p = ''Pending'' then
          [NewFinding (Namespace cfg) ''PersistentVolumeClaim'' (pvc_Name p) ''pvc'' ''pending'' 60
            [''persistent volume claim is Pending'']]
        else if pvc_Phase p = ''Lost'' then
          [NewFinding (Namespace cfg) ''PersistentVolumeClaim'' (pvc_Name p) ''pvc'' ''lost'' 85
            [''persistent volume claim is Lost'']]
        else [])
       @ concat (map (pvc_condition_findings (Namespace cfg) (pvc_Name p)) (pvc_Conditions p)))"

definition checkPVCs :: "Config \<Rightarrow> 'q snapshot \<Rightarrow> check_outcome" where
  "checkPVCs cfg snap =
     (if \<not> sn_pvcsOK snap then ([checks_total (Namespace cfg) ''pvcs'' ''error''], incomplete)
      else ([checks_total (Namespace cfg) ''pvcs'' ''ok''],
            completed (concat (map (pvc_findings cfg) (sn_pvcs snap)))))"

definition hpa_condition_findings :: "string \<Rightarrow> string \<Rightarrow> condition \<Rightarrow> Finding list" where
  "hpa_condition_findings ns nm c =
     (let evidence = (''condition '' @ co_Type c @ ''='' @ co_Status c)
                     # (if co_Reason c \<noteq> [] then [''reason='' @ co_Reason c] else [])
                     @ (if co_Message c \<noteq> [] then [co_Message c] else []);
          mk = (\<lambda>reason score. [NewFinding ns ''HorizontalPodAutoscaler'' nm ''scaling'' reason score evidence])
      in if co_Type c = ''ScalingActive'' \<and> co_Status c = ''False'' then mk ''scaling-active-false'' 70
         else if co_Type c = ''AbleToScale'' \<and> co_Status c = ''False'' then mk ''able-to-scale-false'' 65
         else if co_Type c = ''ScalingLimited'' \<and> co_Status c = ''True'' then mk ''scaling-limited'' 55
         else [])"

definition hpaFindings :: "string \<Rightarrow> hpa \<Rightarrow> Finding list" where
  "hpaFindings ns h =
     concat (map (hpa_condition_findings ns (hpa_Name h)) (hpa_Conditions h))
     @ (if hpa_CurrentReplicas h \<ge> hpa_MaxReplicas h \<and> hpa_DesiredReplicas h \<ge> hpa_MaxReplicas h then
          [NewFinding ns ''HorizontalPodAutoscaler'' (hpa_Name h) ''scaling'' ''max-replicas-reached'' 65
            [''current replicas='' @ show_int (hpa_CurrentReplicas h)
             @ '' desired replicas='' @ show_int (hpa_DesiredReplicas h)
             @ '' max replicas='' @ show_int (hpa_MaxReplicas h)]]
        else [])
     @ (if hpa_DesiredReplicas h > hpa_CurrentReplicas h then
          [NewFinding ns ''HorizontalPodAutoscaler'' (hpa_Name h) ''scaling'' ''desired-replicas-above-current'' 55
            [''desired replicas='' @ show_int (hpa_DesiredReplicas h)
             @ '' current replicas='' @ show_int (hpa_CurrentReplicas h)]]
        else [])"

definition checkScaling :: "Config \<Rightarrow> 'q snapshot \<Rightarrow> check_outcome" where
  "checkScaling cfg snap =
     (if \<not> sn_hpasOK snap then ([checks_total (Namespace cfg) ''scaling'' ''error''], incomplete)
      else ([checks_total (Namespace cfg) ''scaling'' ''ok''],
            completed (concat (map (\<lambda>h. if hpa_DeletionTimestamp h \<noteq> None then []
                                        else hpaFindings (Namespace cfg) h) (sn_hpas snap)))))"

section \<open>Logs\<close>

text \<open>The loop over the container statuses, with its early return.\<close>

fun restarts_or_waiting :: "int \<Rightarrow> container_status list \<Rightarrow> int \<Rightarrow> bool" where
  "restarts_or_waiting totalRestarts [] threshold = (totalRestarts \<ge> threshold)"
| "restarts_or_waiting totalRestarts (st # sts) threshold =
     (let totalRestarts' = wrap32 (totalRestarts + cs_RestartCount st) in
      if (case cs_Waiting st of None \<Rightarrow> False | Some w \<Rightarrow> scoreWaitingReason (wa_Reason w) > 0) then True
      else restarts_or_waiting totalRestarts' sts threshold)"

definition shouldScanLogs :: "'q pod \<Rightarrow> int \<Rightarrow> bool" where
  "shouldScanLogs pod threshold =
     (if \<not> podReady pod then True
      else restarts_or_waiting 0 (pod_ContainerStatuses pod) threshold)"

text \<open>\<open>logs pod container\<close> is what the API streams for the container, \<open>None\<close> for an error.\<close>

type_synonym log_source = "string \<Rightarrow> string \<Rightarrow> string option"

definition checkLogs :: "log_source \<Rightarrow> Config \<Rightarrow> 'q snapshot \<Rightarrow> check_outcome" where
  "checkLogs logs cfg snap =
     (if \<not> sn_podsOK snap then ([checks_total (Namespace cfg) ''logs'' ''error''], incomplete)
      else ([checks_total (Namespace cfg) ''logs'' ''ok''],
            completed (concat (map (\<lambda>pod.
              if \<not> live pod then []
              else if \<not> shouldScanLogs pod (RestartWarningCount cfg) then []
              else concat (map (\<lambda>c. scanContainerLogs cfg (logs (pod_Name pod) (c_Name c))
                                      (pod_Name pod) (c_Name c)) (pod_Containers pod)))
              (sn_pods snap)))))"

section \<open>The contract every family keeps\<close>

text \<open>
  What \<open>Poll\<close> relies on, whatever the family: the check is complete exactly if its inputs
  were available, it reports well-formed findings of the configured namespace only, and its
  observation deltas are a proper map without the empty key, empty after a failure.
\<close>

locale check_family =
  fixes run :: "Config \<Rightarrow> 'q snapshot \<Rightarrow> check_outcome"
    and inputs :: "Config \<Rightarrow> 'q snapshot \<Rightarrow> bool"
  assumes complete_iff: "cr_complete (snd (run cfg snap)) \<longleftrightarrow> inputs cfg snap"
    and reports_ok: "f \<in> set (cr_findings (snd (run cfg snap))) \<Longrightarrow> finding_ok (Namespace cfg) f"
    and deltas_wf: "gm_wf (cr_observations (snd (run cfg snap)))"
    and deltas_key: "gm_get (cr_observations (snd (run cfg snap))) [] = None"
    and no_deltas: "\<not> inputs cfg snap \<Longrightarrow> cr_observations (snd (run cfg snap)) = []"
begin

lemma scores: "f \<in> set (cr_findings (snd (run cfg snap))) \<Longrightarrow> 0 < f_Score f \<and> f_Score f \<le> 100"
  by (drule reports_ok) (simp add: finding_ok_def)

lemma same_identity_same_fields:
  assumes "f \<in> set (cr_findings (snd (run cfg snap)))" and "g \<in> set (cr_findings (snd (run cfg snap')))"
    and "f_Kind f = f_Kind g" "f_Name f = f_Name g" "f_Check f = f_Check g" "f_Reason f = f_Reason g"
  shows "f_ID f = f_ID g"
  using assms reports_ok[of f cfg snap] reports_ok[of g cfg snap'] by (simp add: finding_ok_def)

end

text \<open>What a result is, taken apart: the shape shared by the proofs of the contract.\<close>

definition outcome_ok :: "Config \<Rightarrow> bool \<Rightarrow> check_outcome \<Rightarrow> bool" where
  "outcome_ok cfg ok r \<longleftrightarrow>
     cr_complete (snd r) = ok \<and>
     list_all (finding_ok (Namespace cfg)) (cr_findings (snd r)) \<and>
     gm_wf (cr_observations (snd r)) \<and> gm_get (cr_observations (snd r)) [] = None \<and>
     (ok \<or> cr_observations (snd r) = [])"

lemma check_familyI: "(\<And>cfg snap. outcome_ok cfg (inputs cfg snap) (run cfg snap)) \<Longrightarrow> check_family run inputs"
  by unfold_locales (auto simp: outcome_ok_def list_all_iff)

lemma outcome_ok_incomplete [simp]: "outcome_ok cfg False (ms, incomplete)"
  by (simp add: outcome_ok_def incomplete_def)

lemma outcome_ok_completed [simp]:
  "outcome_ok cfg True (ms, completed fs) \<longleftrightarrow> list_all (finding_ok (Namespace cfg)) fs"
  by (simp add: outcome_ok_def completed_def)

lemma list_all_concat_map [simp]:
  "list_all P (concat (map g xs)) \<longleftrightarrow> (\<forall>x \<in> set xs. list_all P (g x))"
  by (induction xs) auto

subsection \<open>The findings of each family\<close>

lemma scoreEventReason_pos: "0 < scoreEventReason r"
  by (simp add: scoreEventReason_def)

lemma status_findings_ok: "list_all (finding_ok ns) (status_findings ns pod st)"
  by (auto simp: status_findings_def Let_def split: option.split)

lemma restart_findings_ok: "list_all (finding_ok (Namespace cfg)) (restart_findings cfg snap pod n)"
  by (auto simp: restart_findings_def Let_def split: option.split)

lemma pod_findings_ok: "list_all (finding_ok (Namespace cfg)) (pod_findings cfg snap pod)"
  by (auto simp: pod_findings_def Let_def status_findings_ok restart_findings_ok)

lemma spec_findings_ok: "list_all (finding_ok (Namespace cfg)) (checkPodResourceSpecs D cfg pod)"
  by (auto simp: checkPodResourceSpecs_def container_spec_findings_def Let_def)

lemma event_findings_ok: "list_all (finding_ok (Namespace cfg)) (event_findings D cfg now ev)"
proof -
  have "finding_ok ns (f\<lparr>f_MatchingKubernetesEventFound := True\<rparr>) = finding_ok ns f" for ns f
    by (simp add: finding_ok_def)
  then show ?thesis by (simp add: event_findings_def Let_def scoreEventReason_pos)
qed

lemma workload_findings_ok:
  "list_all (finding_ok ns) (deploymentFindings ns d)"
  "list_all (finding_ok ns) (statefulset_findings ns sts)"
  "list_all (finding_ok ns) (daemonset_findings ns ds)"
  by (simp_all add: deploymentFindings_def statefulset_findings_def daemonset_findings_def Let_def)

lemma service_findings_ok: "list_all (finding_ok (Namespace cfg)) (service_findings D cfg pods svc)"
  by (simp add: service_findings_def)

lemma pvc_findings_ok: "list_all (finding_ok (Namespace cfg)) (pvc_findings cfg p)"
  by (simp add: pvc_findings_def pvc_condition_findings_def)

lemma hpa_findings_ok: "list_all (finding_ok ns) (hpaFindings ns h)"
  by (simp add: hpaFindings_def hpa_condition_findings_def Let_def)

lemma log_findings_ok: "list_all (finding_ok (Namespace cfg)) (scanContainerLogs cfg stream pod c)"
  by (auto simp: list_all_iff intro: scanContainerLogs_ok)

text \<open>The pod loop: findings stay well-formed, deltas stay a map keyed by pods.\<close>

lemma restart_key_nonempty [simp]: "restart_key p \<noteq> []" "[] \<noteq> restart_key p"
  by (simp_all add: restart_key_def)

definition scan_ok :: "Config \<Rightarrow> Finding list \<times> (string, Observation) go_map \<Rightarrow> bool" where
  "scan_ok cfg acc \<longleftrightarrow> list_all (finding_ok (Namespace cfg)) (fst acc) \<and> gm_wf (snd acc) \<and> gm_get (snd acc) [] = None"

lemma scan_ok_check_pod: "scan_ok cfg acc \<Longrightarrow> scan_ok cfg (check_pod cfg snap pod acc)"
  by (auto simp: scan_ok_def check_pod_def pod_findings_ok go_map_simps split: prod.split)

lemma scan_ok_fold: "scan_ok cfg acc \<Longrightarrow> scan_ok cfg (fold (check_pod cfg snap) pods acc)"
  by (erule fold_preserves) (rule scan_ok_check_pod)

subsection \<open>The families keep the contract\<close>

interpretation pods_family: check_family checkPods "\<lambda>cfg snap. sn_podsOK snap"
proof (rule check_familyI)
  fix cfg and snap :: "'q snapshot"
  have "scan_ok cfg (fold (check_pod cfg snap) (sn_pods snap) ([], []))"
    by (rule scan_ok_fold) (simp add: scan_ok_def)
  then show "outcome_ok cfg (sn_podsOK snap) (checkPods cfg snap)"
    by (cases "sn_podsOK snap") (auto simp: checkPods_def outcome_ok_def incomplete_def scan_ok_def split: prod.split)
qed

interpretation specs_family: check_family "checkResourceSpecs D" "\<lambda>cfg snap. sn_podsOK snap" for D
  by (rule check_familyI) (simp add: checkResourceSpecs_def spec_findings_ok)

interpretation events_family: check_family "checkEvents D" "\<lambda>cfg snap. sn_eventsOK snap" for D
  by (rule check_familyI) (simp add: checkEvents_def event_findings_ok)

interpretation workloads_family: check_family checkWorkloads
  "\<lambda>cfg snap. sn_deploymentsOK snap \<and> sn_statefulSetsOK snap \<and> sn_daemonSetsOK snap"
  by (rule check_familyI) (simp add: checkWorkloads_def outcome_ok_def Let_def workload_findings_ok)

interpretation services_family: check_family "checkServices D"
  "\<lambda>cfg snap. sn_servicesOK snap \<and> sn_podsOK snap" for D
  by (rule check_familyI) (auto simp: checkServices_def service_findings_ok)

interpretation pvcs_family: check_family checkPVCs "\<lambda>cfg snap. sn_pvcsOK snap"
  by (rule check_familyI) (simp add: checkPVCs_def pvc_findings_ok)

interpretation scaling_family: check_family checkScaling "\<lambda>cfg snap. sn_hpasOK snap"
  by (rule check_familyI) (simp add: checkScaling_def hpa_findings_ok)

interpretation logs_family: check_family "checkLogs logs" "\<lambda>cfg snap. sn_podsOK snap" for logs
  by (rule check_familyI) (simp add: checkLogs_def log_findings_ok)

section \<open>A concrete cluster\<close>

text \<open>Quantities as integers, enough to run the checks on concrete inputs.\<close>

definition int_deps :: "int deps" where
  "int_deps = \<lparr>q_zero = 0, q_isZero = (\<lambda>q. q = 0), q_add = (+), q_value = (\<lambda>q. q),
     sel_matches = (\<lambda>sel labels. list_all (\<lambda>kv. kv \<in> set labels) sel),
     sel_string = (\<lambda>sel. concat (map (\<lambda>kv. fst kv @ ''='' @ snd kv) sel)),
     local_rfc3339 = show_int,
     parse_gv = (\<lambda>s. case split_on CHR ''/'' s of
        [v] \<Rightarrow> Some ([], v) | [g, v] \<Rightarrow> Some (g, v) | _ \<Rightarrow> None)\<rparr>"

end
