(* ===== verification/Resource_Usage.thy ===== *)
theory Resource_Usage
  imports Check_Families
begin

text \<open>
  \<open>checkResourceUsage\<close> of \<open>checks.go\<close> with its helpers: memory limits from the pod specs,
  usage from the metrics API, the five-sample window kept in the observations and the trend
  over it.

  The metrics client is an argument: \<open>None\<close> is a nil client, \<open>Some None\<close> a failed List and
  \<open>Some (Some items)\<close> its answer.
\<close>

section \<open>Definitions\<close>

record 'q pod_metrics =
  pm_Name :: string
  pm_Usage :: "'q resource_list option list"   \<comment> \<open>\<open>Usage\<close> of each container\<close>

type_synonym 'q metrics_answer = "'q pod_metrics list option option"

definition appendMemSample :: "int list \<Rightarrow> int \<Rightarrow> nat \<Rightarrow> int list" where
  "appendMemSample samples val maxLen =
     (let samples' = samples @ [val] in
      if length samples' > maxLen then drop (length samples' - maxLen) samples' else samples')"

definition memoryTrending :: "int list \<Rightarrow> bool \<times> string" where
  "memoryTrending samples =
     (if length samples < 3 then (False, [])
      else let first = samples ! 0; lst = samples ! (length samples - 1) in
        if lst > first \<and> wrap64 (lst - first) \<ge> 10 then
          (True, ''memory rose from '' @ show_int first @ ''% to '' @ show_int lst
                 @ ''% across last '' @ show_nat (length samples) @ '' samples'')
        else (False, []))"

definition fmtMiB :: "int \<Rightarrow> string" where
  "fmtMiB bytes =
     (if bytes < 1048576 then show_int (quot bytes 1024) @ ''Ki''
      else show_int (quot (quot bytes 1024) 1024) @ ''Mi'')"

definition pod_limit :: "'q deps \<Rightarrow> 'q pod \<Rightarrow> 'q" where
  "pod_limit D pod =
     fold (\<lambda>c t. let lim = rl_mem D (c_Limits c) in if \<not> q_isZero D lim then q_add D t lim else t)
       (pod_Containers pod) (q_zero D)"

definition mem_limits :: "'q deps \<Rightarrow> 'q pod list \<Rightarrow> (string, int) go_map" where
  "mem_limits D pods =
     fold (\<lambda>pod m. if \<not> live pod then m
                   else let v = q_value D (pod_limit D pod) in
                     if v > 0 then gm_set (pod_Name pod) v m else m) pods []"

definition used_memory :: "'q deps \<Rightarrow> 'q pod_metrics \<Rightarrow> int" where
  "used_memory D pm = q_value D (fold (\<lambda>u t. q_add D t (rl_mem D u)) (pm_Usage pm) (q_zero D))"

definition memory_key :: "string \<Rightarrow> string" where
  "memory_key podName = ''pod/'' @ podName @ ''/memory''"

text \<open>The observation a sample turns the prior one (if any) into.\<close>

definition sampled :: "time \<Rightarrow> Observation option \<Rightarrow> int \<Rightarrow> Observation" where
  "sampled now prior pct =
     (let obs = (case prior of
           None \<Rightarrow> \<lparr>ob_RestartCount = 0, ob_LastSeen = now, ob_MemorySamplesPct = [], ob_LastResourceSample = 0\<rparr>
         | Some p \<Rightarrow> p)
      in obs\<lparr>ob_MemorySamplesPct := appendMemSample (ob_MemorySamplesPct obs) pct 5,
             ob_LastResourceSample := now\<rparr>)"

text \<open>The switch: score, reason and prediction. No case gives score 0.\<close>

definition usage_level :: "Config \<Rightarrow> int \<Rightarrow> bool \<Rightarrow> int \<times> string \<times> string" where
  "usage_level cfg pct trending =
     (if pct \<ge> MemoryCriticalPercent cfg then
        (80, ''memory-critical'',
         ''pod likely to OOMKill: memory at '' @ show_int pct @ ''% of limit'')
      else if pct \<ge> MemoryWarningPercent cfg \<and> trending then
        (72, ''memory-trending-to-limit'',
         ''memory trending toward limit, currently at '' @ show_int pct @ ''%'')
      else if pct \<ge> MemoryWarningPercent cfg then (62, ''memory-high'', [])
      else if trending \<and> pct \<ge> 50 then
        (45, ''memory-trending'',
         ''memory trending upward, currently at '' @ show_int pct @ ''% of limit'')
      else (0, [], []))"

definition usage_findings ::
  "Config \<Rightarrow> string \<Rightarrow> int \<Rightarrow> int \<Rightarrow> int \<Rightarrow> int list \<Rightarrow> Finding list" where
  "usage_findings cfg podName usedBytes limit pct samples =
     (case memoryTrending samples of (trending, trendNote) \<Rightarrow>
      case usage_level cfg pct trending of (score, reason, prediction) \<Rightarrow>
        if score > 0 then
          [(NewFinding (Namespace cfg) ''Pod'' podName ''resource-usage'' reason score
             ((''memory usage '' @ show_int pct @ ''% of limit ('' @ fmtMiB usedBytes @ '' / ''
               @ fmtMiB limit @ '')'') # (if trendNote \<noteq> [] then [trendNote] else [])))
           \<lparr>f_Prediction := prediction\<rparr>]
        else [])"

type_synonym usage_acc = "metric list \<times> Finding list \<times> (string, Observation) go_map"

definition usage_step ::
  "'q deps \<Rightarrow> Config \<Rightarrow> 'q snapshot \<Rightarrow> (string, int) go_map \<Rightarrow> 'q pod_metrics \<Rightarrow> usage_acc \<Rightarrow> usage_acc" where
  "usage_step D cfg snap memLimit pm acc =
     (case gm_get memLimit (pm_Name pm) of
        None \<Rightarrow> acc
      | Some limit \<Rightarrow>
          if limit = 0 then acc
          else (case acc of (ms, fs, obs) \<Rightarrow>
            let usedBytes = used_memory D pm;
                pct = quot (wrap64 (usedBytes * 100)) limit;
                key = memory_key (pm_Name pm);
                ob = sampled (sn_now snap) (gm_get (sn_priorObservations snap) key) pct
            in (ms @ [Inc ''resource_samples_total'' [Namespace cfg, ResourceUsageBackend cfg]],
                fs @ usage_findings cfg (pm_Name pm) usedBytes limit pct (ob_MemorySamplesPct ob),
                gm_set key ob obs)))"

text \<open>The counter for \<open>ok\<close> is incremented before the pods of the snapshot are looked at.\<close>

definition checkResourceUsage ::
  "'q deps \<Rightarrow> 'q metrics_answer \<Rightarrow> Config \<Rightarrow> 'q snapshot \<Rightarrow> check_outcome" where
  "checkResourceUsage D metrics cfg snap =
     (case metrics of
        None \<Rightarrow> ([], completed [])
      | Some None \<Rightarrow> ([checks_total (Namespace cfg) ''resource-usage'' ''error''], incomplete)
      | Some (Some items) \<Rightarrow>
          if \<not> sn_podsOK snap then
            ([checks_total (Namespace cfg) ''resource-usage'' ''ok'',
              checks_total (Namespace cfg) ''resource-usage'' ''error''], incomplete)
          else
            (case fold (usage_step D cfg snap (mem_limits D (sn_pods snap))) items ([], [], []) of
               (ms, fs, obs) \<Rightarrow>
                 (checks_total (Namespace cfg) ''resource-usage'' ''ok'' # ms,
                  \<lparr>cr_findings = fs, cr_complete = True, cr_observations = obs\<rparr>)))"

section \<open>Lemmas\<close>

lemma length_appendMemSample [simp]: "length (appendMemSample samples val n) = min n (Suc (length samples))"
  by (cases n) (simp_all add: appendMemSample_def Let_def)

lemma last_appendMemSample [simp]: "0 < n \<Longrightarrow> last (appendMemSample samples val n) = val"
  by (simp add: appendMemSample_def Let_def last_drop)

lemma finding_ok_prediction [simp]: "finding_ok ns (f\<lparr>f_Prediction := p\<rparr>) = finding_ok ns f"
  by (simp add: finding_ok_def)

lemma usage_findings_ok: "list_all (finding_ok (Namespace cfg)) (usage_findings cfg pod u l p ss)"
  by (simp add: usage_findings_def usage_level_def split: prod.split)

lemma memory_key_nonempty [simp]: "memory_key p \<noteq> []" "[] \<noteq> memory_key p"
  by (simp_all add: memory_key_def)

lemma memory_key_inject [simp]: "memory_key p = memory_key q \<longleftrightarrow> p = q"
  by (simp add: memory_key_def)

lemma scan_ok_usage_step:
  "scan_ok cfg (snd acc) \<Longrightarrow> scan_ok cfg (snd (usage_step D cfg snap lim pm acc))"
  by (auto simp: scan_ok_def usage_step_def usage_findings_ok go_map_simps Let_def
      split: prod.split option.split)

lemma scan_ok_usage:
  "scan_ok cfg (snd acc) \<Longrightarrow> scan_ok cfg (snd (fold (usage_step D cfg snap lim) items acc))"
  by (erule fold_preserves) (rule scan_ok_usage_step)

lemma scan_ok_usage_loop:
  "fold (usage_step D cfg snap lim) items ([], [], []) = (ms, fs, obs) \<Longrightarrow> scan_ok cfg (fs, obs)"
  using scan_ok_usage[of cfg "([], [], [])" D snap lim items] by (simp add: scan_ok_def)

interpretation usage_family: check_family "checkResourceUsage D metrics"
  "\<lambda>cfg snap. case metrics of None \<Rightarrow> True | Some None \<Rightarrow> False | Some (Some items) \<Rightarrow> sn_podsOK snap"
  for D metrics
proof (rule check_familyI)
  fix cfg snap
  show "outcome_ok cfg
      (case metrics of None \<Rightarrow> True | Some None \<Rightarrow> False | Some (Some items) \<Rightarrow> sn_podsOK snap)
      (checkResourceUsage D metrics cfg snap)"
    by (auto simp: checkResourceUsage_def split: option.split prod.split dest!: scan_ok_usage_loop)
       (simp_all add: outcome_ok_def scan_ok_def)
qed

text \<open>The recorded limits are positive, so the division is defined.\<close>

lemma mem_limits_ok:
  "gm_wf (mem_limits D pods) \<and> (\<forall>nm v. gm_get (mem_limits D pods) nm = Some v \<longrightarrow> 0 < v)"
  unfolding mem_limits_def
  by (rule fold_preserves) (auto simp: go_map_simps Let_def)

text \<open>The observation of a pod after the loop: untouched, or one sample on top of the prior one.\<close>

lemma usage_fold_observation:
  assumes "gm_wf (snd (snd acc))" and "distinct (map pm_Name items)"
    and "fold (usage_step D cfg snap lim) items acc = (ms, fs, obs)"
  shows "gm_wf obs \<and>
    (\<forall>pm \<in> set items. \<forall>limit. gm_get lim (pm_Name pm) = Some limit \<longrightarrow> limit \<noteq> 0 \<longrightarrow>
       gm_get obs (memory_key (pm_Name pm)) =
         Some (sampled (sn_now snap) (gm_get (sn_priorObservations snap) (memory_key (pm_Name pm)))
                (quot (wrap64 (used_memory D pm * 100)) limit))) \<and>
    (\<forall>k. (\<forall>pm \<in> set items. k \<noteq> memory_key (pm_Name pm)) \<longrightarrow> gm_get obs k = gm_get (snd (snd acc)) k)"
  using assms
proof (induction items arbitrary: acc)
  case Nil
  then show ?case by auto
next
  case (Cons pm items)
  let ?acc = "usage_step D cfg snap lim pm acc"
  have wf: "gm_wf (snd (snd ?acc))"
    using Cons.prems(1) by (auto simp: usage_step_def Let_def go_map_simps split: option.split prod.split)
  have IH: "gm_wf obs \<and>
    (\<forall>pm \<in> set items. \<forall>limit. gm_get lim (pm_Name pm) = Some limit \<longrightarrow> limit \<noteq> 0 \<longrightarrow>
       gm_get obs (memory_key (pm_Name pm)) =
         Some (sampled (sn_now snap) (gm_get (sn_priorObservations snap) (memory_key (pm_Name pm)))
                (quot (wrap64 (used_memory D pm * 100)) limit))) \<and>
    (\<forall>k. (\<forall>pm \<in> set items. k \<noteq> memory_key (pm_Name pm)) \<longrightarrow> gm_get obs k = gm_get (snd (snd ?acc)) k)"
    using Cons.prems by (intro Cons.IH[OF wf]) auto
  have step: "gm_get (snd (snd ?acc)) k =
      (if k = memory_key (pm_Name pm) \<and> (\<exists>l. gm_get lim (pm_Name pm) = Some l \<and> l \<noteq> 0)
       then Some (sampled (sn_now snap) (gm_get (sn_priorObservations snap) k)
                   (quot (wrap64 (used_memory D pm * 100)) (the (gm_get lim (pm_Name pm)))))
       else gm_get (snd (snd acc)) k)" for k
    using Cons.prems(1)
    by (auto simp: usage_step_def Let_def go_map_simps split: option.split prod.split)
  have "\<forall>pm' \<in> set items. memory_key (pm_Name pm) \<noteq> memory_key (pm_Name pm')"
    using Cons.prems(2) by auto
  with IH step show ?case by auto
qed

lemma checkResourceUsage_run:
  assumes "sn_podsOK snap"
  obtains ms fs obs where
    "fold (usage_step D cfg snap (mem_limits D (sn_pods snap))) items ([], [], []) = (ms, fs, obs)"
    "checkResourceUsage D (Some (Some items)) cfg snap =
       (checks_total (Namespace cfg) ''resource-usage'' ''ok'' # ms,
        \<lparr>cr_findings = fs, cr_complete = True, cr_observations = obs\<rparr>)"
  using assms
  by (cases "fold (usage_step D cfg snap (mem_limits D (sn_pods snap))) items ([], [], [])")
     (simp add: checkResourceUsage_def)

section \<open>A concrete cluster\<close>

definition web_pod :: "int pod" where
  "web_pod = \<lparr>pod_Name = ''web'', pod_Labels = [(''app'', ''web'')], pod_CreationTimestamp = 0,
     pod_DeletionTimestamp = None, pod_Phase = ''Running'',
     pod_Conditions = [\<lparr>co_Type = ''Ready'', co_Status = ''True'', co_Reason = [], co_Message = []\<rparr>],
     pod_ContainerStatuses = [],
     pod_Containers = [\<lparr>c_Name = ''app'', c_Requests = None,
        c_Limits = Some \<lparr>rl_memory = 1000, rl_cpu = 0\<rparr>\<rparr>]\<rparr>"

definition web_snapshot :: "(string, Observation) go_map \<Rightarrow> int snapshot" where
  "web_snapshot prior = (empty_snapshot 1000 prior)\<lparr>sn_pods := [web_pod], sn_podsOK := True\<rparr>"

definition web_metrics :: "int \<Rightarrow> int pod_metrics" where
  "web_metrics used = \<lparr>pm_Name = ''web'', pm_Usage = [Some \<lparr>rl_memory = used, rl_cpu = 0\<rparr>]\<rparr>"

lemma web_limits [simp]: "mem_limits int_deps (sn_pods (web_snapshot prior)) = [(''web'', 1000)]"
  by (simp add: mem_limits_def web_snapshot_def web_pod_def int_deps_def pod_limit_def live_def rl_mem_def Let_def)

lemma web_facts [simp]:
  "sn_podsOK (web_snapshot prior)" "sn_now (web_snapshot prior) = 1000"
  "sn_priorObservations (web_snapshot prior) = prior" "pm_Name (web_metrics used) = ''web''"
  "used_memory int_deps (web_metrics used) = used"
  by (simp_all add: web_snapshot_def empty_snapshot_def web_metrics_def used_memory_def int_deps_def rl_mem_def)

section \<open>Properties\<close>

text \<open>
  C32. The sample a poll adds: for a pod with a memory limit the check records an observation
  with at most five samples, the last of which is the usage in percent of the limit now;
  one sample more than before until there are five. The time \<open>LastSeen\<close> of an observation
  that already existed is kept, it is not moved to the time of the poll.
\<close>

theorem memory_observation:
  assumes "sn_podsOK snap" and "distinct (map pm_Name items)" and "pm \<in> set items"
    and "gm_get (mem_limits D (sn_pods snap)) (pm_Name pm) = Some limit"
  shows "\<exists>ob. gm_get (cr_observations (snd (checkResourceUsage D (Some (Some items)) cfg snap)))
             (memory_key (pm_Name pm)) = Some ob \<and>
    last (ob_MemorySamplesPct ob) = quot (wrap64 (used_memory D pm * 100)) limit \<and>
    ob_LastResourceSample ob = sn_now snap \<and>
    (case gm_get (sn_priorObservations snap) (memory_key (pm_Name pm)) of
       None \<Rightarrow> length (ob_MemorySamplesPct ob) = 1 \<and> ob_LastSeen ob = sn_now snap
     | Some prior \<Rightarrow>
         length (ob_MemorySamplesPct ob) = min 5 (Suc (length (ob_MemorySamplesPct prior))) \<and>
         ob_LastSeen ob = ob_LastSeen prior)"
proof -
  obtain ms fs obs where
    run: "fold (usage_step D cfg snap (mem_limits D (sn_pods snap))) items ([], [], []) = (ms, fs, obs)"
    and r: "checkResourceUsage D (Some (Some items)) cfg snap =
       (checks_total (Namespace cfg) ''resource-usage'' ''ok'' # ms,
        \<lparr>cr_findings = fs, cr_complete = True, cr_observations = obs\<rparr>)"
    by (rule checkResourceUsage_run[OF assms(1)])
  have "limit \<noteq> 0" using assms(4) mem_limits_ok[of D "sn_pods snap"] by fastforce
  then have "gm_get obs (memory_key (pm_Name pm)) =
      Some (sampled (sn_now snap) (gm_get (sn_priorObservations snap) (memory_key (pm_Name pm)))
             (quot (wrap64 (used_memory D pm * 100)) limit))"
    using usage_fold_observation[OF _ assms(2) run] assms(3,4) by simp
  then show ?thesis by (simp add: r sampled_def Let_def split: option.split)
qed

theorem memory_observation_witness:
  "\<exists>ob. gm_get (cr_observations (snd (checkResourceUsage int_deps (Some (Some [web_metrics 900]))
        (LoadConfig (\<lambda>_. [])) (web_snapshot []))))
             (memory_key ''web'') = Some ob \<and> last (ob_MemorySamplesPct ob) = 90"
  using memory_observation[of "web_snapshot []" "[web_metrics 900]" "web_metrics 900" int_deps 1000
      "LoadConfig (\<lambda>_. [])"]
  by (auto simp: int64_range_def)

text \<open>
  More memory in use never lowers the score, nor does a rising trend, whatever the order
  of the two configured thresholds; the score is one of 0, 45, 62, 72 and 80.
\<close>

lemma usage_score_monotone:
  assumes "pct \<le> pct'" and "trending \<longrightarrow> trending'"
  shows "fst (usage_level cfg pct trending) \<le> fst (usage_level cfg pct' trending') \<and>
    fst (usage_level cfg pct trending) \<in> {0, 45, 62, 72, 80}"
  using assms by (auto simp: usage_level_def)

end
