(* ===== verification/Custom_Resources.thy ===== *)
theory Custom_Resources
  imports Check_Families
begin

text \<open>
  \<open>checkCustomResources\<close> of \<open>checks.go\<close> with its helpers: the discovery cache, the allow and
  exclude patterns, and the reading of generation lag and conditions out of unstructured
  objects.

  The dynamic client is an argument: \<open>None\<close> is a nil client, otherwise a function from a
  resource to the answer of List (\<open>None\<close> for an error). The result of discovery is an
  argument too, \<open>None\<close> for an error.
\<close>

section \<open>Unstructured objects and discovery\<close>

datatype jv = JNull | JBool bool | JInt int | JFloat string | JStr string
  | JArr "jv list" | JObj "(string \<times> jv) list"

type_synonym unstructured = "(string \<times> jv) list"

record api_resource =
  ar_Name :: string
  ar_Kind :: string
  ar_Namespaced :: bool
  ar_Verbs :: "string list"

record api_list =
  al_GroupVersion :: string
  al_Resources :: "api_resource list"

record gvr =
  gvr_Group :: string
  gvr_Version :: string
  gvr_Resource :: string

type_synonym dynamic_client = "gvr \<Rightarrow> unstructured list option"

text \<open>A failed type assertion leaves the zero value.\<close>

definition as_string :: "jv option \<Rightarrow> string" where
  "as_string v = (case v of Some (JStr s) \<Rightarrow> s | _ \<Rightarrow> [])"

definition metadata_field :: "unstructured \<Rightarrow> string \<Rightarrow> jv option" where
  "metadata_field obj field =
     (case gm_get obj ''metadata'' of Some (JObj m) \<Rightarrow> gm_get m field | _ \<Rightarrow> None)"

definition GetKind :: "unstructured \<Rightarrow> string" where
  "GetKind obj = as_string (gm_get obj ''kind'')"

definition GetName :: "unstructured \<Rightarrow> string" where
  "GetName obj = as_string (metadata_field obj ''name'')"

definition GetGeneration :: "unstructured \<Rightarrow> int" where
  "GetGeneration obj = (case metadata_field obj ''generation'' of Some (JInt g) \<Rightarrow> g | _ \<Rightarrow> 0)"

section \<open>Which resources are scanned\<close>

definition contains :: "string list \<Rightarrow> string \<Rightarrow> bool" where
  "contains verbs verb \<longleftrightarrow> list_ex (\<lambda>v. v = verb) verbs"

definition isBuiltinGroup :: "string \<Rightarrow> bool" where
  "isBuiltinGroup grp \<longleftrightarrow>
     list_ex (\<lambda>b. grp = b)
       [''apps'', ''batch'', ''extensions'', ''networking.k8s.io'', ''policy'',
        ''rbac.authorization.k8s.io'', ''storage.k8s.io'', ''admissionregistration.k8s.io'',
        ''apiextensions.k8s.io'', ''coordination.k8s.io'', ''events.k8s.io'',
        ''autoscaling'', ''certificates.k8s.io'', ''authentication.k8s.io'',
        ''authorization.k8s.io'', ''metrics.k8s.io'', ''node.k8s.io'',
        ''scheduling.k8s.io'', ''discovery.k8s.io'', ''flowcontrol.apiserver.k8s.io'']"

definition pattern_candidates :: "gvr \<Rightarrow> string list" where
  "pattern_candidates r =
     [gvr_Group r,
      gvr_Group r @ ''/'' @ gvr_Resource r,
      gvr_Group r @ ''/'' @ gvr_Version r @ ''/'' @ gvr_Resource r,
      gvr_Group r @ ''/*'',
      gvr_Group r @ ''/'' @ gvr_Version r @ ''/*'']"

fun matchesCustomResourcePattern :: "string list \<Rightarrow> gvr \<Rightarrow> bool" where
  "matchesCustomResourcePattern [] r = False"
| "matchesCustomResourcePattern (pattern # patterns) r =
     (if pattern = [] then matchesCustomResourcePattern patterns r
      else if list_ex (equal_fold pattern) (pattern_candidates r) then True
      else matchesCustomResourcePattern patterns r)"

definition customResourceAllowed :: "Config \<Rightarrow> gvr \<Rightarrow> bool" where
  "customResourceAllowed cfg r =
     (if matchesCustomResourcePattern (CustomResourceExcludelist cfg) r then False
      else if CustomResourceAllowlist cfg = [] then True
      else matchesCustomResourcePattern (CustomResourceAllowlist cfg) r)"

section \<open>One object\<close>

definition negativeConditions :: "string list" where
  "negativeConditions = [''Stalled'', ''Reconciling'', ''Failed'']"

definition positiveConditions :: "string list" where
  "positiveConditions = [''Ready'', ''Available'', ''Healthy'', ''Synced'']"

definition cr_condition_findings :: "Config \<Rightarrow> string \<Rightarrow> string \<Rightarrow> jv \<Rightarrow> Finding list" where
  "cr_condition_findings cfg kind nm c =
     (case c of
        JObj cmap \<Rightarrow>
          (let condType = as_string (gm_get cmap ''type'');
               condStatus = as_string (gm_get cmap ''status'');
               message = as_string (gm_get cmap ''message'')
           in if condType = [] \<or> condStatus = [] then []
              else let evidence = (''condition '' @ condType @ ''='' @ condStatus)
                                  # (if message \<noteq> [] then [message] else [])
                in (if condType \<in> set positiveConditions \<and> condStatus = ''False'' then
                      [NewFinding (Namespace cfg) kind nm ''custom-resource''
                        (''condition-'' @ to_lower condType @ ''-false'') 65 evidence] else [])
                   @ (if condType \<in> set negativeConditions \<and> condStatus = ''True'' \<and> condType \<noteq> ''Reconciling'' then
                      [NewFinding (Namespace cfg) kind nm ''custom-resource''
                        (''condition-'' @ to_lower condType @ ''-true'') 70 evidence] else []))
      | _ \<Rightarrow> [])"

definition generation_findings ::
  "Config \<Rightarrow> string \<Rightarrow> string \<Rightarrow> int \<Rightarrow> jv option \<Rightarrow> Finding list" where
  "generation_findings cfg kind nm gen observed =
     (case observed of
        Some (JInt obsGen) \<Rightarrow>
          if gen > 0 \<and> obsGen < gen then
            [NewFinding (Namespace cfg) kind nm ''custom-resource'' ''generation-lag'' 55
              [''observedGeneration='' @ show_int obsGen @ '' metadata.generation='' @ show_int gen]]
          else []
      | _ \<Rightarrow> [])"

definition object_findings :: "Config \<Rightarrow> api_resource \<Rightarrow> unstructured \<Rightarrow> Finding list" where
  "object_findings cfg res obj =
     (let kind = (if GetKind obj = [] then ar_Kind res else GetKind obj);
          nm = GetName obj;
          gen = GetGeneration obj
      in case gm_get obj ''status'' of
           Some (JObj status) \<Rightarrow>
             generation_findings cfg kind nm gen (gm_get status ''observedGeneration'')
             @ (case gm_get status ''conditions'' of
                  Some (JArr conds) \<Rightarrow> concat (map (cr_condition_findings cfg kind nm) conds)
                | _ \<Rightarrow> [])
         | _ \<Rightarrow> [])"

section \<open>The scan\<close>

definition scans :: "Config \<Rightarrow> string \<Rightarrow> metric" where
  "scans cfg result = Inc ''custom_resource_scans_total'' [Namespace cfg, result]"

definition gvr_of :: "string \<times> string \<Rightarrow> api_resource \<Rightarrow> gvr" where
  "gvr_of gv res = \<lparr>gvr_Group = fst gv, gvr_Version = snd gv, gvr_Resource = ar_Name res\<rparr>"

definition scan_resource ::
  "dynamic_client \<Rightarrow> Config \<Rightarrow> string \<times> string \<Rightarrow> api_resource \<Rightarrow> metric list \<times> Finding list" where
  "scan_resource dyn cfg gv res =
     (if \<not> ar_Namespaced res \<or> \<not> contains (ar_Verbs res) ''list'' \<or> \<not> customResourceAllowed cfg (gvr_of gv res)
      then ([scans cfg ''skipped''], [])
      else (case dyn (gvr_of gv res) of
          None \<Rightarrow> ([scans cfg ''error''], [])
        | Some items \<Rightarrow>
            ([scans cfg ''scanned'', checks_total (Namespace cfg) ''custom-resources'' ''ok''],
             concat (map (object_findings cfg res) items))))"

definition scan_group ::
  "'q deps \<Rightarrow> dynamic_client \<Rightarrow> Config \<Rightarrow> api_list \<Rightarrow> metric list \<times> Finding list" where
  "scan_group D dyn cfg apiList =
     (case parse_gv D (al_GroupVersion apiList) of
        None \<Rightarrow> ([], [])
      | Some gv \<Rightarrow>
          if fst gv = [] \<or> isBuiltinGroup (fst gv) then ([], [])
          else (let rs = map (scan_resource dyn cfg gv) (al_Resources apiList)
                in (concat (map fst rs), concat (map snd rs))))"

definition checkCustomResources ::
  "'q deps \<Rightarrow> dynamic_client option \<Rightarrow> api_list list option \<Rightarrow> Config \<Rightarrow> check_outcome" where
  "checkCustomResources D client discovery cfg =
     (case client of
        None \<Rightarrow> ([], completed [])
      | Some dyn \<Rightarrow>
          (case discovery of
             None \<Rightarrow> ([checks_total (Namespace cfg) ''custom-resources'' ''error'', scans cfg ''error''], incomplete)
           | Some apiLists \<Rightarrow>
               (let gs = map (scan_group D dyn cfg) apiLists
                in (concat (map fst gs), completed (concat (map snd gs))))))"

section \<open>The discovery cache\<close>

record discovery_cache =
  dc_lists :: "api_list list"
  dc_expires :: time

definition customResourceAPILists ::
  "Config \<Rightarrow> time \<Rightarrow> api_list list option \<Rightarrow> discovery_cache \<Rightarrow> api_list list option \<times> discovery_cache" where
  "customResourceAPILists cfg now server cache =
     (if dc_lists cache \<noteq> [] \<and> before now (dc_expires cache) then (Some (dc_lists cache), cache)
      else (case server of
          None \<Rightarrow> (None, cache)
        | Some apiLists \<Rightarrow>
            (Some apiLists,
             (if CustomResourceDiscoveryTTL cfg > 0
              then \<lparr>dc_lists = apiLists, dc_expires = now + CustomResourceDiscoveryTTL cfg\<rparr>
              else \<lparr>dc_lists = [], dc_expires = 0\<rparr>))))"

section \<open>Lemmas\<close>

lemma object_findings_ok: "list_all (finding_ok (Namespace cfg)) (object_findings cfg res obj)"
proof -
  have "list_all (finding_ok (Namespace cfg)) (cr_condition_findings cfg kind nm c)" for kind nm c
    by (simp add: cr_condition_findings_def Let_def split: jv.split)
  moreover have "list_all (finding_ok (Namespace cfg)) (generation_findings cfg kind nm gen ob)" for kind nm gen ob
    by (simp add: generation_findings_def split: jv.split option.split)
  ultimately show ?thesis
    by (simp add: object_findings_def Let_def split: jv.split option.split)
qed

lemma scan_group_ok: "list_all (finding_ok (Namespace cfg)) (snd (scan_group D dyn cfg l))"
  by (auto simp: scan_group_def scan_resource_def Let_def object_findings_ok split: option.split)

interpretation custom_family: check_family
  "\<lambda>cfg (snap :: 'q snapshot). checkCustomResources D client discovery cfg"
  "\<lambda>cfg snap. client = None \<or> discovery \<noteq> None" for D client discovery
  by (rule check_familyI)
     (auto simp: checkCustomResources_def Let_def scan_group_ok split: option.split)

text \<open>The resources a scan may ask the API for.\<close>

definition pattern_hits :: "string list \<Rightarrow> gvr \<Rightarrow> bool" where
  "pattern_hits patterns r \<longleftrightarrow>
     (\<exists>p \<in> set patterns. p \<noteq> [] \<and> (\<exists>c \<in> set (pattern_candidates r). equal_fold p c))"

definition scannable :: "'q deps \<Rightarrow> Config \<Rightarrow> api_list list \<Rightarrow> gvr \<Rightarrow> bool" where
  "scannable D cfg apis r \<longleftrightarrow>
     (\<exists>l \<in> set apis. \<exists>gv res. parse_gv D (al_GroupVersion l) = Some gv \<and> res \<in> set (al_Resources l) \<and>
        r = gvr_of gv res \<and> fst gv \<noteq> [] \<and> \<not> isBuiltinGroup (fst gv) \<and>
        ar_Namespaced res \<and> ''list'' \<in> set (ar_Verbs res) \<and>
        \<not> pattern_hits (CustomResourceExcludelist cfg) r \<and>
        (CustomResourceAllowlist cfg = [] \<or> pattern_hits (CustomResourceAllowlist cfg) r))"

lemma matches_pattern_iff: "matchesCustomResourcePattern patterns r \<longleftrightarrow> pattern_hits patterns r"
  by (induction patterns) (auto simp: list_ex_iff pattern_hits_def)

lemma allowed_iff:
  "customResourceAllowed cfg r \<longleftrightarrow>
   \<not> pattern_hits (CustomResourceExcludelist cfg) r \<and>
   (CustomResourceAllowlist cfg = [] \<or> pattern_hits (CustomResourceAllowlist cfg) r)"
  by (simp add: customResourceAllowed_def matches_pattern_iff)

lemma contains_iff: "contains verbs v \<longleftrightarrow> v \<in> set verbs"
  by (auto simp: contains_def list_ex_iff)

lemma scan_group_cong:
  assumes "l \<in> set apis" and "\<And>r. scannable D cfg apis r \<Longrightarrow> dyn r = dyn' r"
  shows "scan_group D dyn cfg l = scan_group D dyn' cfg l"
proof (cases "parse_gv D (al_GroupVersion l)")
  case None
  then show ?thesis by (simp add: scan_group_def)
next
  case (Some gv)
  show ?thesis
  proof (cases "fst gv = [] \<or> isBuiltinGroup (fst gv)")
    case True
    with Some show ?thesis by (simp add: scan_group_def)
  next
    case False
    have "scan_resource dyn cfg gv res = scan_resource dyn' cfg gv res" if "res \<in> set (al_Resources l)" for res
    proof (cases "ar_Namespaced res \<and> ''list'' \<in> set (ar_Verbs res) \<and> customResourceAllowed cfg (gvr_of gv res)")
      case True
      with that assms(1) Some False have "scannable D cfg apis (gvr_of gv res)"
        unfolding scannable_def allowed_iff by blast
      then show ?thesis using assms(2) by (simp add: scan_resource_def)
    next
      case False
      then show ?thesis by (auto simp: scan_resource_def contains_iff)
    qed
    then have "map (scan_resource dyn cfg gv) (al_Resources l) = map (scan_resource dyn' cfg gv) (al_Resources l)"
      by simp
    then show ?thesis by (simp only: scan_group_def Some option.case Let_def)
  qed
qed

section \<open>Properties\<close>

text \<open>
  C33. The scan depends on the API's answers for scannable resources only: of a group that is
  neither core nor built in, namespaced, listable, matched by no exclude pattern, and, if
  an allow list is configured, matched by it. In particular nothing excluded is read.
\<close>

theorem custom_scan_reads_only_scannable:
  assumes "\<And>r. scannable D cfg apis r \<Longrightarrow> dyn r = dyn' r"
  shows "checkCustomResources D (Some dyn) (Some apis) cfg = checkCustomResources D (Some dyn') (Some apis) cfg"
proof -
  have "scan_group D dyn cfg l = scan_group D dyn' cfg l" if "l \<in> set apis" for l
    using that assms by (rule scan_group_cong)
  then have "map (scan_group D dyn cfg) apis = map (scan_group D dyn' cfg) apis" by simp
  then show ?thesis by (simp only: checkCustomResources_def option.case)
qed

definition widget :: api_resource where
  "widget = \<lparr>ar_Name = ''widgets'', ar_Kind = ''Widget'', ar_Namespaced = True, ar_Verbs = [''list'']\<rparr>"

definition widgets :: api_list where
  "widgets = \<lparr>al_GroupVersion = ''Example.com/v1'', al_Resources = [widget]\<rparr>"

lemma widget_excluded:
  "pattern_hits [''example.COM/*'']
     \<lparr>gvr_Group = ''Example.com'', gvr_Version = ''v1'', gvr_Resource = ''widgets''\<rparr>"
  by code_simp

theorem custom_scan_reads_only_scannable_witness:
  "checkCustomResources int_deps (Some (\<lambda>r. Some [])) (Some [widgets])
     ((LoadConfig (\<lambda>_. []))\<lparr>CustomResourceExcludelist := [''example.COM/*'']\<rparr>)
   = checkCustomResources int_deps (Some (\<lambda>r. None)) (Some [widgets])
     ((LoadConfig (\<lambda>_. []))\<lparr>CustomResourceExcludelist := [''example.COM/*'']\<rparr>)"
proof (rule custom_scan_reads_only_scannable)
  fix r
  assume "scannable int_deps ((LoadConfig (\<lambda>_. []))\<lparr>CustomResourceExcludelist := [''example.COM/*'']\<rparr>) [widgets] r"
  then show "Some [] = None"
    by (auto simp: scannable_def widgets_def widget_def int_deps_def gvr_of_def widget_excluded)
qed

definition unhealthy_condition :: "(string \<times> jv) list \<Rightarrow> bool" where
  "unhealthy_condition cmap \<longleftrightarrow>
     as_string (gm_get cmap ''type'') \<in> {''Ready'', ''Available'', ''Healthy'', ''Synced''} \<and>
       as_string (gm_get cmap ''status'') = ''False'' \<or>
     as_string (gm_get cmap ''type'') \<in> {''Stalled'', ''Failed''} \<and>
       as_string (gm_get cmap ''status'') = ''True''"

lemma cr_condition_findings_iff:
  "cr_condition_findings cfg kind nm c \<noteq> [] \<longleftrightarrow> (\<exists>cmap. c = JObj cmap \<and> unhealthy_condition cmap)"
  by (cases c)
     (auto simp: cr_condition_findings_def unhealthy_condition_def positiveConditions_def
       negativeConditions_def Let_def)

lemma generation_findings_iff:
  "generation_findings cfg kind nm gen ob \<noteq> [] \<longleftrightarrow> (\<exists>seen. ob = Some (JInt seen) \<and> 0 < gen \<and> seen < gen)"
  by (auto simp: generation_findings_def split: option.split jv.split)

text \<open>
  C34. An object is reported exactly if its status lags behind its generation or one of its
  conditions is unhealthy: a positive condition that is \<open>False\<close>, or \<open>Stalled\<close> or \<open>Failed\<close>
  that is \<open>True\<close>. \<open>Reconciling\<close> alone, an unknown condition and a malformed status never
  lead to a report: the comment above \<open>negativeConditions\<close> promises one for \<open>Reconciling\<close> too,
  beyond some threshold, but the code has no threshold and skips that condition always.
\<close>

theorem custom_object_reported_iff:
  "object_findings cfg res obj \<noteq> [] \<longleftrightarrow>
   (\<exists>status. gm_get obj ''status'' = Some (JObj status) \<and>
     ((\<exists>seen. gm_get status ''observedGeneration'' = Some (JInt seen) \<and>
         0 < GetGeneration obj \<and> seen < GetGeneration obj) \<or>
      (\<exists>conds cmap. gm_get status ''conditions'' = Some (JArr conds) \<and> JObj cmap \<in> set conds \<and>
         unhealthy_condition cmap)))"
proof -
  have conds: "concat (map (cr_condition_findings cfg kind nm) conds) \<noteq> [] \<longleftrightarrow>
      (\<exists>cmap. JObj cmap \<in> set conds \<and> unhealthy_condition cmap)" for kind nm conds
    using cr_condition_findings_iff by fastforce
  show ?thesis
  proof (cases "gm_get obj ''status''")
    case None
    then show ?thesis by (simp add: object_findings_def)
  next
    case (Some v)
    then show ?thesis
      using conds generation_findings_iff
      by (cases v) (auto simp: object_findings_def Let_def split: option.splits jv.splits)
  qed
qed

text \<open>
  The discovery cache: after a successful discovery that found something, with a
  positive time to live, every call before the expiry returns the same lists whatever the
  server would answer and leaves the cache alone; from the expiry on the server is asked,
  and its failure is the failure of the call.
\<close>

lemma discovery_cache_ttl:
  assumes "customResourceAPILists cfg now (Some apis) \<lparr>dc_lists = [], dc_expires = 0\<rparr> = (r, cache)"
    and "apis \<noteq> []" and "0 < CustomResourceDiscoveryTTL cfg"
  shows "r = Some apis \<and>
    customResourceAPILists cfg later server cache =
      (if later < now + CustomResourceDiscoveryTTL cfg then (Some apis, cache)
       else case server of
         None \<Rightarrow> (None, cache)
       | Some new \<Rightarrow> (Some new, \<lparr>dc_lists = new, dc_expires = later + CustomResourceDiscoveryTTL cfg\<rparr>))"
  using assms by (auto simp: customResourceAPILists_def before_def split: option.split)

end
