(* ===== verification/Health.thy ===== *)
theory Health
  imports Config
begin

text \<open>
  \<open>health.go\<close>: the liveness record, the gap formula, the two HTTP handlers, and the
  interleaving of the poll loop's two atomic stores with the handlers' loads as a step
  relation with its reachable states.
\<close>

section \<open>The record and its operations\<close>

record PollHealth =
  lastPollNano :: int
  firstPollDone :: int
  maxGap :: duration

definition NewPollHealth :: "duration \<Rightarrow> PollHealth" where
  "NewPollHealth gap = \<lparr>lastPollNano = 0, firstPollDone = 0, maxGap = gap\<rparr>"

definition EffectiveMaxPollGap :: "Config \<Rightarrow> duration" where
  "EffectiveMaxPollGap cfg =
     (if HealthMaxPollGap cfg > 0 then HealthMaxPollGap cfg
      else let a = wrap64 (3 * PollInterval cfg);
               b = wrap64 (PollInterval cfg + CheckTimeout cfg)
           in if a > b then a else b)"

text \<open>\<open>MarkPollComplete\<close> is two atomic stores, in this order; the clock is read first.\<close>

definition store_nano :: "time \<Rightarrow> PollHealth \<Rightarrow> PollHealth" where
  "store_nano now h = h\<lparr>lastPollNano := unix_nano now\<rparr>"

definition store_done :: "PollHealth \<Rightarrow> PollHealth" where
  "store_done h = h\<lparr>firstPollDone := 1\<rparr>"

definition MarkPollComplete :: "time \<Rightarrow> PollHealth \<Rightarrow> PollHealth" where
  "MarkPollComplete now h = store_done (store_nano now h)"

definition isReady :: "PollHealth \<Rightarrow> bool" where
  "isReady h \<longleftrightarrow> firstPollDone h = 1"

definition isLive :: "PollHealth \<Rightarrow> time \<Rightarrow> bool" where
  "isLive h now =
     (let ns = lastPollNano h in
      if ns = 0 then True else time_sub now (from_unix_nano ns) \<le> maxGap h)"

text \<open>
  A response is its status code and body. \<open>LivezHandler\<close> loads the record twice and reads the
  clock twice: \<open>h1\<close> and \<open>now1\<close> decide, \<open>h2\<close> and \<open>now2\<close> word the message.
\<close>

type_synonym http_response = "nat \<times> string"

definition LivezHandler :: "PollHealth \<Rightarrow> time \<Rightarrow> PollHealth \<Rightarrow> time \<Rightarrow> http_response" where
  "LivezHandler h1 now1 h2 now2 =
     (if isLive h1 now1 then (200, ''ok'' @ [CHR 0x0A])
      else let last = from_unix_nano (lastPollNano h2);
               age = truncate_dur (time_sub now2 last) second
           in (503, ''poll loop stalled: last poll completed '' @ show_dur age
                    @ '' ago (max gap '' @ show_dur (maxGap h2) @ '')'' @ [CHR 0x0A]))"

definition ReadyzHandler :: "PollHealth \<Rightarrow> http_response" where
  "ReadyzHandler h =
     (if isReady h then (200, ''ok'' @ [CHR 0x0A])
      else (503, ''waiting for first poll to complete'' @ [CHR 0x0A]))"

section \<open>The poll loop and the handlers, interleaved\<close>

text \<open>
  The poll loop is between polls (\<open>Polling\<close>) or between the two stores of
  \<open>MarkPollComplete\<close> (\<open>NanoStored\<close>). The clock moves forward; it stays after 1970 and within
  what an \<open>int64\<close> of nanoseconds can hold. Handlers only read, so any state of a run is
  one a handler can see between any two of its own loads.
\<close>

datatype mark_pc = Polling | NanoStored

record health_sys =
  hs_health :: PollHealth
  hs_pc :: mark_pc
  hs_clock :: time
  hs_completed :: "time list"  \<comment> \<open>clock readings of the completions so far, latest first\<close>

definition clock_ok :: "time \<Rightarrow> bool" where
  "clock_ok t \<longleftrightarrow> unix_epoch < t \<and> int64_range (t - unix_epoch)"

definition health_init :: "duration \<Rightarrow> time \<Rightarrow> health_sys" where
  "health_init gap t =
     \<lparr>hs_health = NewPollHealth gap, hs_pc = Polling, hs_clock = t, hs_completed = []\<rparr>"

inductive health_step :: "health_sys \<Rightarrow> health_sys \<Rightarrow> bool" where
  tick: "hs_clock s \<le> t \<Longrightarrow> clock_ok t \<Longrightarrow> health_step s (s\<lparr>hs_clock := t\<rparr>)"
| nano: "hs_pc s = Polling \<Longrightarrow>
     health_step s (s\<lparr>hs_health := store_nano (hs_clock s) (hs_health s), hs_pc := NanoStored,
                      hs_completed := hs_clock s # hs_completed s\<rparr>)"
| finish: "hs_pc s = NanoStored \<Longrightarrow>
     health_step s (s\<lparr>hs_health := store_done (hs_health s), hs_pc := Polling\<rparr>)"

inductive_cases health_stepE: "health_step s t"

inductive_simps health_step_iff: "health_step s t"

inductive health_reachable :: "duration \<Rightarrow> health_sys \<Rightarrow> bool" for gap where
  start: "clock_ok t \<Longrightarrow> health_reachable gap (health_init gap t)"
| step: "health_reachable gap s \<Longrightarrow> health_step s t \<Longrightarrow> health_reachable gap t"

text \<open>
  The invariant: the stored time is that of the latest completion, no completion lies in
  the future, and readiness is never visible before a time is.
\<close>

definition health_inv :: "duration \<Rightarrow> health_sys \<Rightarrow> bool" where
  "health_inv gap s \<longleftrightarrow>
     clock_ok (hs_clock s) \<and> maxGap (hs_health s) = gap \<and>
     lastPollNano (hs_health s) =
       (case hs_completed s of [] \<Rightarrow> 0 | t # _ \<Rightarrow> unix_nano t) \<and>
     (\<forall>t \<in> set (hs_completed s). clock_ok t \<and> t \<le> hs_clock s) \<and>
     (isReady (hs_health s) \<longrightarrow> hs_completed s \<noteq> []) \<and>
     (hs_pc s = NanoStored \<longrightarrow> hs_completed s \<noteq> [])"

lemma unix_nano_nonzero: "clock_ok t \<Longrightarrow> unix_nano t \<noteq> 0 \<and> from_unix_nano (unix_nano t) = t"
  by (auto simp: clock_ok_def unix_nano_def from_unix_nano_def)

lemma health_inv_init: "clock_ok t \<Longrightarrow> health_inv gap (health_init gap t)"
  by (simp add: health_inv_def health_init_def NewPollHealth_def isReady_def)

lemma health_inv_step: "health_step s t \<Longrightarrow> health_inv gap s \<Longrightarrow> health_inv gap t"
  by (erule health_stepE)
     (auto simp: health_inv_def store_nano_def store_done_def isReady_def)

lemma health_reachable_inv: "health_reachable gap s \<Longrightarrow> health_inv gap s"
  by (induction rule: health_reachable.induct) (auto intro: health_inv_init health_inv_step)

section \<open>Properties\<close>

text \<open>
  Without an explicit gap, and while the arithmetic stays in range, the gap is the
  larger of three poll intervals and one interval plus one check timeout; an explicit
  positive gap is used as it is.
\<close>

lemma EffectiveMaxPollGap_formula:
  assumes "int64_range (3 * PollInterval cfg)" and "int64_range (PollInterval cfg + CheckTimeout cfg)"
  shows "EffectiveMaxPollGap cfg =
    (if 0 < HealthMaxPollGap cfg then HealthMaxPollGap cfg
     else max (3 * PollInterval cfg) (PollInterval cfg + CheckTimeout cfg))"
  using assms by (auto simp: EffectiveMaxPollGap_def Let_def)

text \<open>
  C30. In every interleaving of the poll loop with the probes: a probe that sees the
  process ready finds the time of a completed poll, and liveness is then judged by the
  latest completion: the answer is 200 exactly if it lies no further back than the gap.
  Before the first completion the probe answers 200.
\<close>

theorem health_probes_sound:
  assumes "health_reachable gap s" and "int64_range gap"
  shows "(fst (ReadyzHandler (hs_health s)) = 200 \<longrightarrow> hs_completed s \<noteq> []) \<and>
    fst (LivezHandler (hs_health s) (hs_clock s) h2 now2) =
      (case hs_completed s of [] \<Rightarrow> 200
       | t # _ \<Rightarrow> if hs_clock s - t \<le> gap then 200 else 503)"
proof
  have inv: "health_inv gap s" using assms(1) by (rule health_reachable_inv)
  then show "fst (ReadyzHandler (hs_health s)) = 200 \<longrightarrow> hs_completed s \<noteq> []"
    by (auto simp: health_inv_def ReadyzHandler_def)
  show "fst (LivezHandler (hs_health s) (hs_clock s) h2 now2) =
      (case hs_completed s of [] \<Rightarrow> 200
       | t # _ \<Rightarrow> if hs_clock s - t \<le> gap then 200 else 503)"
  proof (cases "hs_completed s")
    case Nil
    with inv show ?thesis by (simp add: health_inv_def LivezHandler_def isLive_def)
  next
    case (Cons t ts)
    with inv have t: "clock_ok t" "t \<le> hs_clock s" "clock_ok (hs_clock s)"
      "lastPollNano (hs_health s) = unix_nano t" "maxGap (hs_health s) = gap"
      by (auto simp: health_inv_def)
    have "int64_range (hs_clock s - t)"
      using t(1-3) by (auto simp: clock_ok_def int64_range_def)
    then have "isLive (hs_health s) (hs_clock s) \<longleftrightarrow> hs_clock s - t \<le> gap"
      using unix_nano_nonzero[OF t(1)] by (simp add: isLive_def t(4,5))
    with Cons show ?thesis by (simp add: LivezHandler_def Let_def)
  qed
qed

text \<open>A run: the first poll completes, then nothing happens for longer than the gap.\<close>

lemma health_run_stalled:
  "\<exists>s. health_reachable 180 s \<and> hs_completed s = [unix_epoch + 1] \<and>
       hs_clock s = unix_epoch + 1000"
proof -
  let ?s0 = "health_init 180 (unix_epoch + 1)"
  let ?s1 = "?s0\<lparr>hs_health := store_nano (hs_clock ?s0) (hs_health ?s0), hs_pc := NanoStored,
                   hs_completed := hs_clock ?s0 # hs_completed ?s0\<rparr>"
  let ?s2 = "?s1\<lparr>hs_health := store_done (hs_health ?s1), hs_pc := Polling\<rparr>"
  let ?s3 = "?s2\<lparr>hs_clock := unix_epoch + 1000\<rparr>"
  have "health_reachable 180 ?s0"
    by (rule health_reachable.start) (simp add: clock_ok_def int64_range_def)
  then have "health_reachable 180 ?s1"
    by (rule health_reachable.step) (rule health_step.nano, simp add: health_init_def)
  then have "health_reachable 180 ?s2"
    by (rule health_reachable.step) (rule health_step.finish, simp)
  then have "health_reachable 180 ?s3"
    by (rule health_reachable.step)
       (rule health_step.tick, simp_all add: health_init_def clock_ok_def int64_range_def)
  then show ?thesis by (intro exI[of _ ?s3]) (simp add: health_init_def)
qed

theorem health_probes_sound_witness:
  "\<exists>s. health_reachable 180 s \<and>
       fst (LivezHandler (hs_health s) (hs_clock s) (NewPollHealth 0) 0) = 503"
proof -
  obtain s where s: "health_reachable 180 s" "hs_completed s = [unix_epoch + 1]"
    "hs_clock s = unix_epoch + 1000"
    using health_run_stalled by blast
  show ?thesis
    using s health_probes_sound[OF s(1), of "NewPollHealth 0" 0] by (auto simp: int64_range_def)
qed

end
