(* ===== verification/Monitor_Core.thy ===== *)
theory Monitor_Core
  imports Resource_Usage Custom_Resources Health
begin

text \<open>
  The monitor of \<open>monitor.go\<close>: its state, suppressions, publishing, and the finding life
  cycle (\<open>collectFindings\<close>, \<open>applyResult\<close>, \<open>resolveMissingFindings\<close>).

  Everything outside the process goes through a world of any type \<open>'w\<close> that the functions of
  a \<open>runtime\<close> read and change: the clock, the iteration orders of the Go runtime, the
  Kubernetes API, the broker. A function that dereferences a nil pointer returns \<open>None\<close>.
\<close>

section \<open>The environment\<close>

text \<open>
  How the race of \<open>runCheck\<close> between the check and its deadline ends: the result arrives (the
  flag says whether the deadline has passed by then); the deadline fires first, or the parent
  context is cancelled first, and the number says how many counters the abandoned goroutine
  has incremented by then.
\<close>

datatype race = Delivered bool | DeadlineExpired nat | ParentCancelled nat

record ('q, 'w) runtime =
  rt_clock :: "'w \<Rightarrow> time \<times> 'w"
  rt_order :: "'w \<Rightarrow> nat list \<times> 'w"
  rt_api :: "'w cm_api"
  rt_codec :: codec
  rt_publish :: "Finding \<Rightarrow> 'w \<Rightarrow> string option \<times> 'w"   \<comment> \<open>\<open>Publisher.PublishFinding\<close>: the error\<close>
  rt_list :: "'w \<Rightarrow> ('q listing \<times> bool) \<times> 'w"       \<comment> \<open>the List answers, and whether they beat the deadline\<close>
  rt_race :: "string \<Rightarrow> 'w \<Rightarrow> race \<times> 'w"
  rt_logs :: "'w \<Rightarrow> log_source \<times> 'w"
  rt_metrics :: "'w \<Rightarrow> 'q metrics_answer \<times> 'w"
  rt_dynamic :: "'w \<Rightarrow> dynamic_client option \<times> 'w"
  rt_discovery :: "'w \<Rightarrow> api_list list option \<times> 'w"
  rt_deps :: "'q deps"

section \<open>The monitor\<close>

text \<open>
  The fields of \<open>Monitor\<close> that change, the world, and two records of what happened: the
  counters, gauges and histograms written, and the calls of \<open>PublishFinding\<close> with their success.
\<close>

record 'w monitor =
  mn_store :: StateStore
  mn_state :: MonitorState
  mn_health :: "PollHealth option"
  mn_suppressions :: "(string, unit) go_map option"
  mn_dirty :: bool
  mn_lastWrite :: time
  mn_cache :: discovery_cache
  mn_world :: 'w
  mn_metrics :: "metric list"
  mn_attempts :: "(Finding \<times> bool) list"

definition NewMonitor ::
  "StateStore \<Rightarrow> MonitorState \<Rightarrow> PollHealth option \<Rightarrow> 'w \<Rightarrow> 'w monitor" where
  "NewMonitor store state health w =
     \<lparr>mn_store = store, mn_state = state, mn_health = health, mn_suppressions = None,
      mn_dirty = False, mn_lastWrite = 0, mn_cache = \<lparr>dc_lists = [], dc_expires = 0\<rparr>,
      mn_world = w, mn_metrics = [], mn_attempts = []\<rparr>"

abbreviation findings :: "'w monitor \<Rightarrow> (string, FindingState option) go_map" where
  "findings m \<equiv> ms_Findings (mn_state m)"

abbreviation observations :: "'w monitor \<Rightarrow> (string, Observation option) go_map" where
  "observations m \<equiv> ms_Observations (mn_state m)"

definition set_findings :: "(string, FindingState option) go_map \<Rightarrow> 'w monitor \<Rightarrow> 'w monitor" where
  "set_findings fs m = m\<lparr>mn_state := (mn_state m)\<lparr>ms_Findings := fs\<rparr>\<rparr>"

definition set_observations :: "(string, Observation option) go_map \<Rightarrow> 'w monitor \<Rightarrow> 'w monitor" where
  "set_observations obs m = m\<lparr>mn_state := (mn_state m)\<lparr>ms_Observations := obs\<rparr>\<rparr>"

definition mark_dirty :: "'w monitor \<Rightarrow> 'w monitor" where
  "mark_dirty m = m\<lparr>mn_dirty := True\<rparr>"

definition emit :: "metric list \<Rightarrow> 'w monitor \<Rightarrow> 'w monitor" where
  "emit ms m = m\<lparr>mn_metrics := mn_metrics m @ ms\<rparr>"

text \<open>Reading a component of the world.\<close>

definition ask :: "('w \<Rightarrow> 'a \<times> 'w) \<Rightarrow> 'w monitor \<Rightarrow> 'a \<times> 'w monitor" where
  "ask g m = (case g (mn_world m) of (a, w) \<Rightarrow> (a, m\<lparr>mn_world := w\<rparr>))"

section \<open>Suppressions\<close>

definition loadSuppressions :: "('q, 'w) runtime \<Rightarrow> Config \<Rightarrow> 'w monitor \<Rightarrow> 'w monitor" where
  "loadSuppressions rt cfg m =
     (if SuppressConfigMapName cfg = [] then m\<lparr>mn_suppressions := None\<rparr>
      else (case ask (get_cm (rt_api rt) (Namespace cfg) (SuppressConfigMapName cfg)) m of
          (Inl e, m1) \<Rightarrow> m1\<lparr>mn_suppressions := None\<rparr>
        | (Inr cm, m1) \<Rightarrow>
            m1\<lparr>mn_suppressions :=
              Some (fold (\<lambda>kv s. gm_set (to_lower (trim_space (fst kv))) () s) (cm_Data cm) [])\<rparr>))"

definition suppression_candidates :: "Finding \<Rightarrow> string list" where
  "suppression_candidates f =
     (let kind = to_lower (f_Kind f); nm = to_lower (f_Name f); reason = to_lower (f_Reason f) in
      [kind @ ''/'' @ nm @ ''/'' @ reason,
       kind @ ''/'' @ nm @ ''/*'',
       kind @ ''/*/'' @ reason,
       ''*/'' @ nm @ ''/'' @ reason,
       kind @ ''/*/*'',
       ''*/*/'' @ reason,
       ''*/*/*''])"

definition isSuppressed :: "(string, unit) go_map option \<Rightarrow> Finding \<Rightarrow> bool" where
  "isSuppressed suppressions f =
     (case suppressions of
        None \<Rightarrow> False
      | Some s \<Rightarrow> if gm_len s = 0 then False
                  else list_ex (\<lambda>c. gm_get s c \<noteq> None) (suppression_candidates f))"

section \<open>Publishing\<close>

text \<open>The first component says whether there was an error.\<close>

definition publish :: "('q, 'w) runtime \<Rightarrow> Config \<Rightarrow> Finding \<Rightarrow> 'w monitor \<Rightarrow> bool \<times> 'w monitor" where
  "publish rt cfg f m =
     (case ask (rt_publish rt f) m of
        (Some err, m1) \<Rightarrow>
          (True, emit [Inc ''publish_attempts_total'' [Namespace cfg, ''error'']]
                   (m1\<lparr>mn_attempts := mn_attempts m1 @ [(f, False)]\<rparr>))
      | (None, m1) \<Rightarrow>
          (False, emit [Inc ''publish_attempts_total'' [Namespace cfg, ''ok''],
                         Inc ''findings_total'' [Namespace cfg, f_Classification f, f_Check f]]
                   (m1\<lparr>mn_attempts := mn_attempts m1 @ [(f, True)]\<rparr>)))"

section \<open>Collecting findings\<close>

definition new_finding_state :: "time \<Rightarrow> Finding \<Rightarrow> FindingState" where
  "new_finding_state now f =
     \<lparr>fs_Kind = f_Kind f, fs_Name = f_Name f, fs_Check = f_Check f, fs_Reason = f_Reason f,
      fs_FirstSeen = now, fs_LastSeen = 0, fs_LastPublished = None, fs_LastPublishFailed = None,
      fs_LastAIDispatchRequested = None, fs_CooldownUntil = None, fs_Score = f_Score f,
      fs_Classification = f_Classification f, fs_Status = ''ongoing''\<rparr>"

text \<open>\<open>shouldPublish\<close> before triage is considered.\<close>

definition changed :: "bool \<Rightarrow> FindingState \<Rightarrow> Finding \<Rightarrow> bool" where
  "changed known state f \<longleftrightarrow>
     \<not> known \<or>
     fs_Status state = ''resolved'' \<or>
     fs_LastPublished state = None \<or>
     fs_LastPublishFailed state \<noteq> None \<or>
     f_Score f > fs_Score state \<or>
     f_Classification f \<noteq> fs_Classification state"

definition triage_wanted :: "Config \<Rightarrow> Finding \<Rightarrow> bool" where
  "triage_wanted cfg f \<longleftrightarrow> DownstreamTriageEnabled cfg \<and> f_Score f \<ge> DownstreamMinScore cfg"

definition triage_due :: "Config \<Rightarrow> time \<Rightarrow> FindingState \<Rightarrow> Finding \<Rightarrow> bool" where
  "triage_due cfg now state f \<longleftrightarrow>
     triage_wanted cfg f \<and>
     (case fs_CooldownUntil state of None \<Rightarrow> True | Some t \<Rightarrow> after now t)"

definition cooldown_for :: "Config \<Rightarrow> Finding \<Rightarrow> duration" where
  "cooldown_for cfg f =
     (if f_Classification f = ''incident-likely'' \<and> DownstreamCooldownIncident cfg > 0
      then DownstreamCooldownIncident cfg else DownstreamCooldown cfg)"

text \<open>What triage does to the finding that is going to be published.\<close>

definition triaged :: "Config \<Rightarrow> time \<Rightarrow> FindingState \<Rightarrow> Finding \<Rightarrow> Finding" where
  "triaged cfg now state f =
     (if triage_due cfg now state f then
        f\<lparr>f_AITriageRequired := True, f_CooldownUntil := Some (now + cooldown_for cfg f)\<rparr>
      else if triage_wanted cfg f then f\<lparr>f_CooldownUntil := fs_CooldownUntil state\<rparr>
      else f)"

definition seen_again :: "time \<Rightarrow> Finding \<Rightarrow> FindingState \<Rightarrow> FindingState" where
  "seen_again now f state =
     state\<lparr>fs_Kind := f_Kind f, fs_Name := f_Name f, fs_Check := f_Check f, fs_Reason := f_Reason f,
           fs_LastSeen := now, fs_Score := f_Score f, fs_Classification := f_Classification f,
           fs_Status := ''ongoing''\<rparr>"

definition store_finding :: "string \<Rightarrow> FindingState \<Rightarrow> 'w monitor \<Rightarrow> 'w monitor" where
  "store_finding key state m = mark_dirty (set_findings (gm_set key (Some state) (findings m)) m)"

text \<open>One round of the loop; \<open>None\<close> is the nil dereference of a known id without a state.\<close>

definition collect_finding ::
  "('q, 'w) runtime \<Rightarrow> Config \<Rightarrow> time \<Rightarrow> Finding \<Rightarrow> 'w monitor \<times> (string, Finding) go_map \<Rightarrow>
   ('w monitor \<times> (string, Finding) go_map) option" where
  "collect_finding rt cfg now f0 acc =
     (case acc of (m, active) \<Rightarrow>
      if isSuppressed (mn_suppressions m) f0 then Some (m, active)
      else
        let f1 = f0\<lparr>f_LastSeen := now, f_Status := ''ongoing''\<rparr>;
            known = gm_get (findings m) (f_ID f1) \<noteq> None
        in case (case gm_get (findings m) (f_ID f1) of None \<Rightarrow> Some (new_finding_state now f1) | Some p \<Rightarrow> p) of
             None \<Rightarrow> None
           | Some state \<Rightarrow>
               let f2 = f1\<lparr>f_FirstSeen := fs_FirstSeen state\<rparr>;
                   dispatch = triage_due cfg now state f2;
                   f3 = triaged cfg now state f2;
                   shouldPublish = (changed known state f2 \<or> dispatch);
                   state1 = seen_again now f3 state;
                   m1 = store_finding (f_ID f3) state1
                          (emit (if triage_wanted cfg f2 \<and> \<not> dispatch
                                  then [Inc ''ai_cooldowns_total'' [Namespace cfg]] else []) m)
               in if \<not> shouldPublish then Some (m1, gm_set (f_ID f3) f3 active)
                  else (case publish rt cfg f3 m1 of
                      (True, m2) \<Rightarrow>
                        Some (store_finding (f_ID f3) (state1\<lparr>fs_LastPublishFailed := Some now\<rparr>) m2,
                              gm_set (f_ID f3) f3 active)
                    | (False, m2) \<Rightarrow>
                        let state2 = state1\<lparr>fs_LastPublished := Some now, fs_LastPublishFailed := None\<rparr>;
                            state3 = (if dispatch
                                      then state2\<lparr>fs_LastAIDispatchRequested := Some now,
                                                  fs_CooldownUntil := Some (now + cooldown_for cfg f2)\<rparr>
                                      else state2);
                            m3 = (if dispatch
                                  then emit [Inc ''ai_dispatch_requests_total'' [Namespace cfg, ''requested'']] m2
                                  else m2)
                        in Some (store_finding (f_ID f3) state3 m3, gm_set (f_ID f3) f3 active)))"

definition collectFindings ::
  "('q, 'w) runtime \<Rightarrow> Config \<Rightarrow> Finding list \<Rightarrow> time \<Rightarrow> 'w monitor \<times> (string, Finding) go_map \<Rightarrow>
   ('w monitor \<times> (string, Finding) go_map) option" where
  "collectFindings rt cfg fs now acc = foldM (collect_finding rt cfg now) fs acc"

definition merge_observation :: "string \<times> Observation \<Rightarrow> 'w monitor \<Rightarrow> 'w monitor" where
  "merge_observation kv m =
     mark_dirty (set_observations (gm_set (fst kv) (Some (snd kv)) (observations m)) m)"

definition applyResult ::
  "('q, 'w) runtime \<Rightarrow> Config \<Rightarrow> checkResult \<Rightarrow> time \<Rightarrow> 'w monitor \<times> (string, Finding) go_map \<Rightarrow>
   ('w monitor \<times> (string, Finding) go_map) option" where
  "applyResult rt cfg res now acc =
     (case acc of (m, active) \<Rightarrow>
      case ask (rt_order rt) m of (code, m1) \<Rightarrow>
        collectFindings rt cfg (cr_findings res) now
          (fold merge_observation (permute code (cr_observations res)) m1, active))"

section \<open>Resolving and expiring\<close>

definition resolved_finding :: "Config \<Rightarrow> time \<Rightarrow> string \<Rightarrow> FindingState \<Rightarrow> Finding" where
  "resolved_finding cfg now key state =
     \<lparr>f_Source = sourceName, f_PayloadType = payloadType, f_ID = key, f_Namespace = Namespace cfg,
      f_Kind = fs_Kind state, f_Name = fs_Name state, f_Severity = ''low'',
      f_Classification = ''healthy'', f_Score = 0, f_Check = fs_Check state,
      f_Reason = fs_Reason state, f_Status = ''resolved'', f_FirstSeen = fs_FirstSeen state,
      f_LastSeen = now, f_Evidence = [''deterministic check no longer reports this finding''],
      f_Prediction = [], f_MatchingKubernetesEventFound = False, f_AITriageRequired = False,
      f_CooldownUntil = None\<rparr>"

definition resolve_one ::
  "('q, 'w) runtime \<Rightarrow> Config \<Rightarrow> time \<Rightarrow> (string, Finding) go_map \<Rightarrow> string \<Rightarrow> 'w monitor \<Rightarrow> 'w monitor option" where
  "resolve_one rt cfg now active key m =
     (case gm_get (findings m) key of
        None \<Rightarrow> Some m
      | Some None \<Rightarrow> None
      | Some (Some state) \<Rightarrow>
          if fs_Status state \<noteq> ''ongoing'' then Some m
          else if gm_get active key \<noteq> None then Some m
          else (case publish rt cfg (resolved_finding cfg now key state) m of
              (True, m1) \<Rightarrow> Some (store_finding key (state\<lparr>fs_LastPublishFailed := Some now\<rparr>) m1)
            | (False, m1) \<Rightarrow>
                Some (store_finding key
                  (state\<lparr>fs_Status := ''resolved'', fs_LastSeen := now, fs_Score := 0,
                         fs_Classification := ''healthy'', fs_LastPublished := Some now,
                         fs_LastPublishFailed := None\<rparr>) m1)))"

definition resolveMissingFindings ::
  "('q, 'w) runtime \<Rightarrow> Config \<Rightarrow> time \<Rightarrow> (string, Finding) go_map \<Rightarrow> 'w monitor \<Rightarrow> 'w monitor option" where
  "resolveMissingFindings rt cfg now active m =
     (case ask (rt_order rt) m of (code, m1) \<Rightarrow>
        foldM (resolve_one rt cfg now active) (permute code (gm_keys (findings m1))) m1)"

definition expire_one :: "Config \<Rightarrow> time \<Rightarrow> string \<Rightarrow> 'w monitor \<Rightarrow> 'w monitor option" where
  "expire_one cfg now key m =
     (case gm_get (findings m) key of
        None \<Rightarrow> Some m
      | Some None \<Rightarrow> None
      | Some (Some state) \<Rightarrow>
          if fs_Status state \<noteq> ''resolved'' then Some m
          else if time_sub now (fs_LastSeen state) \<le> ResolvedFindingRetention cfg then Some m
          else Some (mark_dirty (set_findings (gm_del key (findings m)) m)))"

definition expireResolvedFindings ::
  "('q, 'w) runtime \<Rightarrow> Config \<Rightarrow> time \<Rightarrow> 'w monitor \<Rightarrow> 'w monitor option" where
  "expireResolvedFindings rt cfg now m =
     (if ResolvedFindingRetention cfg \<le> 0 then Some m
      else (case ask (rt_order rt) m of (code, m1) \<Rightarrow>
        foldM (expire_one cfg now) (permute code (gm_keys (findings m1))) m1))"

definition classification_count :: "(string, Finding) go_map \<Rightarrow> string \<Rightarrow> int" where
  "classification_count active c = int (length (filter (\<lambda>kv. f_Classification (snd kv) = c) active))"

definition updateActiveMetrics :: "Config \<Rightarrow> (string, Finding) go_map \<Rightarrow> 'w monitor \<Rightarrow> 'w monitor" where
  "updateActiveMetrics cfg active m =
     emit (map (\<lambda>c. SetGauge ''active_findings'' [Namespace cfg, c] (classification_count active c))
              [''watch'', ''suspicious'', ''degraded'', ''incident-likely'']) m"

section \<open>Frames\<close>

lemma set_findings_sel [simp]:
  "findings (set_findings fs m) = fs" "observations (set_findings fs m) = observations m"
  "ms_Version (mn_state (set_findings fs m)) = ms_Version (mn_state m)"
  "ms_Namespace (mn_state (set_findings fs m)) = ms_Namespace (mn_state m)"
  "mn_store (set_findings fs m) = mn_store m" "mn_health (set_findings fs m) = mn_health m"
  "mn_suppressions (set_findings fs m) = mn_suppressions m" "mn_dirty (set_findings fs m) = mn_dirty m"
  "mn_lastWrite (set_findings fs m) = mn_lastWrite m" "mn_cache (set_findings fs m) = mn_cache m"
  "mn_world (set_findings fs m) = mn_world m" "mn_metrics (set_findings fs m) = mn_metrics m"
  "mn_attempts (set_findings fs m) = mn_attempts m"
  by (simp_all add: set_findings_def)

lemma set_observations_sel [simp]:
  "findings (set_observations obs m) = findings m" "observations (set_observations obs m) = obs"
  "ms_Version (mn_state (set_observations obs m)) = ms_Version (mn_state m)"
  "ms_Namespace (mn_state (set_observations obs m)) = ms_Namespace (mn_state m)"
  "mn_store (set_observations obs m) = mn_store m" "mn_health (set_observations obs m) = mn_health m"
  "mn_suppressions (set_observations obs m) = mn_suppressions m" "mn_dirty (set_observations obs m) = mn_dirty m"
  "mn_lastWrite (set_observations obs m) = mn_lastWrite m" "mn_cache (set_observations obs m) = mn_cache m"
  "mn_world (set_observations obs m) = mn_world m" "mn_metrics (set_observations obs m) = mn_metrics m"
  "mn_attempts (set_observations obs m) = mn_attempts m"
  by (simp_all add: set_observations_def)

lemma mark_dirty_sel [simp]:
  "mn_state (mark_dirty m) = mn_state m" "mn_store (mark_dirty m) = mn_store m"
  "mn_health (mark_dirty m) = mn_health m" "mn_suppressions (mark_dirty m) = mn_suppressions m"
  "mn_dirty (mark_dirty m)" "mn_lastWrite (mark_dirty m) = mn_lastWrite m"
  "mn_cache (mark_dirty m) = mn_cache m" "mn_world (mark_dirty m) = mn_world m"
  "mn_metrics (mark_dirty m) = mn_metrics m" "mn_attempts (mark_dirty m) = mn_attempts m"
  by (simp_all add: mark_dirty_def)

lemma emit_sel [simp]:
  "mn_state (emit ms m) = mn_state m" "mn_store (emit ms m) = mn_store m"
  "mn_health (emit ms m) = mn_health m" "mn_suppressions (emit ms m) = mn_suppressions m"
  "mn_dirty (emit ms m) = mn_dirty m" "mn_lastWrite (emit ms m) = mn_lastWrite m"
  "mn_cache (emit ms m) = mn_cache m" "mn_world (emit ms m) = mn_world m"
  "mn_metrics (emit ms m) = mn_metrics m @ ms" "mn_attempts (emit ms m) = mn_attempts m"
  by (simp_all add: emit_def)

lemma ask_sel [simp]:
  "fst (ask g m) = fst (g (mn_world m))" "mn_world (snd (ask g m)) = snd (g (mn_world m))"
  "mn_state (snd (ask g m)) = mn_state m" "mn_store (snd (ask g m)) = mn_store m"
  "mn_health (snd (ask g m)) = mn_health m" "mn_suppressions (snd (ask g m)) = mn_suppressions m"
  "mn_dirty (snd (ask g m)) = mn_dirty m" "mn_lastWrite (snd (ask g m)) = mn_lastWrite m"
  "mn_cache (snd (ask g m)) = mn_cache m" "mn_metrics (snd (ask g m)) = mn_metrics m"
  "mn_attempts (snd (ask g m)) = mn_attempts m"
  by (simp_all add: ask_def split: prod.split)

text \<open>
  What a publish does: exactly one attempt is added, the counters and the world change,
  nothing else does.
\<close>

definition accepted :: "('q, 'w) runtime \<Rightarrow> Finding \<Rightarrow> 'w monitor \<Rightarrow> bool" where
  "accepted rt f m \<longleftrightarrow> fst (rt_publish rt f (mn_world m)) = None"

lemma publish_fst [simp]: "fst (publish rt cfg f m) \<longleftrightarrow> \<not> accepted rt f m"
  by (auto simp: publish_def accepted_def ask_def split: prod.split option.split)

lemma accepted_frame [simp]:
  "accepted rt g (store_finding k st m) = accepted rt g m"
  "accepted rt g (emit ms m) = accepted rt g m"
  by (simp_all add: accepted_def store_finding_def emit_def set_findings_def mark_dirty_def)

lemma publish_sel [simp]:
  "mn_state (snd (publish rt cfg f m)) = mn_state m" "mn_store (snd (publish rt cfg f m)) = mn_store m"
  "mn_health (snd (publish rt cfg f m)) = mn_health m"
  "mn_suppressions (snd (publish rt cfg f m)) = mn_suppressions m"
  "mn_dirty (snd (publish rt cfg f m)) = mn_dirty m" "mn_lastWrite (snd (publish rt cfg f m)) = mn_lastWrite m"
  "mn_cache (snd (publish rt cfg f m)) = mn_cache m"
  "mn_world (snd (publish rt cfg f m)) = snd (rt_publish rt f (mn_world m))"
  "mn_attempts (snd (publish rt cfg f m)) = mn_attempts m @ [(f, accepted rt f m)]"
  by (auto simp: publish_def ask_def accepted_def split: prod.split option.split)

lemma store_finding_sel [simp]:
  "findings (store_finding k st m) = gm_set k (Some st) (findings m)"
  "observations (store_finding k st m) = observations m"
  "ms_Version (mn_state (store_finding k st m)) = ms_Version (mn_state m)"
  "ms_Namespace (mn_state (store_finding k st m)) = ms_Namespace (mn_state m)"
  "mn_store (store_finding k st m) = mn_store m" "mn_health (store_finding k st m) = mn_health m"
  "mn_suppressions (store_finding k st m) = mn_suppressions m" "mn_dirty (store_finding k st m)"
  "mn_lastWrite (store_finding k st m) = mn_lastWrite m" "mn_cache (store_finding k st m) = mn_cache m"
  "mn_world (store_finding k st m) = mn_world m" "mn_attempts (store_finding k st m) = mn_attempts m"
  by (simp_all add: store_finding_def)

lemma merge_observation_sel [simp]:
  "findings (merge_observation kv m) = findings m"
  "observations (merge_observation kv m) = gm_set (fst kv) (Some (snd kv)) (observations m)"
  "ms_Version (mn_state (merge_observation kv m)) = ms_Version (mn_state m)"
  "ms_Namespace (mn_state (merge_observation kv m)) = ms_Namespace (mn_state m)"
  "mn_store (merge_observation kv m) = mn_store m" "mn_health (merge_observation kv m) = mn_health m"
  "mn_suppressions (merge_observation kv m) = mn_suppressions m" "mn_dirty (merge_observation kv m)"
  "mn_lastWrite (merge_observation kv m) = mn_lastWrite m" "mn_cache (merge_observation kv m) = mn_cache m"
  "mn_world (merge_observation kv m) = mn_world m" "mn_attempts (merge_observation kv m) = mn_attempts m"
  by (simp_all add: merge_observation_def)

section \<open>One round of collecting, as a specification\<close>

definition stamped :: "time \<Rightarrow> Finding \<Rightarrow> Finding" where
  "stamped now f = f\<lparr>f_LastSeen := now, f_Status := ''ongoing''\<rparr>"

text \<open>The state a round starts from: the stored one, or a new one.\<close>

definition start_state :: "'w monitor \<Rightarrow> time \<Rightarrow> Finding \<Rightarrow> FindingState option" where
  "start_state m now f =
     (case gm_get (findings m) (f_ID f) of None \<Rightarrow> Some (new_finding_state now (stamped now f)) | Some p \<Rightarrow> p)"

definition outgoing :: "Config \<Rightarrow> time \<Rightarrow> FindingState \<Rightarrow> Finding \<Rightarrow> Finding" where
  "outgoing cfg now state f = triaged cfg now state ((stamped now f)\<lparr>f_FirstSeen := fs_FirstSeen state\<rparr>)"

definition wants_publish :: "Config \<Rightarrow> time \<Rightarrow> bool \<Rightarrow> FindingState \<Rightarrow> Finding \<Rightarrow> bool" where
  "wants_publish cfg now known state f \<longleftrightarrow> changed known state f \<or> triage_due cfg now state f"

text \<open>The state after the round: \<open>sent\<close> is whether something was published and if so with what success.\<close>

definition next_state ::
  "Config \<Rightarrow> time \<Rightarrow> FindingState \<Rightarrow> Finding \<Rightarrow> bool option \<Rightarrow> FindingState" where
  "next_state cfg now state f sent =
     (case sent of
        None \<Rightarrow> seen_again now f state
      | Some False \<Rightarrow> (seen_again now f state)\<lparr>fs_LastPublishFailed := Some now\<rparr>
      | Some True \<Rightarrow>
          (if triage_due cfg now state f
           then (seen_again now f state)\<lparr>fs_LastPublished := Some now, fs_LastPublishFailed := None,
                  fs_LastAIDispatchRequested := Some now, fs_CooldownUntil := Some (now + cooldown_for cfg f)\<rparr>
           else (seen_again now f state)\<lparr>fs_LastPublished := Some now, fs_LastPublishFailed := None\<rparr>))"

lemma triaged_sel [simp]:
  "f_ID (triaged cfg now st f) = f_ID f" "f_Kind (triaged cfg now st f) = f_Kind f"
  "f_Name (triaged cfg now st f) = f_Name f" "f_Check (triaged cfg now st f) = f_Check f"
  "f_Reason (triaged cfg now st f) = f_Reason f" "f_Score (triaged cfg now st f) = f_Score f"
  "f_Classification (triaged cfg now st f) = f_Classification f"
  "f_Status (triaged cfg now st f) = f_Status f" "f_LastSeen (triaged cfg now st f) = f_LastSeen f"
  "f_FirstSeen (triaged cfg now st f) = f_FirstSeen f" "f_Severity (triaged cfg now st f) = f_Severity f"
  "f_Namespace (triaged cfg now st f) = f_Namespace f" "f_Source (triaged cfg now st f) = f_Source f"
  "f_PayloadType (triaged cfg now st f) = f_PayloadType f"
  by (simp_all add: triaged_def)

lemma outgoing_sel [simp]:
  "f_ID (outgoing cfg now st f) = f_ID f" "f_Kind (outgoing cfg now st f) = f_Kind f"
  "f_Name (outgoing cfg now st f) = f_Name f" "f_Check (outgoing cfg now st f) = f_Check f"
  "f_Reason (outgoing cfg now st f) = f_Reason f" "f_Score (outgoing cfg now st f) = f_Score f"
  "f_Classification (outgoing cfg now st f) = f_Classification f"
  "f_Status (outgoing cfg now st f) = ''ongoing''" "f_LastSeen (outgoing cfg now st f) = now"
  "f_FirstSeen (outgoing cfg now st f) = fs_FirstSeen st" "f_Severity (outgoing cfg now st f) = f_Severity f"
  "f_Namespace (outgoing cfg now st f) = f_Namespace f" "f_Source (outgoing cfg now st f) = f_Source f"
  "f_PayloadType (outgoing cfg now st f) = f_PayloadType f"
  by (simp_all add: outgoing_def stamped_def)

lemma triage_stamped [simp]:
  "triage_due cfg now st (f\<lparr>f_LastSeen := t, f_Status := s, f_FirstSeen := u\<rparr>) = triage_due cfg now st f"
  "cooldown_for cfg (f\<lparr>f_LastSeen := t, f_Status := s, f_FirstSeen := u\<rparr>) = cooldown_for cfg f"
  "changed k st (f\<lparr>f_LastSeen := t, f_Status := s, f_FirstSeen := u\<rparr>) = changed k st f"
  "triage_wanted cfg (f\<lparr>f_LastSeen := t, f_Status := s, f_FirstSeen := u\<rparr>) = triage_wanted cfg f"
  by (simp_all add: triage_due_def triage_wanted_def cooldown_for_def changed_def)

lemma gm_set_twice [simp]: "gm_set k v (gm_set k u m) = gm_set k v m"
  by (induction k u m rule: gm_set.induct) auto

text \<open>The round does exactly what the specification says.\<close>

lemma seen_again_triaged [simp]:
  "seen_again now (triaged cfg now st (f\<lparr>f_LastSeen := now, f_Status := ''ongoing'', f_FirstSeen := u\<rparr>)) st
   = seen_again now f st"
  by (simp add: seen_again_def)

theorem collect_finding_spec:
  assumes "\<not> isSuppressed (mn_suppressions m) f" and "start_state m now f = Some st"
    and "w = wants_publish cfg now (gm_get (findings m) (f_ID f) \<noteq> None) st f"
    and "g = outgoing cfg now st f"
  shows "\<exists>m'. collect_finding rt cfg now f (m, active) = Some (m', gm_set (f_ID f) g active) \<and>
    mn_attempts m' = mn_attempts m @ (if w then [(g, accepted rt g m)] else []) \<and>
    findings m' = gm_set (f_ID f)
      (Some (next_state cfg now st f (if w then Some (accepted rt g m) else None))) (findings m) \<and>
    observations m' = observations m \<and> mn_dirty m' \<and>
    mn_world m' = (if w then snd (rt_publish rt g (mn_world m)) else mn_world m) \<and>
    ms_Version (mn_state m') = ms_Version (mn_state m) \<and>
    ms_Namespace (mn_state m') = ms_Namespace (mn_state m) \<and>
    mn_store m' = mn_store m \<and> mn_health m' = mn_health m \<and> mn_suppressions m' = mn_suppressions m \<and>
    mn_lastWrite m' = mn_lastWrite m \<and> mn_cache m' = mn_cache m"
proof -
  let ?f1 = "f\<lparr>f_LastSeen := now, f_Status := ''ongoing''\<rparr>"
  let ?known = "gm_get (findings m) (f_ID f) \<noteq> None"
  have st: "(case gm_get (findings m) (f_ID f) of None \<Rightarrow> Some (new_finding_state now ?f1) | Some p \<Rightarrow> p) = Some st"
    using assms(2) unfolding start_state_def stamped_def .
  have g: "triaged cfg now st (?f1\<lparr>f_FirstSeen := fs_FirstSeen st\<rparr>) = g"
    by (simp add: assms(4) outgoing_def stamped_def)
  have w: "w = (changed ?known st f \<or> triage_due cfg now st f)"
    by (simp add: assms(3) wants_publish_def)
  have sa: "seen_again now g st = seen_again now f st" by (simp add: assms(4) seen_again_def)
  have idg: "f_ID g = f_ID f" by (simp add: assms(4))
  show ?thesis
    using assms(1) st
    by (cases "accepted rt g m"; cases "triage_due cfg now st f"; cases "changed ?known st f")
       (simp_all add: collect_finding_def Let_def g sa idg w next_state_def split_beta)
qed

section \<open>The contract of the steps of a poll\<close>

text \<open>
  Every step a poll takes on the monitor shares a contract: on a well-formed state it returns
  (there is no nil dereference and no endless loop) with a well-formed state, and what it did
  is described by a relation that composes.
\<close>

locale evolution =
  fixes rel :: "'w monitor \<Rightarrow> 'w monitor \<Rightarrow> bool"
  assumes rel_refl: "rel m m"
    and rel_trans: "rel m m1 \<Longrightarrow> rel m1 m2 \<Longrightarrow> rel m m2"

locale poll_step = evolution rel for rel :: "'w monitor \<Rightarrow> 'w monitor \<Rightarrow> bool" +
  fixes mon :: "'s \<Rightarrow> 'w monitor"
    and admissible :: "'x \<Rightarrow> bool"
    and act :: "'x \<Rightarrow> 's \<Rightarrow> 's option"
  assumes act_returns: "admissible x \<Longrightarrow> state_wf (mn_state (mon s)) \<Longrightarrow>
    \<exists>s'. act x s = Some s' \<and> state_wf (mn_state (mon s')) \<and> rel (mon s) (mon s')"
begin

lemma loop_returns:
  assumes "list_all admissible xs" and "state_wf (mn_state (mon s))"
  shows "\<exists>s'. foldM act xs s = Some s' \<and> state_wf (mn_state (mon s')) \<and> rel (mon s) (mon s')"
proof -
  have "\<exists>s'. foldM act xs s = Some s' \<and> (state_wf (mn_state (mon s')) \<and> rel (mon s) (mon s'))"
  proof (rule foldM_total)
    show "state_wf (mn_state (mon s)) \<and> rel (mon s) (mon s)" using assms(2) rel_refl by simp
  next
    fix x t
    assume "x \<in> set xs" and t: "state_wf (mn_state (mon t)) \<and> rel (mon s) (mon t)"
    then have "admissible x" using assms(1) by (simp add: list_all_iff)
    with t show "\<exists>u. act x t = Some u \<and> (state_wf (mn_state (mon u)) \<and> rel (mon s) (mon u))"
      using act_returns rel_trans by blast
  qed
  then show ?thesis by simp
qed

lemma loop_respects:
  "foldM act xs s = Some s' \<Longrightarrow> list_all admissible xs \<Longrightarrow> state_wf (mn_state (mon s)) \<Longrightarrow>
   state_wf (mn_state (mon s')) \<and> rel (mon s) (mon s')"
  using loop_returns[of xs s] by simp

end

text \<open>
  The relation for persistence and publishing: a step that changes the state marks it dirty;
  it does not touch the store, the time of the last write, or the version and namespace of
  the state; it only adds to the record of
  publish attempts, and every finding it tries to publish is a good one.
\<close>

definition evolves :: "(Finding \<Rightarrow> bool) \<Rightarrow> 'w monitor \<Rightarrow> 'w monitor \<Rightarrow> bool" where
  "evolves good m m' \<longleftrightarrow>
     (mn_dirty m' \<or> mn_state m' = mn_state m \<and> \<not> mn_dirty m) \<and>
     mn_store m' = mn_store m \<and> mn_lastWrite m' = mn_lastWrite m \<and>
     ms_Version (mn_state m') = ms_Version (mn_state m) \<and> ms_Namespace (mn_state m') = ms_Namespace (mn_state m) \<and>
     (\<exists>xs. mn_attempts m' = mn_attempts m @ xs \<and> list_all (\<lambda>a. good (fst a)) xs)"

interpretation evolves: evolution "evolves good" for good
proof
  show "evolves good m m" for m :: "'a monitor"
    by (simp add: evolves_def)
  show "evolves good m m2" if "evolves good m m1" "evolves good m1 m2" for m m1 m2 :: "'a monitor"
    using that by (fastforce simp: evolves_def)
qed

text \<open>The relation for resolution: a resolved finding was there before, unchanged.\<close>

definition resolves_nothing :: "'w monitor \<Rightarrow> 'w monitor \<Rightarrow> bool" where
  "resolves_nothing m m' \<longleftrightarrow>
     (\<forall>k st. gm_get (findings m') k = Some (Some st) \<longrightarrow> fs_Status st = ''resolved'' \<longrightarrow>
        gm_get (findings m) k = Some (Some st))"

interpretation resolves_nothing: evolution resolves_nothing
  by unfold_locales (auto simp: resolves_nothing_def)

text \<open>The two together, and what they say about single writes.\<close>

definition quiet :: "(Finding \<Rightarrow> bool) \<Rightarrow> 'w monitor \<Rightarrow> 'w monitor \<Rightarrow> bool" where
  "quiet good m m' \<longleftrightarrow> evolves good m m' \<and> resolves_nothing m m'"

interpretation quiet: evolution "quiet good" for good
  by unfold_locales
     (auto simp: quiet_def evolves.rel_refl resolves_nothing.rel_refl
       intro: evolves.rel_trans resolves_nothing.rel_trans)

lemma state_wf_findings [wf_intros]:
  assumes "state_wf s" and "gm_wf fs" and "\<And>k. gm_get fs k = Some None \<Longrightarrow> gm_get (ms_Findings s) k = Some None"
  shows "state_wf (s\<lparr>ms_Findings := fs\<rparr>)"
  using assms unfolding state_wf_def by auto

lemma state_wf_set_finding [wf_intros]:
  "state_wf (mn_state m) \<Longrightarrow> state_wf (mn_state (store_finding k st m))"
  by (auto simp: state_wf_def go_map_simps)

lemma state_wf_del_finding [wf_intros]:
  "state_wf (mn_state m) \<Longrightarrow> state_wf (mn_state (set_findings (gm_del k (findings m)) m))"
  by (auto simp: state_wf_def go_map_simps)

lemma state_wf_merge [wf_intros]:
  "state_wf (mn_state m) \<Longrightarrow> fst kv \<noteq> [] \<Longrightarrow> state_wf (mn_state (merge_observation kv m))"
  by (auto simp: state_wf_def go_map_simps)

lemma wf_no_nil: "state_wf (mn_state m) \<Longrightarrow> gm_get (findings m) k \<noteq> Some None"
  by (simp add: state_wf_def)

lemma wf_maps:
  "state_wf (mn_state m) \<Longrightarrow> gm_wf (findings m)" "state_wf (mn_state m) \<Longrightarrow> gm_wf (observations m)"
  by (simp_all add: state_wf_def)

section \<open>The steps keep the contract\<close>

text \<open>What a published finding looks like.\<close>

definition published_ok :: "string \<Rightarrow> Finding \<Rightarrow> bool" where
  "published_ok ns f \<longleftrightarrow>
     f_Source f = sourceName \<and> f_PayloadType f = payloadType \<and> f_Namespace f = ns \<and>
     (f_Status f = ''ongoing'' \<and>
        f_ID f = findingID ns (f_Kind f) (f_Name f) (f_Check f) (f_Reason f) \<and>
        0 < f_Score f \<and> f_Score f \<le> 100 \<and>
        f_Severity f = severityForScore (f_Score f) \<and>
        f_Classification f = classificationForScore (f_Score f) \<and>
        (f_AITriageRequired f \<longrightarrow> f_CooldownUntil f \<noteq> None)
      \<or> f_Status f = ''resolved'' \<and> f_Score f = 0 \<and> f_Severity f = ''low'' \<and>
        f_Classification f = ''healthy'' \<and> \<not> f_AITriageRequired f)"

definition reports :: "string \<Rightarrow> Finding \<Rightarrow> bool" where
  "reports ns f \<longleftrightarrow> published_ok ns f \<and> f_Status f = ''ongoing''"

lemma reports_outgoing: "finding_ok ns f \<Longrightarrow> reports ns (outgoing cfg now st f)"
  by (auto simp: reports_def published_ok_def finding_ok_def)
     (auto simp: outgoing_def triaged_def stamped_def split: if_splits)

lemma published_ok_resolved: "published_ok (Namespace cfg) (resolved_finding cfg now k st)"
  by (simp add: published_ok_def resolved_finding_def)

lemma quiet_mono: "quiet good m m' \<Longrightarrow> (\<And>f. good f \<Longrightarrow> good' f) \<Longrightarrow> quiet good' m m'"
  by (auto simp: quiet_def evolves_def list_all_iff)

lemma evolves_mono: "evolves good m m' \<Longrightarrow> (\<And>f. good f \<Longrightarrow> good' f) \<Longrightarrow> evolves good' m m'"
  by (auto simp: evolves_def list_all_iff)

lemma quiet_ask [simp]: "quiet good m (snd (ask g m))"
  by (simp add: quiet_def evolves_def resolves_nothing_def)

lemma quiet_emit [simp]: "quiet good m (emit ms m)"
  by (simp add: quiet_def evolves_def resolves_nothing_def)

lemma start_state_wf:
  "state_wf (mn_state m) \<Longrightarrow> \<exists>st. start_state m now f = Some st"
  using wf_no_nil[of m "f_ID f"] by (auto simp: start_state_def split: option.split)

interpretation collecting: poll_step "quiet (reports ns)" fst "finding_ok ns" "collect_finding rt cfg now"
  for ns and rt :: "('q, 'w) runtime" and cfg now
proof
  fix f :: Finding and s :: "'w monitor \<times> (string, Finding) go_map"
  assume ok: "finding_ok ns f" and wf: "state_wf (mn_state (fst s))"
  obtain m active where s: "s = (m, active)" by (cases s)
  show "\<exists>s'. collect_finding rt cfg now f s = Some s' \<and> state_wf (mn_state (fst s')) \<and>
      quiet (reports ns) (fst s) (fst s')"
  proof (cases "isSuppressed (mn_suppressions m) f")
    case True
    then show ?thesis using wf by (simp add: s collect_finding_def quiet.rel_refl)
  next
    case False
    obtain st where st: "start_state m now f = Some st" using start_state_wf wf s by fastforce
    define g where "g = outgoing cfg now st f"
    define w where "w = wants_publish cfg now (gm_get (findings m) (f_ID f) \<noteq> None) st f"
    define xs where "xs = (if w then [(g, accepted rt g m)] else [])"
    define sent where "sent = (if w then Some (accepted rt g m) else None)"
    obtain m' where
      r: "collect_finding rt cfg now f (m, active) = Some (m', gm_set (f_ID f) g active)"
      and m': "mn_attempts m' = mn_attempts m @ xs"
        "findings m' = gm_set (f_ID f) (Some (next_state cfg now st f sent)) (findings m)"
        "observations m' = observations m" "mn_dirty m'" "mn_store m' = mn_store m"
        "mn_lastWrite m' = mn_lastWrite m"
        "ms_Version (mn_state m') = ms_Version (mn_state m)" "ms_Namespace (mn_state m') = ms_Namespace (mn_state m)"
      using collect_finding_spec[OF False st w_def g_def, of rt active] unfolding xs_def sent_def by blast
    have xs: "list_all (\<lambda>a. reports ns (fst a)) xs"
      using reports_outgoing[OF ok] by (simp add: xs_def g_def)
    have "fs_Status (next_state cfg now st f sent) = ''ongoing''"
      by (simp add: next_state_def seen_again_def split: option.split bool.split)
    then have "quiet (reports ns) m m'"
      using m' xs wf by (auto simp: quiet_def evolves_def resolves_nothing_def s wf_maps go_map_simps split: if_splits)
    moreover have "state_wf (mn_state m')"
      using wf m' by (auto simp: state_wf_def s go_map_simps)
    ultimately show ?thesis using r s by simp
  qed
qed

interpretation resolving: poll_step "evolves (published_ok (Namespace cfg))" "\<lambda>m. m" "\<lambda>k. True"
  "resolve_one rt cfg now active" for rt :: "('q, 'w) runtime" and cfg now active
proof
  fix k and m :: "'w monitor"
  assume wf: "state_wf (mn_state m)"
  then have nil: "gm_get (findings m) k \<noteq> Some None" by (rule wf_no_nil)
  show "\<exists>m'. resolve_one rt cfg now active k m = Some m' \<and> state_wf (mn_state m') \<and>
      evolves (published_ok (Namespace cfg)) m m'"
  proof (cases "\<exists>st. gm_get (findings m) k = Some (Some st) \<and> fs_Status st = ''ongoing'' \<and> gm_get active k = None")
    case True
    then obtain st where st: "gm_get (findings m) k = Some (Some st)" "fs_Status st = ''ongoing''"
      "gm_get active k = None" by blast
    obtain st' where "resolve_one rt cfg now active k m =
        Some (store_finding k st' (snd (publish rt cfg (resolved_finding cfg now k st) m)))"
      using st by (cases "accepted rt (resolved_finding cfg now k st) m")
        (simp_all add: resolve_one_def split_beta)
    then show ?thesis
      using wf by (simp add: evolves_def published_ok_resolved wf_intros)
  next
    case False
    then have "resolve_one rt cfg now active k m = Some m"
      using nil by (auto simp: resolve_one_def split: option.splits)
    then show ?thesis using wf by (simp add: evolves.rel_refl)
  qed
qed

interpretation expiring: poll_step "quiet (\<lambda>f. False)" "\<lambda>m. m" "\<lambda>k. True" "expire_one cfg now" for cfg now
proof
  fix k and m :: "'b monitor"
  assume wf: "state_wf (mn_state m)"
  then have nil: "gm_get (findings m) k \<noteq> Some None" by (rule wf_no_nil)
  have "quiet (\<lambda>f. False) m (mark_dirty (set_findings (gm_del k (findings m)) m))"
    using wf by (auto simp: quiet_def evolves_def resolves_nothing_def wf_maps go_map_simps split: if_splits)
  then show "\<exists>m'. expire_one cfg now k m = Some m' \<and> state_wf (mn_state m') \<and> quiet (\<lambda>f. False) m m'"
    using wf nil
    by (auto simp: expire_one_def quiet.rel_refl wf_intros split: option.split)
qed

interpretation merging: poll_step "quiet (\<lambda>f. False)" "\<lambda>m. m" "\<lambda>kv. fst kv \<noteq> []"
  "\<lambda>kv m. Some (merge_observation kv m)"
  by unfold_locales (auto simp: wf_intros quiet_def evolves_def resolves_nothing_def)

end
