(* ===== verification/Finding_Lifecycle.thy ===== *)
theory Finding_Lifecycle
  imports Monitor_Core
begin

text \<open>
  What the monitor promises about a finding from its first report to its resolution: when it
  is published, how suppressions select, what a complete poll resolves.
\<close>

section \<open>Whole operations keep the contract\<close>

definition result_ok :: "string \<Rightarrow> checkResult \<Rightarrow> bool" where
  "result_ok ns res \<longleftrightarrow> list_all (finding_ok ns) (cr_findings res) \<and>
     gm_wf (cr_observations res) \<and> gm_get (cr_observations res) [] = None"

lemma result_ok_keys: "result_ok ns res \<Longrightarrow> kv \<in> set (cr_observations res) \<Longrightarrow> fst kv \<noteq> []"
  by (cases kv) (auto simp: result_ok_def gm_get_def map_of_eq_None_iff image_iff)

lemma result_ok_incomplete [simp]: "result_ok ns incomplete"
  by (simp add: result_ok_def incomplete_def)

lemma foldM_Some: "foldM (\<lambda>x s. Some (f x s)) xs s = Some (fold f xs s)"
  by (induction xs arbitrary: s) simp_all

lemma merge_loop:
  assumes "state_wf (mn_state m)" and "\<And>kv. kv \<in> set kvs \<Longrightarrow> fst kv \<noteq> []"
  shows "state_wf (mn_state (fold merge_observation kvs m)) \<and>
    quiet (\<lambda>f. False) m (fold merge_observation kvs m)"
  using merging.loop_returns[of kvs m] assms by (simp add: foldM_Some list_all_iff)

lemma merge_frame [simp]:
  "findings (fold merge_observation kvs m) = findings m"
  "mn_suppressions (fold merge_observation kvs m) = mn_suppressions m"
  "mn_attempts (fold merge_observation kvs m) = mn_attempts m"
  by (induction kvs arbitrary: m) simp_all

lemma applyResult_returns:
  assumes "result_ok ns res" and "state_wf (mn_state (fst s))"
  shows "\<exists>s'. applyResult rt cfg res now s = Some s' \<and> state_wf (mn_state (fst s')) \<and>
    quiet (reports ns) (fst s) (fst s')"
proof -
  obtain m active where s: "s = (m, active)" by (cases s)
  obtain code m1 where a: "ask (rt_order rt) m = (code, m1)" by (cases "ask (rt_order rt) m")
  have m1: "mn_state m1 = mn_state m" "quiet (reports ns) m m1"
    using ask_sel(3)[of "rt_order rt" m] quiet_ask[of "reports ns" m "rt_order rt"] a by auto
  define m2 where "m2 = fold merge_observation (permute code (cr_observations res)) m1"
  have m2: "state_wf (mn_state m2)" "quiet (reports ns) m1 m2"
    using merge_loop[of m1 "permute code (cr_observations res)"] result_ok_keys[OF assms(1)] assms(2) m1(1)
    by (auto simp: s m2_def intro: quiet_mono)
  obtain s' where s': "foldM (collect_finding rt cfg now) (cr_findings res) (m2, active) = Some s'"
    "state_wf (mn_state (fst s'))" "quiet (reports ns) m2 (fst s')"
    using collecting.loop_returns[of ns "cr_findings res" "(m2, active)" rt cfg now] assms(1) m2(1)
    by (auto simp: result_ok_def)
  then have "applyResult rt cfg res now s = Some s'"
    by (simp add: applyResult_def s a collectFindings_def m2_def)
  moreover have "quiet (reports ns) m (fst s')"
    using m1(2) m2(2) s'(3) quiet.rel_trans by blast
  ultimately show ?thesis using s'(2) s by auto
qed

text \<open>The client side of the checks' contract: the result of any family can be applied.\<close>

context check_family
begin

lemma run_result_ok: "result_ok (Namespace cfg) (snd (run cfg snap))"
  using reports_ok deltas_wf deltas_key by (auto simp: result_ok_def list_all_iff)

lemma apply_run:
  "state_wf (mn_state (fst s)) \<Longrightarrow>
   \<exists>s'. applyResult rt cfg (snd (run cfg snap)) now s = Some s' \<and> state_wf (mn_state (fst s')) \<and>
     quiet (reports (Namespace cfg)) (fst s) (fst s')"
  using run_result_ok by (rule applyResult_returns)

end

lemma resolveMissingFindings_returns:
  assumes "state_wf (mn_state m)"
  shows "\<exists>m'. resolveMissingFindings rt cfg now active m = Some m' \<and> state_wf (mn_state m') \<and>
    evolves (published_ok (Namespace cfg)) m m'"
proof -
  obtain code m1 where a: "ask (rt_order rt) m = (code, m1)" by (cases "ask (rt_order rt) m")
  have m1: "mn_state m1 = mn_state m" "evolves (published_ok (Namespace cfg)) m m1"
    using ask_sel(3)[of "rt_order rt" m] quiet_ask[of "published_ok (Namespace cfg)" m "rt_order rt"] a
    by (auto simp: quiet_def)
  show ?thesis
    using resolving.loop_returns[of "permute code (gm_keys (findings m1))" m1 rt cfg now active] assms m1
    by (auto simp: resolveMissingFindings_def a list_all_iff intro: evolves.rel_trans)
qed

lemma expireResolvedFindings_returns:
  assumes "state_wf (mn_state m)"
  shows "\<exists>m'. expireResolvedFindings rt cfg now m = Some m' \<and> state_wf (mn_state m') \<and>
    quiet (\<lambda>f. False) m m'"
proof -
  obtain code m1 where a: "ask (rt_order rt) m = (code, m1)" by (cases "ask (rt_order rt) m")
  have m1: "mn_state m1 = mn_state m" "quiet (\<lambda>f. False) m m1"
    using ask_sel(3)[of "rt_order rt" m] quiet_ask[of "\<lambda>f. False" m "rt_order rt"] a by auto
  show ?thesis
    using expiring.loop_returns[of "permute code (gm_keys (findings m1))" m1 cfg now] assms m1
    by (auto simp: expireResolvedFindings_def a list_all_iff quiet.rel_refl intro: quiet.rel_trans)
qed

section \<open>Resolution, exactly\<close>

definition ongoing :: "'w monitor \<Rightarrow> string \<Rightarrow> bool" where
  "ongoing m k \<longleftrightarrow> (\<exists>st. gm_get (findings m) k = Some (Some st) \<and> fs_Status st = ''ongoing'')"

definition state_of :: "'w monitor \<Rightarrow> string \<Rightarrow> FindingState" where
  "state_of m k = the (the (gm_get (findings m) k))"

definition missing :: "(string, Finding) go_map \<Rightarrow> 'w monitor \<Rightarrow> string \<Rightarrow> bool" where
  "missing active m k \<longleftrightarrow> ongoing m k \<and> gm_get active k = None"

text \<open>The state of a finding whose resolution was published, or could not be.\<close>

definition after_resolution :: "time \<Rightarrow> bool \<Rightarrow> FindingState \<Rightarrow> FindingState" where
  "after_resolution now ok st =
     (if ok then st\<lparr>fs_Status := ''resolved'', fs_LastSeen := now, fs_Score := 0,
                     fs_Classification := ''healthy'', fs_LastPublished := Some now,
                     fs_LastPublishFailed := None\<rparr>
      else st\<lparr>fs_LastPublishFailed := Some now\<rparr>)"

lemma resolve_one_missing:
  assumes "missing active m k" and g_def: "g = resolved_finding cfg now k (state_of m k)"
  shows "resolve_one rt cfg now active k m =
    Some (store_finding k (after_resolution now (accepted rt g m) (state_of m k)) (snd (publish rt cfg g m)))"
proof -
  obtain st where st: "gm_get (findings m) k = Some (Some st)" "fs_Status st = ''ongoing''" "gm_get active k = None"
    using assms(1) by (auto simp: missing_def ongoing_def)
  then have "state_of m k = st" by (simp add: state_of_def)
  with st show ?thesis
    by (cases "accepted rt g m") (simp_all add: resolve_one_def g_def after_resolution_def split_beta)
qed

lemma resolve_one_other:
  "state_wf (mn_state m) \<Longrightarrow> \<not> missing active m k \<Longrightarrow> resolve_one rt cfg now active k m = Some m"
  using wf_no_nil[of m k]
  by (auto simp: resolve_one_def missing_def ongoing_def split: option.split)

lemma resolve_loop:
  assumes "distinct ks" and "state_wf (mn_state m)" and "foldM (resolve_one rt cfg now active) ks m = Some m'"
  shows "\<exists>fate. mn_attempts m' = mn_attempts m @
      map (\<lambda>k. (resolved_finding cfg now k (state_of m k), fate k)) (filter (missing active m) ks) \<and>
    (\<forall>k. gm_get (findings m') k =
      (if k \<in> set ks \<and> missing active m k then Some (Some (after_resolution now (fate k) (state_of m k)))
       else gm_get (findings m) k))"
  using assms
proof (induction ks arbitrary: m)
  case Nil
  then show ?case by simp
next
  case (Cons k ks)
  note wf = wf_maps(1)[OF Cons.prems(2)]
  show ?case
  proof (cases "missing active m k")
    case False
    then have "resolve_one rt cfg now active k m = Some m"
      using Cons.prems(2) by (rule resolve_one_other[rotated])
    then have "foldM (resolve_one rt cfg now active) ks m = Some m'" using Cons.prems(3) by simp
    from Cons.IH[OF _ Cons.prems(2) this] Cons.prems(1) False show ?thesis by auto
  next
    case True
    define g where "g = resolved_finding cfg now k (state_of m k)"
    define ok where "ok = accepted rt g m"
    define m1 where "m1 = store_finding k (after_resolution now ok (state_of m k)) (snd (publish rt cfg g m))"
    have step: "resolve_one rt cfg now active k m = Some m1"
      unfolding m1_def ok_def by (rule resolve_one_missing[OF True g_def])
    have m1: "state_wf (mn_state m1)"
      using Cons.prems(2) by (simp add: m1_def wf_intros)
    have get: "gm_get (findings m1) j =
        (if j = k then Some (Some (after_resolution now ok (state_of m k))) else gm_get (findings m) j)" for j
      using wf by (simp add: m1_def go_map_simps)
    have a1: "mn_attempts m1 = mn_attempts m @ [(g, ok)]" by (simp add: m1_def ok_def)
    have same: "missing active m1 j = missing active m j" "state_of m1 j = state_of m j" if "j \<in> set ks" for j
    proof -
      have "j \<noteq> k" using that Cons.prems(1) by auto
      then show "missing active m1 j = missing active m j" "state_of m1 j = state_of m j"
        by (simp_all add: missing_def ongoing_def state_of_def get)
    qed
    obtain fate where fate: "mn_attempts m' = mn_attempts m1 @
        map (\<lambda>k. (resolved_finding cfg now k (state_of m1 k), fate k)) (filter (missing active m1) ks)"
      "\<And>j. gm_get (findings m') j =
        (if j \<in> set ks \<and> missing active m1 j then Some (Some (after_resolution now (fate j) (state_of m1 j)))
         else gm_get (findings m1) j)"
      using Cons.IH[OF _ m1] Cons.prems(1,3) step by auto
    have k: "k \<notin> set ks" using Cons.prems(1) by simp
    have att: "map (\<lambda>k. (resolved_finding cfg now k (state_of m1 k), fate k)) (filter (missing active m1) ks) =
        map (\<lambda>j. (resolved_finding cfg now j (state_of m j), (fate(k := ok)) j)) (filter (missing active m) ks)"
      using same k by (intro map_cong filter_cong) auto
    show ?thesis
    proof (intro exI[of _ "fate(k := ok)"] conjI allI)
      show "mn_attempts m' = mn_attempts m @
          map (\<lambda>j. (resolved_finding cfg now j (state_of m j), (fate(k := ok)) j)) (filter (missing active m) (k # ks))"
        using True by (simp add: fate(1) att a1 g_def)
      show "gm_get (findings m') j =
          (if j \<in> set (k # ks) \<and> missing active m j
           then Some (Some (after_resolution now ((fate(k := ok)) j) (state_of m j)))
           else gm_get (findings m) j)" for j
        using True same k by (auto simp: fate(2) get)
    qed
  qed
qed

text \<open>The whole loop, in whatever order it runs.\<close>

lemma resolve_missing_spec:
  assumes "state_wf (mn_state m)" and "resolveMissingFindings rt cfg now active m = Some m'"
  shows "\<exists>ids fate. distinct ids \<and>
    set ids = {k. ongoing m k \<and> gm_get active k = None} \<and>
    mn_attempts m' = mn_attempts m @ map (\<lambda>k. (resolved_finding cfg now k (state_of m k), fate k)) ids \<and>
    (\<forall>k. gm_get (findings m') k =
      (if k \<in> set ids then Some (Some (after_resolution now (fate k) (state_of m k)))
       else gm_get (findings m) k))"
proof -
  obtain code m1 where a: "ask (rt_order rt) m = (code, m1)" by (cases "ask (rt_order rt) m")
  have m1: "mn_state m1 = mn_state m" "mn_attempts m1 = mn_attempts m"
    using ask_sel(3,11)[of "rt_order rt" m] a by auto
  have same: "missing active m1 = missing active m" "state_of m1 = state_of m"
    by (simp_all add: missing_def ongoing_def state_of_def m1 fun_eq_iff)
  let ?ks = "permute code (gm_keys (findings m))"
  have ks: "distinct ?ks" "set ?ks = dom (gm_get (findings m))"
    using wf_maps(1)[OF assms(1)] by (simp_all add: gm.distinct_keys gm.set_keys)
  have "foldM (resolve_one rt cfg now active) ?ks m1 = Some m'"
    using assms(2) by (simp add: resolveMissingFindings_def a m1)
  with assms(1) obtain fate where fate:
    "mn_attempts m' = mn_attempts m @
       map (\<lambda>k. (resolved_finding cfg now k (state_of m k), fate k)) (filter (missing active m) ?ks)"
    "\<forall>k. gm_get (findings m') k =
       (if k \<in> set ?ks \<and> missing active m k then Some (Some (after_resolution now (fate k) (state_of m k)))
        else gm_get (findings m) k)"
    using resolve_loop[OF ks(1), of m1 rt cfg now active m', unfolded same m1] by blast
  show ?thesis
    by (rule exI[of _ "filter (missing active m) ?ks"], rule exI[of _ fate])
       (use ks fate in \<open>auto simp: missing_def ongoing_def dom_def\<close>)
qed

section \<open>A concrete environment\<close>

text \<open>
  A runtime for witnesses: the clock stands still, maps are visited in the order of their
  lists, the API is the one-object cluster and the broker either takes everything or nothing.
\<close>

definition quiet_listing :: "int listing" where
  "quiet_listing = \<lparr>li_pods = Some [web_pod], li_events = Some [], li_deployments = Some [],
     li_statefulSets = Some [], li_daemonSets = Some [], li_services = Some [], li_pvcs = Some [],
     li_hpas = Some []\<rparr>"

definition demo_runtime :: "bool \<Rightarrow> codec \<Rightarrow> (int, cluster) runtime" where
  "demo_runtime up co = \<lparr>rt_clock = (\<lambda>w. (unix_epoch + 1000, w)), rt_order = (\<lambda>w. ([], w)),
     rt_api = cluster_api, rt_codec = co,
     rt_publish = (\<lambda>f w. (if up then None else Some ''down'', w)),
     rt_list = (\<lambda>w. ((quiet_listing, True), w)), rt_race = (\<lambda>n w. (Delivered False, w)),
     rt_logs = (\<lambda>w. (\<lambda>p c. None, w)), rt_metrics = (\<lambda>w. (None, w)),
     rt_dynamic = (\<lambda>w. (None, w)), rt_discovery = (\<lambda>w. (None, w)), rt_deps = int_deps\<rparr>"

definition demo_monitor :: "MonitorState \<Rightarrow> cluster monitor" where
  "demo_monitor s = NewMonitor (NewStateStore ''ns'' ''st'') s None foreign_cluster"

definition demo_finding :: "int \<Rightarrow> Finding" where
  "demo_finding score = NewFinding ''ns'' ''Pod'' ''web'' ''pod-health'' ''not-ready'' score []"

abbreviation demo_config :: Config where
  "demo_config \<equiv> LoadConfig (\<lambda>_. [])"

lemma demo_runtime_sel [simp]:
  "rt_publish (demo_runtime up co) f w = (if up then None else Some ''down'', w)"
  "rt_clock (demo_runtime up co) w = (unix_epoch + 1000, w)"
  "rt_order (demo_runtime up co) w = ([], w)" "rt_api (demo_runtime up co) = cluster_api"
  "rt_codec (demo_runtime up co) = co" "rt_list (demo_runtime up co) w = ((quiet_listing, True), w)"
  "rt_race (demo_runtime up co) n w = (Delivered False, w)"
  "rt_logs (demo_runtime up co) w = (\<lambda>p c. None, w)" "rt_metrics (demo_runtime up co) w = (None, w)"
  "rt_dynamic (demo_runtime up co) w = (None, w)" "rt_discovery (demo_runtime up co) w = (None, w)"
  "rt_deps (demo_runtime up co) = int_deps"
  by (simp_all add: demo_runtime_def)

lemma demo_monitor_sel [simp]:
  "mn_state (demo_monitor s) = s" "mn_suppressions (demo_monitor s) = None"
  "mn_attempts (demo_monitor s) = []" "\<not> mn_dirty (demo_monitor s)" "mn_health (demo_monitor s) = None"
  "mn_store (demo_monitor s) = NewStateStore ''ns'' ''st''" "mn_world (demo_monitor s) = foreign_cluster"
  "mn_lastWrite (demo_monitor s) = 0"
  by (simp_all add: demo_monitor_def NewMonitor_def)

lemma not_suppressed_None [simp]: "\<not> isSuppressed None f"
  by (simp add: isSuppressed_def)

lemma accepted_demo [simp]: "accepted (demo_runtime up co) f m = up"
  by (simp add: accepted_def)

lemma new_state_sel [simp]:
  "ms_Findings (newMonitorState ns) = []" "ms_Observations (newMonitorState ns) = []"
  "ms_Version (newMonitorState ns) = 1" "ms_Namespace (newMonitorState ns) = ns"
  by (simp_all add: newMonitorState_def)

lemma start_state_exists:
  "gm_get (findings m) (f_ID f) \<noteq> Some None \<Longrightarrow> \<exists>st. start_state m now f = Some st"
  by (auto simp: start_state_def split: option.split)

lemma collect_frame:
  assumes "collect_finding rt cfg now f (m, active) = Some (m', active')"
  shows "mn_suppressions m' = mn_suppressions m \<and> mn_store m' = mn_store m \<and> observations m' = observations m"
proof (cases "isSuppressed (mn_suppressions m) f")
  case True
  with assms show ?thesis by (simp add: collect_finding_def)
next
  case False
  show ?thesis
  proof (cases "start_state m now f")
    case None
    with assms False show ?thesis
      unfolding collect_finding_def start_state_def stamped_def by (simp add: Let_def)
  next
    case (Some st)
    from collect_finding_spec[OF False Some refl refl, of rt cfg active] assms show ?thesis by auto
  qed
qed

text \<open>What a round leaves behind when its publish is refused.\<close>

lemma collect_refused:
  assumes "gm_wf (findings m)" "\<not> isSuppressed (mn_suppressions m) f"
    and "collect_finding rt cfg now f (m, active) = Some (m1, active1)"
    and "mn_attempts m1 = mn_attempts m @ [(g, False)]"
  obtains st where "start_state m now f = Some st" "g = outgoing cfg now st f"
    "gm_get (findings m1) (f_ID f) = Some (Some ((seen_again now f st)\<lparr>fs_LastPublishFailed := Some now\<rparr>))"
proof (cases "start_state m now f")
  case None
  then show ?thesis using assms(2,3) unfolding collect_finding_def start_state_def stamped_def by (simp add: Let_def)
next
  case (Some st)
  from collect_finding_spec[OF assms(2) Some refl refl, of rt cfg active] assms(1,3,4)
  have "g = outgoing cfg now st f"
    "gm_get (findings m1) (f_ID f) = Some (Some ((seen_again now f st)\<lparr>fs_LastPublishFailed := Some now\<rparr>))"
    by (auto simp: go_map_simps next_state_def split: if_splits)
  with Some that show ?thesis by blast
qed

lemma seen_again_cooldown [simp]: "fs_CooldownUntil (seen_again now f st) = fs_CooldownUntil st"
  by (simp add: seen_again_def)

lemma suppression_keys:
  "gm_wf s \<Longrightarrow> gm_wf (fold (\<lambda>kv s. gm_set (g (fst kv)) () s) d s) \<and>
   (gm_get (fold (\<lambda>kv s. gm_set (g (fst kv)) () s) d s) c \<noteq> None \<longleftrightarrow>
    gm_get s c \<noteq> None \<or> (\<exists>kv \<in> set d. g (fst kv) = c))"
  by (induction d arbitrary: s) (auto simp: go_map_simps)

lemma demo_config_sel [simp]:
  "DownstreamTriageEnabled demo_config" "DownstreamMinScore demo_config = 60"
  "DownstreamCooldown demo_config = 30 * minute" "DownstreamCooldownIncident demo_config = 10 * minute"
  by (simp_all add: LoadConfig_def downstreamTriageEnabled_def downstreamMinScore_def lookupEnv_def
      durationEnv_def intEnv_def Let_def)

lemma demo_finding_ok: "0 < score \<Longrightarrow> finding_ok ''ns'' (demo_finding score)"
  by (simp add: demo_finding_def)

definition demo_id :: string where
  "demo_id = findingID ''ns'' ''Pod'' ''web'' ''pod-health'' ''not-ready''"

lemma demo_finding_sel [simp]:
  "f_Score (demo_finding 85) = 85" "f_Classification (demo_finding 85) = ''incident-likely''"
  "f_ID (demo_finding s) = demo_id"
  by (simp_all add: demo_finding_def clampScore_def classificationForScore_def demo_id_def)

section \<open>Properties\<close>

text \<open>
  C5. When a reported finding is published: exactly one attempt is made if it is new, was
  resolved, was never published, failed to publish last time, rose in score, changed its
  class, or is due for triage; otherwise none. What goes out carries the score and class
  reported now and the first time the finding was seen. (A score that falls within its class
  is not published.)
\<close>

theorem publish_decision:
  assumes "\<not> isSuppressed (mn_suppressions m) f" and "gm_get (findings m) (f_ID f) \<noteq> Some None"
  shows "\<exists>m' g. collect_finding rt cfg now f (m, active) = Some (m', gm_set (f_ID f) g active) \<and>
    mn_attempts m' = mn_attempts m @
      (if (case gm_get (findings m) (f_ID f) of
             Some (Some st) \<Rightarrow>
               fs_Status st = ''resolved'' \<or> fs_LastPublished st = None \<or>
               fs_LastPublishFailed st \<noteq> None \<or> fs_Score st < f_Score f \<or>
               f_Classification f \<noteq> fs_Classification st \<or>
               DownstreamTriageEnabled cfg \<and> DownstreamMinScore cfg \<le> f_Score f \<and>
                 (case fs_CooldownUntil st of None \<Rightarrow> True | Some t \<Rightarrow> t < now)
           | _ \<Rightarrow> True)
       then [(g, accepted rt g m)] else []) \<and>
    f_ID g = f_ID f \<and> f_Score g = f_Score f \<and> f_Classification g = f_Classification f \<and>
    f_LastSeen g = now \<and>
    f_FirstSeen g = (case gm_get (findings m) (f_ID f) of Some (Some st) \<Rightarrow> fs_FirstSeen st | _ \<Rightarrow> now)"
proof -
  obtain st where st: "start_state m now f = Some st"
    using start_state_exists[OF assms(2)] by blast
  have first: "fs_FirstSeen st = (case gm_get (findings m) (f_ID f) of Some (Some st) \<Rightarrow> fs_FirstSeen st | _ \<Rightarrow> now)"
    using st assms(2) by (auto simp: start_state_def new_finding_state_def split: option.splits)
  have wants: "wants_publish cfg now (gm_get (findings m) (f_ID f) \<noteq> None) st f \<longleftrightarrow>
      (case gm_get (findings m) (f_ID f) of
         Some (Some st) \<Rightarrow>
           fs_Status st = ''resolved'' \<or> fs_LastPublished st = None \<or>
           fs_LastPublishFailed st \<noteq> None \<or> fs_Score st < f_Score f \<or>
           f_Classification f \<noteq> fs_Classification st \<or>
           DownstreamTriageEnabled cfg \<and> DownstreamMinScore cfg \<le> f_Score f \<and>
             (case fs_CooldownUntil st of None \<Rightarrow> True | Some t \<Rightarrow> t < now)
       | _ \<Rightarrow> True)"
    using st assms(2)
    by (auto simp: start_state_def wants_publish_def changed_def triage_due_def triage_wanted_def after_def
        split: option.splits)
  show ?thesis
    using collect_finding_spec[OF assms(1) st refl refl, of rt cfg active] first
    unfolding wants by (fastforce simp del: o_apply)
qed

definition known_state :: FindingState where
  "known_state = (new_finding_state 1 (demo_finding 65))\<lparr>fs_LastPublished := Some 1, fs_CooldownUntil := Some 10\<rparr>"

definition known_monitor :: "cluster monitor" where
  "known_monitor = demo_monitor ((newMonitorState ''ns'')
     \<lparr>ms_Findings := [(f_ID (demo_finding 65), Some known_state)]\<rparr>)"

theorem publish_decision_witness:
  "\<exists>m' g. collect_finding (demo_runtime True (one_state_codec (newMonitorState ''ns''))) demo_config 5
      (demo_finding 62) (known_monitor, []) = Some (m', gm_set (f_ID (demo_finding 62)) g []) \<and>
    mn_attempts m' = []"
  using publish_decision[of known_monitor "demo_finding 62"
      "demo_runtime True (one_state_codec (newMonitorState ''ns''))" demo_config 5 "[]"]
  by (auto simp: known_monitor_def known_state_def new_finding_state_def demo_finding_def clampScore_def
      classificationForScore_def)

text \<open>
  C14. A refused publish is retried and costs nothing: the next time the finding is reported
  another attempt is made, and if the refused one asked for AI triage the new one does too,
  because the cooldown only starts with an accepted publish.
\<close>

theorem failed_publish_is_retried:
  assumes "gm_wf (findings m)" and "\<not> isSuppressed (mn_suppressions m) f"
    and "\<not> f_AITriageRequired f"
    and "collect_finding rt cfg now f (m, active) = Some (m1, active1)"
    and "mn_attempts m1 = mn_attempts m @ [(g, False)]"
    and "now \<le> now'" and "collect_finding rt' cfg now' f (m1, active2) = Some (m2, active3)"
  shows "\<exists>g' ok. mn_attempts m2 = mn_attempts m1 @ [(g', ok)] \<and> f_ID g' = f_ID f \<and>
    (f_AITriageRequired g \<longrightarrow> f_AITriageRequired g')"
proof -
  obtain st where st: "start_state m now f = Some st" "g = outgoing cfg now st f"
    and e: "gm_get (findings m1) (f_ID f) = Some (Some ((seen_again now f st)\<lparr>fs_LastPublishFailed := Some now\<rparr>))"
    by (rule collect_refused[OF assms(1,2,4,5)])
  let ?st1 = "(seen_again now f st)\<lparr>fs_LastPublishFailed := Some now\<rparr>"
  have sup: "\<not> isSuppressed (mn_suppressions m1) f"
    using collect_frame[OF assms(4)] assms(2) by simp
  have st1: "start_state m1 now' f = Some ?st1" using e by (simp add: start_state_def)
  have w: "wants_publish cfg now' (gm_get (findings m1) (f_ID f) \<noteq> None) ?st1 f"
    by (simp add: wants_publish_def changed_def)
  have due: "triage_due cfg now' ?st1 f" if "triage_due cfg now st f"
    using that assms(6) by (auto simp: triage_due_def after_def split: option.splits)
  have "f_AITriageRequired (outgoing cfg now' ?st1 f)" if "f_AITriageRequired g"
  proof -
    have "triage_due cfg now st f"
      using that assms(3) by (auto simp: st(2) outgoing_def triaged_def stamped_def split: if_splits)
    then show ?thesis using due by (simp add: outgoing_def triaged_def stamped_def)
  qed
  with collect_finding_spec[OF sup st1 refl refl, of rt' cfg active2] w assms(7) show ?thesis by auto
qed

theorem failed_publish_is_retried_witness:
  "\<exists>m1 a1 m2 a2 g' ok.
     collect_finding (demo_runtime False (one_state_codec (newMonitorState ''ns''))) demo_config 5
       (demo_finding 65) (demo_monitor (newMonitorState ''ns''), []) = Some (m1, a1) \<and>
     collect_finding (demo_runtime True (one_state_codec (newMonitorState ''ns''))) demo_config 6
       (demo_finding 65) (m1, []) = Some (m2, a2) \<and> mn_attempts m2 = mn_attempts m1 @ [(g', ok)]"
proof -
  let ?m = "demo_monitor (newMonitorState ''ns'')" and ?co = "one_state_codec (newMonitorState ''ns'')"
  have st: "start_state ?m 5 (demo_finding 65) = Some (new_finding_state 5 (stamped 5 (demo_finding 65)))"
    by (simp add: start_state_def)
  obtain m1 a1 g where r: "collect_finding (demo_runtime False ?co) demo_config 5 (demo_finding 65) (?m, []) = Some (m1, a1)"
    "mn_attempts m1 = mn_attempts ?m @ [(g, False)]" "findings m1 \<noteq> []" "mn_suppressions m1 = None"
    "gm_get (findings m1) (f_ID (demo_finding 65)) \<noteq> Some None"
    using collect_finding_spec[OF _ st refl refl, of "demo_runtime False ?co" demo_config "[]"]
    by (auto simp: wants_publish_def changed_def)
  obtain st1 where st1: "start_state m1 6 (demo_finding 65) = Some st1"
    using start_state_exists[OF r(5)] by blast
  obtain m2 a2 where r2: "collect_finding (demo_runtime True ?co) demo_config 6 (demo_finding 65) (m1, []) = Some (m2, a2)"
    using collect_finding_spec[OF _ st1 refl refl, of "demo_runtime True ?co" demo_config "[]"] r(4) by auto
  show ?thesis
    using failed_publish_is_retried[OF _ _ _ r(1,2) _ r2] r(1) r2
    by (fastforce simp: demo_finding_def NewFinding_def)
qed

text \<open>
  C11. What \<open>resolveMissingFindings\<close> does, exactly, in whatever order the map is visited: for
  each ongoing finding that the poll did not report, and for no other, one resolution is
  published; if the broker takes it the finding becomes resolved with score 0, otherwise it
  stays ongoing, marked as failed. All other findings keep their state.
\<close>

theorem resolve_missing_exact:
  assumes "state_wf (mn_state m)" and "resolveMissingFindings rt cfg now active m = Some m'"
  shows "\<exists>ids fate. distinct ids \<and>
    set ids = {k. ongoing m k \<and> gm_get active k = None} \<and>
    mn_attempts m' = mn_attempts m @ map (\<lambda>k. (resolved_finding cfg now k (state_of m k), fate k)) ids \<and>
    (\<forall>k. gm_get (findings m') k =
      (if k \<in> set ids then Some (Some (after_resolution now (fate k) (state_of m k)))
       else gm_get (findings m) k))"
  using assms by (rule resolve_missing_spec)

theorem resolve_missing_exact_witness:
  "\<exists>m'. resolveMissingFindings (demo_runtime True (one_state_codec (newMonitorState ''ns''))) demo_config 7 []
      known_monitor = Some m' \<and> length (mn_attempts m') = 1"
proof -
  have wf: "state_wf (mn_state known_monitor)"
    by (simp add: known_monitor_def state_wf_def gm_wf_def)
  have ids: "{k. ongoing known_monitor k \<and> gm_get [] k = None} = {demo_id}"
    by (auto simp: ongoing_def known_monitor_def known_state_def new_finding_state_def split: if_splits)
  obtain m' where r: "resolveMissingFindings (demo_runtime True (one_state_codec (newMonitorState ''ns'')))
      demo_config 7 [] known_monitor = Some m'"
    using resolveMissingFindings_returns[OF wf] by blast
  from resolve_missing_exact[OF wf r] obtain ids fate where
    i: "distinct ids" "set ids = {demo_id}"
    "mn_attempts m' = mn_attempts known_monitor @
       map (\<lambda>k. (resolved_finding demo_config 7 k (state_of known_monitor k), fate k)) ids"
    unfolding ids by blast
  have "length ids = 1" using i(1,2) distinct_card[of ids] by simp
  with r i(3) show ?thesis by (simp add: known_monitor_def)
qed

text \<open>
  C31. Which findings the suppression ConfigMap selects: with the ConfigMap read, a finding is
  suppressed exactly if one of its data keys, trimmed and in lower case, is one of seven
  forms of the finding's kind, name and reason. The values do not matter.
\<close>

theorem suppression_semantics:
  assumes "SuppressConfigMapName cfg \<noteq> []"
    and "fst (get_cm (rt_api rt) (Namespace cfg) (SuppressConfigMapName cfg) (mn_world m)) = Inr cm"
  shows "isSuppressed (mn_suppressions (loadSuppressions rt cfg m)) f \<longleftrightarrow>
    (\<exists>kv kind nm reason. kv \<in> set (cm_Data cm) \<and> kind = to_lower (f_Kind f) \<and> nm = to_lower (f_Name f) \<and>
       reason = to_lower (f_Reason f) \<and>
       to_lower (trim_space (fst kv)) \<in>
         {kind @ ''/'' @ nm @ ''/'' @ reason, kind @ ''/'' @ nm @ ''/*'', kind @ ''/*/'' @ reason,
          ''*/'' @ nm @ ''/'' @ reason, kind @ ''/*/*'', ''*/*/'' @ reason, ''*/*/*''})"
proof -
  obtain m1 where a: "ask (get_cm (rt_api rt) (Namespace cfg) (SuppressConfigMapName cfg)) m = (Inr cm, m1)"
    using assms(2) by (cases "get_cm (rt_api rt) (Namespace cfg) (SuppressConfigMapName cfg) (mn_world m)")
      (simp add: ask_def)
  define s where "s = fold (\<lambda>kv s. gm_set (to_lower (trim_space (fst kv))) () s) (cm_Data cm) []"
  have sup: "mn_suppressions (loadSuppressions rt cfg m) = Some s"
    using assms(1) by (simp add: loadSuppressions_def a s_def)
  have s: "gm_get s c \<noteq> None \<longleftrightarrow> (\<exists>kv \<in> set (cm_Data cm). to_lower (trim_space (fst kv)) = c)" for c
    using suppression_keys[of "[]" "\<lambda>k. to_lower (trim_space k)" "cm_Data cm" c] by (simp add: s_def)
  have "isSuppressed (Some s) f \<longleftrightarrow> (\<exists>c \<in> set (suppression_candidates f). gm_get s c \<noteq> None)"
    by (cases s) (auto simp: isSuppressed_def gm_len_def list_ex_iff)
  also have "\<dots> \<longleftrightarrow> (\<exists>kv \<in> set (cm_Data cm). to_lower (trim_space (fst kv)) \<in> set (suppression_candidates f))"
    unfolding s by blast
  finally show ?thesis
    unfolding sup suppression_candidates_def Let_def list.set append.assoc by blast
qed

definition suppress_config :: Config where
  "suppress_config = demo_config\<lparr>SuppressConfigMapName := ''st'', Namespace := ''ns''\<rparr>"

definition suppressing :: "string \<Rightarrow> cluster monitor" where
  "suppressing key = (demo_monitor (newMonitorState ''ns''))
     \<lparr>mn_world := foreign_cluster\<lparr>cl_object := Some (foreign_cm\<lparr>cm_Data := [(key, [])]\<rparr>)\<rparr>\<rparr>"

lemma suppressing_get:
  "fst (get_cm (rt_api (demo_runtime up co)) (Namespace suppress_config) (SuppressConfigMapName suppress_config)
     (mn_world (suppressing key))) = Inr (foreign_cm\<lparr>cm_Data := [(key, [])]\<rparr>)"
  by (simp add: suppressing_def suppress_config_def cluster_api_def cluster_get_def foreign_cluster_def foreign_cm_def)

theorem suppression_semantics_witness:
  "isSuppressed (mn_suppressions (loadSuppressions (demo_runtime True (one_state_codec (newMonitorState ''ns''))) suppress_config
     (suppressing '' Pod/web/* ''))) (demo_finding 65)
   \<and> \<not> isSuppressed (mn_suppressions (loadSuppressions (demo_runtime True (one_state_codec (newMonitorState ''ns''))) suppress_config
     (suppressing ''*/web/*''))) (demo_finding 65)"
proof -
  have ne: "SuppressConfigMapName suppress_config \<noteq> []" by (simp add: suppress_config_def)
  have eval: "to_lower (trim_space '' Pod/web/* '') = ''pod/web/*''" "to_lower (trim_space ''*/web/*'') = ''*/web/*''"
    "to_lower ''Pod'' = ''pod''" "to_lower ''web'' = ''web''" "to_lower ''not-ready'' = ''not-ready''"
    by code_simp+
  show ?thesis
    unfolding suppression_semantics[OF ne suppressing_get]
    by (simp add: demo_finding_def eval)
qed

end
