(* ===== verification/Pruning.thy ===== *)
theory Pruning
  imports Finding_Lifecycle
begin

text \<open>
  The pruning operations of \<open>monitor.go\<close>: observations past their retention, the caps on
  observations and findings, and pruning down to the size the ConfigMap may have.

  \<open>sort.Slice\<close> is not stable and the slice it sorts is filled by a range over a map. Sorting
  a permuted list with the stable sort of the library reaches every order it can leave:
  entries with different times are ordered, entries with equal times come in any order.
\<close>

section \<open>Definitions\<close>

definition last_seen :: "Observation option \<Rightarrow> time" where
  "last_seen obs = (case obs of None \<Rightarrow> 0 | Some ob \<Rightarrow> ob_LastSeen ob)"

definition pruned_metric :: "Config \<Rightarrow> string \<Rightarrow> string \<Rightarrow> metric" where
  "pruned_metric cfg what reason = Inc ''state_prunes_total'' [Namespace cfg, what, reason]"

definition drop_observation :: "Config \<Rightarrow> string \<Rightarrow> string \<Rightarrow> 'w monitor \<Rightarrow> 'w monitor" where
  "drop_observation cfg reason key m =
     emit [pruned_metric cfg ''observation'' reason] (set_observations (gm_del key (observations m)) m)"

definition drop_finding :: "Config \<Rightarrow> string \<Rightarrow> string \<Rightarrow> 'w monitor \<Rightarrow> 'w monitor" where
  "drop_finding cfg reason key m =
     emit [pruned_metric cfg ''finding'' reason] (set_findings (gm_del key (findings m)) m)"

definition stale_step :: "Config \<Rightarrow> time \<Rightarrow> string \<Rightarrow> 'w monitor \<Rightarrow> 'w monitor" where
  "stale_step cfg now key m =
     (case gm_get (observations m) key of
        None \<Rightarrow> m
      | Some None \<Rightarrow> m
      | Some (Some ob) \<Rightarrow>
          if is_zero (ob_LastSeen ob) then m
          else if time_sub now (ob_LastSeen ob) \<le> ObservationRetention cfg then m
          else mark_dirty (drop_observation cfg ''retention'' key m))"

definition pruneStaleObservations ::
  "('q, 'w) runtime \<Rightarrow> Config \<Rightarrow> time \<Rightarrow> 'w monitor \<Rightarrow> 'w monitor" where
  "pruneStaleObservations rt cfg now m =
     (if ObservationRetention cfg \<le> 0 then m
      else (case ask (rt_order rt) m of (code, m1) \<Rightarrow>
        fold (stale_step cfg now) (permute code (gm_keys (observations m1))) m1))"

text \<open>The items of the slice, oldest first: key and time.\<close>

definition oldest_first :: "('k \<times> time) list \<Rightarrow> ('k \<times> time) list" where
  "oldest_first items = sort_key snd items"

definition pruneObservationCap :: "('q, 'w) runtime \<Rightarrow> Config \<Rightarrow> 'w monitor \<Rightarrow> 'w monitor" where
  "pruneObservationCap rt cfg m =
     (if MaxObservations cfg \<le> 0 \<or> int (gm_len (observations m)) \<le> MaxObservations cfg then m
      else (case ask (rt_order rt) m of (code, m1) \<Rightarrow>
        let items = oldest_first (map (\<lambda>(key, obs). (key, last_seen obs)) (permute code (observations m1)));
            toDelete = nat (int (gm_len (observations m1)) - MaxObservations cfg)
        in mark_dirty (fold (\<lambda>it. drop_observation cfg ''cap'' (fst it)) (take toDelete items) m1)))"

text \<open>An empty status selects every finding; a nil entry is always selected.\<close>

definition finding_items :: "string \<Rightarrow> (string, FindingState option) go_map \<Rightarrow> (string \<times> time) list" where
  "finding_items status fs =
     concat (map (\<lambda>(key, finding). case finding of
         None \<Rightarrow> [(key, 0)]
       | Some st \<Rightarrow> if status \<noteq> [] \<and> fs_Status st \<noteq> status then [] else [(key, fs_LastSeen st)]) fs)"

definition pruneFindingsByStatus ::
  "('q, 'w) runtime \<Rightarrow> Config \<Rightarrow> string \<Rightarrow> int \<Rightarrow> string \<Rightarrow> 'w monitor \<Rightarrow> int \<times> 'w monitor" where
  "pruneFindingsByStatus rt cfg status n reason m =
     (if n \<le> 0 then (0, m)
      else (case ask (rt_order rt) m of (code, m1) \<Rightarrow>
        let items = oldest_first (finding_items status (permute code (findings m1)));
            n' = (if n > int (length items) then int (length items) else n)
        in (n', fold (\<lambda>it. drop_finding cfg reason (fst it)) (take (nat n') items) m1)))"

definition pruneFindingCap :: "('q, 'w) runtime \<Rightarrow> Config \<Rightarrow> 'w monitor \<Rightarrow> 'w monitor" where
  "pruneFindingCap rt cfg m =
     (if MaxFindings cfg \<le> 0 \<or> int (gm_len (findings m)) \<le> MaxFindings cfg then m
      else (case pruneFindingsByStatus rt cfg ''resolved'' (int (gm_len (findings m)) - MaxFindings cfg)
                   ''cap-resolved'' m of (pruned, m1) \<Rightarrow>
        if int (gm_len (findings m1)) \<le> MaxFindings cfg
        then (if pruned > 0 then mark_dirty m1 else m1)
        else mark_dirty (snd (pruneFindingsByStatus rt cfg [] (int (gm_len (findings m1)) - MaxFindings cfg) ''cap'' m1))))"

definition updateStateMetrics :: "Config \<Rightarrow> 'w monitor \<Rightarrow> 'w monitor" where
  "updateStateMetrics cfg m =
     emit [SetGauge ''state_findings'' [Namespace cfg] (int (gm_len (findings m))),
           SetGauge ''state_observations'' [Namespace cfg] (int (gm_len (observations m)))] m"

definition pruneState :: "('q, 'w) runtime \<Rightarrow> Config \<Rightarrow> time \<Rightarrow> 'w monitor \<Rightarrow> 'w monitor" where
  "pruneState rt cfg now m =
     updateStateMetrics cfg (pruneFindingCap rt cfg (pruneObservationCap rt cfg (pruneStaleObservations rt cfg now m)))"

definition currentStateBytes :: "('q, 'w) runtime \<Rightarrow> 'w monitor \<Rightarrow> int option" where
  "currentStateBytes rt m =
     (case marshal (rt_codec rt) (mn_state m) of None \<Rightarrow> None | Some data \<Rightarrow> Some (int (length data)))"

text \<open>The search for the oldest observation; the empty key means that none was found yet.\<close>

definition oldest_step :: "string \<times> Observation option \<Rightarrow> string \<times> time \<Rightarrow> string \<times> time" where
  "oldest_step entry best =
     (if fst best = [] \<or> before (last_seen (snd entry)) (snd best)
      then (fst entry, last_seen (snd entry)) else best)"

definition pruneOldestObservation ::
  "('q, 'w) runtime \<Rightarrow> Config \<Rightarrow> string \<Rightarrow> 'w monitor \<Rightarrow> 'w monitor" where
  "pruneOldestObservation rt cfg reason m =
     (case ask (rt_order rt) m of (code, m1) \<Rightarrow>
        let oldestKey = fst (fold oldest_step (permute code (observations m1)) ([], 0))
        in if oldestKey = [] then m1
           else mark_dirty (drop_observation cfg reason oldestKey m1))"

text \<open>
  The two loops of \<open>pruneForStateSize\<close>. The first may run forever, so it is a partial
  function: \<open>None\<close> is divergence. The inner option is the size, or \<open>None\<close> for an error.
\<close>

partial_function (option) shrink_observations ::
  "('q, 'w) runtime \<Rightarrow> Config \<Rightarrow> int \<Rightarrow> int \<Rightarrow> 'w monitor \<Rightarrow> (int option \<times> 'w monitor) option" where
  "shrink_observations rt cfg maxBytes bytes m =
     (if gm_len (observations m) > 0 \<and> bytes > maxBytes then
        (case currentStateBytes rt (pruneOldestObservation rt cfg ''size'' m) of
           None \<Rightarrow> Some (None, pruneOldestObservation rt cfg ''size'' m)
         | Some bytes' \<Rightarrow> shrink_observations rt cfg maxBytes bytes' (pruneOldestObservation rt cfg ''size'' m))
      else Some (Some bytes, m))"

lemma gm_len_del_le: "gm_len (gm_del k m) \<le> gm_len m"
  by (simp add: gm_len_def gm_del_def)

lemma gm_len_del_less: "k \<in> fst ` set m \<Longrightarrow> gm_len (gm_del k m) < gm_len m"
  unfolding gm_len_def gm_del_def by (auto intro!: length_filter_less)

lemma drop_finding_sel [simp]:
  "findings (drop_finding cfg r k m) = gm_del k (findings m)"
  "observations (drop_finding cfg r k m) = observations m"
  "mn_dirty (drop_finding cfg r k m) = mn_dirty m" "mn_store (drop_finding cfg r k m) = mn_store m"
  "mn_lastWrite (drop_finding cfg r k m) = mn_lastWrite m" "mn_attempts (drop_finding cfg r k m) = mn_attempts m"
  "mn_world (drop_finding cfg r k m) = mn_world m" "mn_health (drop_finding cfg r k m) = mn_health m"
  "ms_Version (mn_state (drop_finding cfg r k m)) = ms_Version (mn_state m)"
  "ms_Namespace (mn_state (drop_finding cfg r k m)) = ms_Namespace (mn_state m)"
  by (simp_all add: drop_finding_def)

lemma fold_drop_findings:
  "findings (fold (\<lambda>it. drop_finding cfg r (fst it)) items m) = fold gm_del (map fst items) (findings m)"
  by (induction items arbitrary: m) simp_all

lemma finding_items_simps [simp]:
  "finding_items status [] = []"
  "finding_items status ((key, None) # fs) = (key, 0) # finding_items status fs"
  "finding_items status ((key, Some st) # fs) =
     (if status \<noteq> [] \<and> fs_Status st \<noteq> status then finding_items status fs
      else (key, fs_LastSeen st) # finding_items status fs)"
  unfolding finding_items_def by simp_all

lemma finding_items_induct [case_names Nil None Some]:
  "P [] \<Longrightarrow> (\<And>key fs. P fs \<Longrightarrow> P ((key, None) # fs)) \<Longrightarrow>
   (\<And>key st fs. P fs \<Longrightarrow> P ((key, Some st) # fs)) \<Longrightarrow> P (fs :: ('k \<times> 's option) list)"
proof (induction fs)
  case (Cons e fs)
  then show ?case by (cases e; cases "snd e") auto
qed

lemma finding_items_keys: "fst ` set (finding_items status fs) \<subseteq> fst ` set fs"
  by (induction fs rule: finding_items_induct) auto

lemma fold_del_le: "gm_len (fold gm_del ks m) \<le> gm_len m"
  by (induction ks arbitrary: m) (auto intro: le_trans[OF _ gm_len_del_le])

lemma set_oldest_first [simp]: "set (oldest_first items) = set items"
  by (simp add: oldest_first_def)

lemma length_oldest_first [simp]: "length (oldest_first items) = length items"
  by (simp add: oldest_first_def)

text \<open>The second loop stops: every round that goes on has removed a finding.\<close>

lemma prune_one_less:
  assumes "pruneFindingsByStatus rt cfg status 1 reason m = (pruned, m')" and "pruned \<noteq> 0"
  shows "gm_len (findings m') < gm_len (findings m)"
proof -
  obtain code m1 where a: "ask (rt_order rt) m = (code, m1)" by (cases "ask (rt_order rt) m")
  have m1: "mn_state m1 = mn_state m" using ask_sel(3)[of "rt_order rt" m] a by simp
  define items where "items = oldest_first (finding_items status (permute code (findings m)))"
  have ne: "items \<noteq> []" and m': "m' = drop_finding cfg reason (fst (hd items)) m1"
    using assms by (cases items; simp add: pruneFindingsByStatus_def a m1 Let_def items_def[symmetric] split: if_splits; fail)+
  have "fst (hd items) \<in> fst ` set (findings m)"
    using ne finding_items_keys[of status "permute code (findings m)"] hd_in_set[OF ne]
    by (auto simp: items_def)
  then show ?thesis by (simp add: m' m1 gm_len_del_less)
qed

function (sequential) shrink_findings ::
  "('q, 'w) runtime \<Rightarrow> Config \<Rightarrow> int \<Rightarrow> int \<Rightarrow> 'w monitor \<Rightarrow> int option \<times> 'w monitor" where
  "shrink_findings rt cfg maxBytes bytes m =
     (if bytes > maxBytes then
        (case pruneFindingsByStatus rt cfg ''resolved'' 1 ''size'' m of (pruned, m1) \<Rightarrow>
           if pruned = 0 then (Some bytes, m1)
           else (case currentStateBytes rt (mark_dirty m1) of
               None \<Rightarrow> (None, mark_dirty m1)
             | Some bytes' \<Rightarrow> shrink_findings rt cfg maxBytes bytes' (mark_dirty m1)))
      else (Some bytes, m))"
  by pat_completeness auto
termination
  by (relation "measure (\<lambda>(rt, cfg, maxBytes, bytes, m). gm_len (findings m))")
     (auto dest: prune_one_less[OF sym])

declare shrink_findings.simps [simp del]

definition pruneForStateSize ::
  "('q, 'w) runtime \<Rightarrow> Config \<Rightarrow> int \<Rightarrow> 'w monitor \<Rightarrow> (int option \<times> 'w monitor) option" where
  "pruneForStateSize rt cfg maxBytes m =
     (if maxBytes \<le> 0 then Some (currentStateBytes rt m, m)
      else (case currentStateBytes rt m of
          None \<Rightarrow> Some (None, m)
        | Some bytes \<Rightarrow>
            if bytes \<le> maxBytes then Some (Some bytes, m)
            else (case shrink_observations rt cfg maxBytes bytes m of
                None \<Rightarrow> None
              | Some (None, m1) \<Rightarrow> Some (None, m1)
              | Some (Some size1, m1) \<Rightarrow> Some (shrink_findings rt cfg maxBytes size1 m1))))"

end
