(* ===== verification/Pruning_Facts.thy ===== *)
theory Pruning_Facts
  imports Pruning
begin

text \<open>
  What the pruning operations promise: they only delete, they mark what they change as
  dirty, the retention periods and the caps hold afterwards, the oldest entries and the
  resolved findings go first, and pruning for size ends.
\<close>

section \<open>Only deletions\<close>

text \<open>Everything a pruning operation may do, before the dirty flag is looked at.\<close>

definition deletes :: "'w monitor \<Rightarrow> 'w monitor \<Rightarrow> bool" where
  "deletes m m' \<longleftrightarrow>
     gm_get (findings m') \<subseteq>\<^sub>m gm_get (findings m) \<and> gm_get (observations m') \<subseteq>\<^sub>m gm_get (observations m) \<and>
     ms_Version (mn_state m') = ms_Version (mn_state m) \<and> ms_Namespace (mn_state m') = ms_Namespace (mn_state m) \<and>
     mn_store m' = mn_store m \<and> mn_lastWrite m' = mn_lastWrite m \<and> mn_attempts m' = mn_attempts m \<and>
     (mn_dirty m \<longrightarrow> mn_dirty m')"

interpretation deletes: evolution deletes
  by unfold_locales (auto simp: deletes_def intro: map_le_trans)

text \<open>Proper maps, kept by every deletion.\<close>

definition maps_wf :: "'w monitor \<Rightarrow> bool" where
  "maps_wf m \<longleftrightarrow> gm_wf (findings m) \<and> gm_wf (observations m)"

lemma state_wf_deletes:
  "state_wf (mn_state m) \<Longrightarrow> deletes m m' \<Longrightarrow> maps_wf m' \<Longrightarrow> state_wf (mn_state m')"
  unfolding state_wf_def deletes_def maps_wf_def map_le_def
  by (metis domIff option.discI)

lemma maps_wf_state: "state_wf (mn_state m) \<Longrightarrow> maps_wf m"
  by (simp add: state_wf_def maps_wf_def)

lemma deletes_quiet:
  "deletes m m' \<Longrightarrow> mn_dirty m' \<or> mn_state m' = mn_state m \<and> mn_dirty m' = mn_dirty m \<Longrightarrow> quiet good m m'"
  by (auto simp: deletes_def quiet_def evolves_def resolves_nothing_def map_le_def dom_def)

lemma drop_observation_sel [simp]:
  "observations (drop_observation cfg r k m) = gm_del k (observations m)"
  "findings (drop_observation cfg r k m) = findings m"
  "mn_dirty (drop_observation cfg r k m) = mn_dirty m" "mn_store (drop_observation cfg r k m) = mn_store m"
  "mn_lastWrite (drop_observation cfg r k m) = mn_lastWrite m"
  "mn_attempts (drop_observation cfg r k m) = mn_attempts m"
  "ms_Version (mn_state (drop_observation cfg r k m)) = ms_Version (mn_state m)"
  "ms_Namespace (mn_state (drop_observation cfg r k m)) = ms_Namespace (mn_state m)"
  by (simp_all add: drop_observation_def)

lemma map_le_del: "gm_wf m \<Longrightarrow> gm_get (gm_del k m) \<subseteq>\<^sub>m gm_get m"
  by (simp add: go_map_simps map_le_def)

lemma deletes_drop_observation [intro]:
  "maps_wf m \<Longrightarrow> deletes m (drop_observation cfg r k m) \<and> maps_wf (drop_observation cfg r k m)"
  by (simp add: deletes_def maps_wf_def map_le_del go_map_simps)

lemma deletes_drop_finding [intro]:
  "maps_wf m \<Longrightarrow> deletes m (drop_finding cfg r k m) \<and> maps_wf (drop_finding cfg r k m)"
  by (simp add: deletes_def maps_wf_def map_le_del go_map_simps)

lemma deletes_mark_dirty [intro]: "maps_wf m \<Longrightarrow> deletes m (mark_dirty m) \<and> maps_wf (mark_dirty m)"
  by (simp add: deletes_def maps_wf_def)

lemma deletes_ask [intro]: "maps_wf m \<Longrightarrow> deletes m (snd (ask g m)) \<and> maps_wf (snd (ask g m))"
  by (simp add: deletes_def maps_wf_def)

lemma deletes_emit [intro]: "maps_wf m \<Longrightarrow> deletes m (emit ms m) \<and> maps_wf (emit ms m)"
  by (simp add: deletes_def maps_wf_def)

lemma deletes_step:
  "deletes m m1 \<and> maps_wf m1 \<Longrightarrow> (maps_wf m1 \<Longrightarrow> deletes m1 m2 \<and> maps_wf m2) \<Longrightarrow> deletes m m2 \<and> maps_wf m2"
  using deletes.rel_trans by blast

lemma deletes_fold:
  assumes "maps_wf m" and "\<And>x m. maps_wf m \<Longrightarrow> deletes m (f x m) \<and> maps_wf (f x m)"
  shows "deletes m (fold f xs m) \<and> maps_wf (fold f xs m)"
  using assms(1)
proof (induction xs arbitrary: m)
  case Nil
  then show ?case by (simp add: deletes.rel_refl)
next
  case (Cons x xs)
  have "deletes m (f x m) \<and> maps_wf (f x m)" using Cons.prems by (rule assms(2))
  moreover have "deletes (f x m) (fold f xs (f x m)) \<and> maps_wf (fold f xs (f x m))"
    using calculation Cons.IH by blast
  ultimately show ?case using deletes.rel_trans by auto
qed

section \<open>Selective deletion\<close>

text \<open>
  Two loops delete the entries of a map that fail a test on their value alone. The contract
  says what one round does; the loop then deletes exactly the failing entries it visits.
\<close>

locale selective_delete =
  fixes entries :: "'w monitor \<Rightarrow> 'k \<Rightarrow> 'v option"
    and doomed :: "'v \<Rightarrow> bool"
    and round :: "'k \<Rightarrow> 'w monitor \<Rightarrow> 'w monitor option"
  assumes round_wf: "state_wf (mn_state m) \<Longrightarrow> round k m = Some m' \<Longrightarrow> state_wf (mn_state m')"
    and round_entries: "state_wf (mn_state m) \<Longrightarrow> round k m = Some m' \<Longrightarrow>
      entries m' = (if \<exists>v. entries m k = Some v \<and> doomed v then (entries m)(k := None) else entries m)"
begin

lemma loop_entries:
  assumes "foldM round ks m = Some m'" and "state_wf (mn_state m)"
  shows "entries m' j =
    (if j \<in> set ks \<and> (\<exists>v. entries m j = Some v \<and> doomed v) then None else entries m j)"
  using assms
proof (induction ks arbitrary: m)
  case Nil
  then show ?case by simp
next
  case (Cons k ks)
  from Cons.prems(1) obtain m1 where m1: "round k m = Some m1" "foldM round ks m1 = Some m'"
    by (auto split: option.splits)
  from Cons.IH[OF m1(2) round_wf[OF Cons.prems(2) m1(1)]] round_entries[OF Cons.prems(2) m1(1)]
  show ?case by auto
qed

end

definition stale :: "Config \<Rightarrow> time \<Rightarrow> Observation option \<Rightarrow> bool" where
  "stale cfg now obs \<longleftrightarrow>
     (\<exists>ob. obs = Some ob \<and> ob_LastSeen ob \<noteq> 0 \<and> ObservationRetention cfg < time_sub now (ob_LastSeen ob))"

lemma stale_step_cases:
  "stale_step cfg now k m =
   (if \<exists>obs. gm_get (observations m) k = Some obs \<and> stale cfg now obs
    then mark_dirty (drop_observation cfg ''retention'' k m) else m)"
  by (auto simp: stale_step_def stale_def is_zero_def split: option.split)

lemma state_wf_drop_observation [wf_intros]:
  "state_wf (mn_state m) \<Longrightarrow> state_wf (mn_state (drop_observation cfg r k m))"
  by (auto simp: state_wf_def go_map_simps)

interpretation stale_observations: selective_delete "\<lambda>m. gm_get (observations m)" "stale cfg now"
  "\<lambda>k m. Some (stale_step cfg now k m)" for cfg now
  by unfold_locales (auto simp: stale_step_cases wf_intros wf_maps go_map_simps)

definition expired :: "Config \<Rightarrow> time \<Rightarrow> FindingState option \<Rightarrow> bool" where
  "expired cfg now p \<longleftrightarrow>
     (\<exists>st. p = Some st \<and> fs_Status st = ''resolved'' \<and>
        ResolvedFindingRetention cfg < time_sub now (fs_LastSeen st))"

lemma expire_one_cases:
  "state_wf (mn_state m) \<Longrightarrow> expire_one cfg now k m = Some m' \<Longrightarrow>
   m' = (if \<exists>p. gm_get (findings m) k = Some p \<and> expired cfg now p
         then mark_dirty (set_findings (gm_del k (findings m)) m) else m)"
  by (auto simp: expire_one_def expired_def split: option.splits if_splits)

interpretation expired_findings: selective_delete "\<lambda>m. gm_get (findings m)" "expired cfg now" "expire_one cfg now"
  for cfg now
proof
  fix k m m'
  assume wf: "state_wf (mn_state m)" and r: "expire_one cfg now k m = Some m'"
  note m' = expire_one_cases[OF wf r]
  show "state_wf (mn_state m')" unfolding m' using wf by (simp add: wf_intros)
  show "gm_get (findings m') =
      (if \<exists>p. gm_get (findings m) k = Some p \<and> expired cfg now p
       then (gm_get (findings m))(k := None) else gm_get (findings m))"
    unfolding m' using wf_maps(1)[OF wf] by (auto simp: go_map_simps)
qed

section \<open>Deleting the oldest\<close>

lemma oldest_first_split:
  assumes "x \<in> set (take n (oldest_first items))" and "y \<in> set (drop n (oldest_first items))"
  shows "snd x \<le> snd y"
proof -
  have "sorted (map snd (take n (oldest_first items) @ drop n (oldest_first items)))"
    by (simp add: oldest_first_def)
  then have "sorted (map snd (take n (oldest_first items)) @ map snd (drop n (oldest_first items)))"
    by (simp only: map_append)
  then show ?thesis using assms by (simp add: sorted_append)
qed

text \<open>The keys the first \<open>n\<close> items name, in a map that holds all of them.\<close>

lemma delete_oldest:
  fixes items :: "('k \<times> time) list"
  assumes "gm_wf M" and "distinct (map fst items)" and "set (map fst items) \<subseteq> dom (gm_get M)"
    and gone_def: "gone = map fst (take n (oldest_first items))"
  shows "gm_len (fold gm_del gone M) = gm_len M - min n (length items)" (is ?len)
    and "gm_get (fold gm_del gone M) k = (if k \<in> set gone then None else gm_get M k)" (is ?get)
    and "k \<in> set gone \<Longrightarrow> (k, t) \<in> set items \<Longrightarrow> (k', t') \<in> set items \<Longrightarrow> k' \<notin> set gone \<Longrightarrow> t \<le> t'" (is "_ \<Longrightarrow> _ \<Longrightarrow> _ \<Longrightarrow> _ \<Longrightarrow> ?le")
    and "set gone \<subseteq> set (map fst items)" (is ?sub)
proof -
  have d: "distinct (map fst (oldest_first items))"
    using assms(2) mset_eq_imp_distinct_iff[of "map fst (oldest_first items)" "map fst items"]
    by (simp add: oldest_first_def)
  have gone: "gone = take n (map fst (oldest_first items))" by (simp add: gone_def take_map)
  have "set gone \<subseteq> fst ` set (oldest_first items)"
    unfolding gone using set_take_subset[of n "map fst (oldest_first items)"] by simp
  then show sub: ?sub by simp
  have "distinct gone" unfolding gone using d by simp
  then show ?len
    using gm.len_del_all[OF assms(1), of gone] sub assms(3)
    by (simp add: gone min.commute)
  show ?get using assms(1) by (simp add: go_map_simps)
  assume k: "k \<in> set gone" "(k, t) \<in> set items" "(k', t') \<in> set items" "k' \<notin> set gone"
  have split: "set items = set (take n (oldest_first items)) \<union> set (drop n (oldest_first items))"
    by (metis append_take_drop_id set_append set_oldest_first)
  have kt: "(k, t) \<in> set (take n (oldest_first items))"
  proof -
    obtain u where u: "(k, u) \<in> set (take n (oldest_first items))" using k(1) by (auto simp: gone_def)
    then have "(k, u) \<in> set items" using split by blast
    with k(2) assms(2) have "u = t" by (metis eq_key_imp_eq_value)
    with u show ?thesis by simp
  qed
  have "(k', t') \<in> set (drop n (oldest_first items))"
    using k(3,4) split by (force simp: gone_def)
  from oldest_first_split[OF kt this] show ?le by simp
qed

section \<open>The operations\<close>

text \<open>A pruning operation keeps the contract of a poll step, without publishing or resolving.\<close>

definition prunes :: "'w monitor \<Rightarrow> 'w monitor \<Rightarrow> bool" where
  "prunes m m' \<longleftrightarrow> deletes m m' \<and> (mn_dirty m' \<or> mn_state m' = mn_state m \<and> mn_dirty m' = mn_dirty m)"

interpretation prunes: evolution prunes
  by unfold_locales (auto simp: prunes_def deletes.rel_refl intro: deletes.rel_trans)

lemma prunes_quiet: "prunes m m' \<Longrightarrow> quiet good m m'"
  by (simp add: prunes_def deletes_quiet)

lemma prunes_ask: "maps_wf m \<Longrightarrow> ask g m = (a, m1) \<Longrightarrow> prunes m m1 \<and> mn_state m1 = mn_state m"
  using deletes_ask[of m g] ask_sel(3,7)[of g m] by (simp add: prunes_def)

lemma prunes_emit [simp]: "prunes m (emit ms m)"
  by (simp add: prunes_def deletes_def)

lemma prunes_dirty: "deletes m m' \<Longrightarrow> prunes m (mark_dirty m')"
  by (simp add: prunes_def deletes_def)

lemma deletes_stale_step: "maps_wf m \<Longrightarrow> prunes m (stale_step cfg now k m) \<and> maps_wf (stale_step cfg now k m)"
  using deletes_drop_observation[of m cfg "''retention''" k]
  by (auto simp: stale_step_cases prunes.rel_refl maps_wf_def intro: prunes_dirty)

lemma pruneStale_prunes:
  assumes "maps_wf m"
  shows "prunes m (pruneStaleObservations rt cfg now m) \<and> maps_wf (pruneStaleObservations rt cfg now m)"
proof (cases "ObservationRetention cfg \<le> 0")
  case True
  with assms show ?thesis by (simp add: pruneStaleObservations_def prunes.rel_refl)
next
  case False
  obtain code m1 where a: "ask (rt_order rt) m = (code, m1)" by (cases "ask (rt_order rt) m")
  have m1: "prunes m m1" "maps_wf m1" using prunes_ask[OF assms a] assms by (auto simp: maps_wf_def)
  have "prunes m1 (fold (stale_step cfg now) ks m1) \<and> maps_wf (fold (stale_step cfg now) ks m1)" for ks
    using m1(2)
  proof (induction ks arbitrary: m1)
    case Nil
    then show ?case by (simp add: prunes.rel_refl)
  next
    case (Cons k ks)
    with deletes_stale_step[of m1 cfg now k] show ?case using prunes.rel_trans by (metis fold_simps(2))
  qed
  then show ?thesis using False m1(1) prunes.rel_trans
    by (simp add: pruneStaleObservations_def a) blast
qed

lemma map_fst_items: "map fst (map (\<lambda>(key, obs). (key, last_seen obs)) xs) = map fst xs"
  by (induction xs) auto

lemma fold_drop_observations [simp]:
  "observations (fold (\<lambda>it. drop_observation cfg r (fst it)) items m) = fold gm_del (map fst items) (observations m)"
  "findings (fold (\<lambda>it. drop_observation cfg r (fst it)) items m) = findings m"
  by (induction items arbitrary: m) simp_all

lemma fold_drop_findings_observations [simp]:
  "observations (fold (\<lambda>it. drop_finding cfg r (fst it)) items m) = observations m"
  by (induction items arbitrary: m) simp_all

text \<open>What the cap on observations does, when it is exceeded.\<close>

lemma pruneObservationCap_exceeded:
  assumes "0 < MaxObservations cfg" and "MaxObservations cfg < int (gm_len (observations m))"
  obtains code gone where
    "gone = map fst (take (nat (int (gm_len (observations m)) - MaxObservations cfg))
       (oldest_first (map (\<lambda>(key, obs). (key, last_seen obs)) (permute code (observations m)))))"
    "observations (pruneObservationCap rt cfg m) = fold gm_del gone (observations m)"
    "findings (pruneObservationCap rt cfg m) = findings m"
proof -
  obtain code m1 where a: "ask (rt_order rt) m = (code, m1)" by (cases "ask (rt_order rt) m")
  have "mn_state m1 = mn_state m" using ask_sel(3)[of "rt_order rt" m] a by simp
  with that[of _ code] assms show ?thesis
    by (simp add: pruneObservationCap_def a Let_def)
qed

lemma pruneObservationCap_prunes:
  assumes "maps_wf m"
  shows "prunes m (pruneObservationCap rt cfg m) \<and> maps_wf (pruneObservationCap rt cfg m)"
proof (cases "MaxObservations cfg \<le> 0 \<or> int (gm_len (observations m)) \<le> MaxObservations cfg")
  case True
  with assms show ?thesis by (simp add: pruneObservationCap_def prunes.rel_refl)
next
  case False
  obtain code m1 where a: "ask (rt_order rt) m = (code, m1)" by (cases "ask (rt_order rt) m")
  have m1: "prunes m m1" "maps_wf m1" using prunes_ask[OF assms a] assms by (auto simp: maps_wf_def)
  have "deletes m1 (fold (\<lambda>it. drop_observation cfg r (fst it)) items m1) \<and>
      maps_wf (fold (\<lambda>it. drop_observation cfg r (fst it)) items m1)" for r and items :: "(string \<times> time) list"
    using m1(2) by (rule deletes_fold) (erule deletes_drop_observation)
  then show ?thesis
    using False m1(1) by (simp add: pruneObservationCap_def a Let_def maps_wf_def)
      (blast intro: prunes.rel_trans prunes_dirty)
qed

lemma pruneByStatus_deletes:
  assumes "maps_wf m"
  shows "deletes m (snd (pruneFindingsByStatus rt cfg status n reason m)) \<and>
    maps_wf (snd (pruneFindingsByStatus rt cfg status n reason m))"
proof (cases "n \<le> 0")
  case True
  with assms show ?thesis by (simp add: pruneFindingsByStatus_def deletes.rel_refl)
next
  case False
  obtain code m1 where a: "ask (rt_order rt) m = (code, m1)" by (cases "ask (rt_order rt) m")
  have m1: "deletes m m1" "maps_wf m1" using prunes_ask[OF assms a] assms by (auto simp: maps_wf_def prunes_def)
  have "deletes m1 (fold (\<lambda>it. drop_finding cfg r (fst it)) items m1) \<and>
      maps_wf (fold (\<lambda>it. drop_finding cfg r (fst it)) items m1)" for r and items :: "(string \<times> time) list"
    using m1(2) by (rule deletes_fold) (erule deletes_drop_finding)
  with m1(1) deletes.rel_trans show ?thesis
    using False by (simp add: pruneFindingsByStatus_def a Let_def) blast
qed

text \<open>
  Pruning by status, exactly: the keys that go are those of the first items, oldest first,
  among the findings of that status (all findings for the empty status).
\<close>

definition selected :: "string \<Rightarrow> FindingState option \<Rightarrow> bool" where
  "selected status p \<longleftrightarrow> (case p of None \<Rightarrow> True | Some st \<Rightarrow> status = [] \<or> fs_Status st = status)"

definition finding_time :: "FindingState option \<Rightarrow> time" where
  "finding_time p = (case p of None \<Rightarrow> 0 | Some st \<Rightarrow> fs_LastSeen st)"

lemma finding_items_eq:
  "finding_items status fs = map (\<lambda>(k, p). (k, finding_time p)) (filter (\<lambda>(k, p). selected status p) fs)"
  by (induction fs rule: finding_items_induct) (auto simp: selected_def finding_time_def)

lemma selected_empty [simp]: "selected [] p"
  by (simp add: selected_def split: option.split)

text \<open>The findings of a status, counted.\<close>

definition count_selected :: "string \<Rightarrow> 'w monitor \<Rightarrow> nat" where
  "count_selected status m = card {k. \<exists>p. gm_get (findings m) k = Some p \<and> selected status p}"

lemma items_facts:
  assumes "gm_wf fs" and items_def: "items = finding_items status (permute code fs)"
  shows "distinct (map fst items)" "set (map fst items) \<subseteq> dom (gm_get fs)"
    "length items = card {k. \<exists>p. gm_get fs k = Some p \<and> selected status p}"
    "(k, t) \<in> set items \<longleftrightarrow> (\<exists>p. gm_get fs k = Some p \<and> selected status p \<and> t = finding_time p)"
proof -
  have fst_map: "map fst items = map fst (filter (\<lambda>(k, p). selected status p) (permute code fs))"
    by (auto simp: items_def finding_items_eq)
  have dp: "distinct (map fst (permute code fs))"
    using assms(1) mset_eq_imp_distinct_iff[of "map fst (permute code fs)" "map fst fs"]
    by (simp add: gm_wf_def)
  then show d: "distinct (map fst items)" unfolding fst_map by (rule distinct_map_filter)
  show mem: "(k, t) \<in> set items \<longleftrightarrow> (\<exists>p. gm_get fs k = Some p \<and> selected status p \<and> t = finding_time p)" for k t
    using assms(1) by (auto simp: items_def finding_items_eq gm_get_mem)
  have keys: "set (map fst items) = {k. \<exists>p. gm_get fs k = Some p \<and> selected status p}"
    using mem by (force simp: image_iff)
  then show "set (map fst items) \<subseteq> dom (gm_get fs)" by auto
  show "length items = card {k. \<exists>p. gm_get fs k = Some p \<and> selected status p}"
    using d keys by (metis distinct_card length_map)
qed

lemma pruneByStatus_spec:
  assumes "maps_wf m" and "0 < n"
    and "pruneFindingsByStatus rt cfg status n reason m = (pruned, m')"
  obtains gone where "pruned = min n (int (count_selected status m))"
    "gm_len (findings m') = gm_len (findings m) - nat pruned"
    "\<And>k. gm_get (findings m') k = (if k \<in> gone then None else gm_get (findings m) k)"
    "\<And>k. k \<in> gone \<Longrightarrow> \<exists>p. gm_get (findings m) k = Some p \<and> selected status p"
    "\<And>k k' p p'. k \<in> gone \<Longrightarrow> gm_get (findings m) k = Some p \<Longrightarrow> gm_get (findings m) k' = Some p' \<Longrightarrow>
       selected status p' \<Longrightarrow> k' \<notin> gone \<Longrightarrow> finding_time p \<le> finding_time p'"
    "card gone = nat pruned" "observations m' = observations m"
proof -
  obtain code m1 where a: "ask (rt_order rt) m = (code, m1)" by (cases "ask (rt_order rt) m")
  have m1: "mn_state m1 = mn_state m" using ask_sel(3)[of "rt_order rt" m] a by simp
  have wf: "gm_wf (findings m)" using assms(1) by (simp add: maps_wf_def)
  define items where "items = finding_items status (permute code (findings m))"
  note it = items_facts[OF wf items_def]
  have pruned: "pruned = min n (int (length items))"
    and m': "m' = fold (\<lambda>it. drop_finding cfg reason (fst it)) (take (nat pruned) (oldest_first items)) m1"
    using assms(2,3) by (auto simp: pruneFindingsByStatus_def a m1 Let_def items_def[symmetric])
  define gone where "gone = map fst (take (nat pruned) (oldest_first items))"
  note del = delete_oldest[OF wf it(1,2) gone_def]
  have f': "findings m' = fold gm_del gone (findings m)" by (simp add: m' fold_drop_findings gone_def m1)
  have min: "min (nat pruned) (length items) = nat pruned" using assms(2) by (auto simp: pruned)
  have dg: "distinct gone" 
    using it(1) mset_eq_imp_distinct_iff[of "map fst (oldest_first items)" "map fst items"]
    by (simp add: gone_def take_map[symmetric] oldest_first_def)
  show ?thesis
  proof (rule that[of "set gone"])
    show "pruned = min n (int (count_selected status m))" by (simp add: pruned it(3) count_selected_def)
    show "gm_len (findings m') = gm_len (findings m) - nat pruned" using del(1) min by (simp add: f')
    show "gm_get (findings m') k = (if k \<in> set gone then None else gm_get (findings m) k)" for k
      using del(2) by (simp add: f')
    show "\<exists>p. gm_get (findings m) k = Some p \<and> selected status p" if g: "k \<in> set gone" for k
    proof -
      obtain t where "(k, t) \<in> set items" using g del(4) by auto
      then show ?thesis using it(4) by blast
    qed
    show "finding_time p \<le> finding_time p'"
      if g: "k \<in> set gone" "gm_get (findings m) k = Some p" "gm_get (findings m) k' = Some p'"
        "selected status p'" "k' \<notin> set gone" for k k' p p'
    proof -
      obtain t where t: "(k, t) \<in> set items" using g(1) del(4) by auto
      have "t = finding_time p" using t g(2) it(4) by auto
      moreover have "(k', finding_time p') \<in> set items" using g(3,4) it(4) by blast
      ultimately show ?thesis using del(3)[OF g(1) t] g(5) by blast
    qed
    show "card (set gone) = nat pruned"
      using dg min by (simp add: distinct_card) (simp add: gone_def min.commute)
    show "observations m' = observations m" by (simp add: m' m1)
  qed
qed

lemma selected_count_le: "maps_wf m \<Longrightarrow> count_selected status m \<le> gm_len (findings m)"
proof -
  assume wf: "maps_wf m"
  then have "gm_len (findings m) = card (dom (gm_get (findings m)))"
    by (simp add: gm.len_card maps_wf_def)
  moreover have "finite (dom (gm_get (findings m)))" using wf by (simp add: gm.finite_dom maps_wf_def)
  ultimately show ?thesis unfolding count_selected_def by (auto intro!: card_mono)
qed

lemma count_selected_all: "maps_wf m \<Longrightarrow> count_selected [] m = gm_len (findings m)"
  by (simp add: count_selected_def gm.len_card maps_wf_def dom_def)

text \<open>The cap on findings, in its two phases.\<close>

lemma pruneFindingCap_cases:
  assumes "maps_wf m" and "0 < MaxFindings cfg" and "MaxFindings cfg < int (gm_len (findings m))"
  obtains (resolved) m1 pruned where
    "pruneFindingsByStatus rt cfg ''resolved'' (int (gm_len (findings m)) - MaxFindings cfg) ''cap-resolved'' m = (pruned, m1)"
    "pruned = int (gm_len (findings m)) - MaxFindings cfg" "pruneFindingCap rt cfg m = mark_dirty m1"
    "int (gm_len (findings m1)) = MaxFindings cfg"
  | (both) m1 pruned m2 pruned2 where
    "pruneFindingsByStatus rt cfg ''resolved'' (int (gm_len (findings m)) - MaxFindings cfg) ''cap-resolved'' m = (pruned, m1)"
    "pruned = int (count_selected ''resolved'' m)" "MaxFindings cfg < int (gm_len (findings m1))"
    "pruneFindingsByStatus rt cfg [] (int (gm_len (findings m1)) - MaxFindings cfg) ''cap'' m1 = (pruned2, m2)"
    "pruneFindingCap rt cfg m = mark_dirty m2"
proof -
  define n where "n = int (gm_len (findings m)) - MaxFindings cfg"
  have n: "0 < n" using assms(3) by (simp add: n_def)
  obtain pruned m1 where r: "pruneFindingsByStatus rt cfg ''resolved'' n ''cap-resolved'' m = (pruned, m1)"
    by (cases "pruneFindingsByStatus rt cfg ''resolved'' n ''cap-resolved'' m")
  from pruneByStatus_spec[OF assms(1) n r] have
    p: "pruned = min n (int (count_selected ''resolved'' m))"
    and len: "gm_len (findings m1) = gm_len (findings m) - nat pruned" by metis+
  have le: "pruned \<le> int (gm_len (findings m))"
    using p selected_count_le[OF assms(1), of "''resolved''"] by simp
  have p0: "0 \<le> pruned" using p n by simp
  show ?thesis
  proof (cases "int (gm_len (findings m1)) \<le> MaxFindings cfg")
    case True
    then have "pruned = n" using p len le n p0 by (auto simp: n_def)
    moreover have "int (gm_len (findings m1)) = MaxFindings cfg"
      using calculation len le n p0 by (simp add: n_def)
    moreover have "pruneFindingCap rt cfg m = mark_dirty m1"
      using r True assms(2,3) n calculation(1) by (simp add: pruneFindingCap_def n_def)
    ultimately show ?thesis using resolved[of pruned m1] r by (simp add: n_def)
  next
    case False
    have "pruned \<noteq> n"
    proof
      assume "pruned = n"
      then have "int (gm_len (findings m1)) = MaxFindings cfg" using len le n by (simp add: n_def)
      with False show False by simp
    qed
    then have "pruned = int (count_selected ''resolved'' m)" using p by linarith
    moreover obtain pruned2 m2 where
      "pruneFindingsByStatus rt cfg [] (int (gm_len (findings m1)) - MaxFindings cfg) ''cap'' m1 = (pruned2, m2)"
      by (cases "pruneFindingsByStatus rt cfg [] (int (gm_len (findings m1)) - MaxFindings cfg) ''cap'' m1")
    ultimately show ?thesis using both[of pruned m1 pruned2 m2] r False assms
      by (simp add: pruneFindingCap_def n_def)
  qed
qed

lemma pruneFindingCap_prunes:
  assumes "maps_wf m"
  shows "prunes m (pruneFindingCap rt cfg m) \<and> maps_wf (pruneFindingCap rt cfg m)"
proof (cases "MaxFindings cfg \<le> 0 \<or> int (gm_len (findings m)) \<le> MaxFindings cfg")
  case True
  with assms show ?thesis by (simp add: pruneFindingCap_def prunes.rel_refl)
next
  case False
  then have c: "0 < MaxFindings cfg" "MaxFindings cfg < int (gm_len (findings m))" by auto
  from assms c show ?thesis
  proof (cases rule: pruneFindingCap_cases[where rt = rt])
    case (resolved m1 pruned)
    with pruneByStatus_deletes[OF assms, of rt cfg "''resolved''" _ "''cap-resolved''"]
    have "deletes m m1 \<and> maps_wf m1" by (metis snd_conv)
    with resolved(3) show ?thesis by (simp add: maps_wf_def prunes_dirty)
  next
    case (both m1 pruned m2 pruned2)
    have m1: "deletes m m1 \<and> maps_wf m1"
      using both(1) pruneByStatus_deletes[OF assms, of rt cfg "''resolved''" _ "''cap-resolved''"] by (metis snd_conv)
    then have "deletes m1 m2 \<and> maps_wf m2"
      using both(4) pruneByStatus_deletes[of m1 rt cfg "[]" _ "''cap''"] by (metis snd_conv)
    with m1 have "deletes m m2 \<and> maps_wf m2" using deletes.rel_trans by blast
    with both(5) show ?thesis by (simp add: maps_wf_def prunes_dirty)
  qed
qed

lemma pruneState_prunes:
  assumes "maps_wf m"
  shows "prunes m (pruneState rt cfg now m) \<and> maps_wf (pruneState rt cfg now m)"
proof -
  define m1 where "m1 = pruneStaleObservations rt cfg now m"
  define m2 where "m2 = pruneObservationCap rt cfg m1"
  define m3 where "m3 = pruneFindingCap rt cfg m2"
  have "prunes m m1 \<and> maps_wf m1" unfolding m1_def using assms by (rule pruneStale_prunes)
  moreover from this have "prunes m1 m2 \<and> maps_wf m2" unfolding m2_def by (intro pruneObservationCap_prunes) simp
  moreover from this have "prunes m2 m3 \<and> maps_wf m3" unfolding m3_def by (intro pruneFindingCap_prunes) simp
  ultimately have "prunes m m3 \<and> maps_wf m3" using prunes.rel_trans by blast
  then show ?thesis
    using prunes.rel_trans[of m m3 "updateStateMetrics cfg m3"]
    by (simp add: pruneState_def m3_def[symmetric] m2_def[symmetric] m1_def[symmetric] updateStateMetrics_def maps_wf_def)
qed

text \<open>As poll steps.\<close>

interpretation state_pruning: poll_step "quiet (\<lambda>f. False)" "\<lambda>m. m" "\<lambda>u :: unit. True"
  "\<lambda>u m. Some (pruneState rt cfg now m)" for rt :: "('q, 'w) runtime" and cfg now
proof
  fix u :: unit and m :: "'w monitor"
  assume wf: "state_wf (mn_state m)"
  then have p: "prunes m (pruneState rt cfg now m) \<and> maps_wf (pruneState rt cfg now m)"
    by (intro pruneState_prunes maps_wf_state)
  then have "state_wf (mn_state (pruneState rt cfg now m))"
    using wf by (auto simp: prunes_def intro: state_wf_deletes)
  with p show "\<exists>m'. Some (pruneState rt cfg now m) = Some m' \<and> state_wf (mn_state m') \<and> quiet (\<lambda>f. False) m m'"
    using prunes_quiet by blast
qed

section \<open>The size loops\<close>

text \<open>The search returns an oldest entry when no key is empty.\<close>

lemma oldest_search:
  assumes "es \<noteq> []" and "\<forall>e \<in> set es. fst e \<noteq> []"
  shows "(\<exists>e \<in> set es. fst (fold oldest_step es ([], 0)) = fst e \<and>
      (\<forall>e' \<in> set es. last_seen (snd e) \<le> last_seen (snd e')))"
proof -
  have key: "\<exists>e \<in> insert e0 (set es). fold oldest_step es (fst e0, last_seen (snd e0)) = (fst e, last_seen (snd e)) \<and>
      (\<forall>e' \<in> insert e0 (set es). last_seen (snd e) \<le> last_seen (snd e'))"
    if "fst e0 \<noteq> []" "\<forall>e \<in> set es. fst e \<noteq> []" for e0 :: "string \<times> Observation option" and es
    using that
  proof (induction es arbitrary: e0)
    case Nil
    then show ?case by simp
  next
    case (Cons e es)
    show ?case
    proof (cases "last_seen (snd e) < last_seen (snd e0)")
      case True
      with Cons.IH[of e] Cons.prems show ?thesis by (fastforce simp: oldest_step_def before_def)
    next
      case False
      with Cons.IH[of e0] Cons.prems show ?thesis by (fastforce simp: oldest_step_def before_def)
    qed
  qed
  obtain e0 es' where es: "es = e0 # es'" using assms(1) by (cases es) auto
  have "fst e0 \<noteq> []" "\<forall>e \<in> set es'. fst e \<noteq> []" using assms(2) es by auto
  from key[OF this] obtain e where e: "e \<in> set es"
    "fold oldest_step es' (fst e0, last_seen (snd e0)) = (fst e, last_seen (snd e))"
    "\<forall>e' \<in> set es. last_seen (snd e) \<le> last_seen (snd e')"
    unfolding es list.set by blast
  have "fst (fold oldest_step es ([], 0)) = fst e"
    using e(2) by (simp add: es oldest_step_def)
  with e(1,3) show ?thesis by blast
qed

lemma pruneOldest_spec:
  assumes "maps_wf m" and "gm_get (observations m) [] = None" and "observations m \<noteq> []"
    and m'_def: "m' = pruneOldestObservation rt cfg reason m"
  shows "\<exists>k. k \<in> dom (gm_get (observations m)) \<and> observations m' = gm_del k (observations m) \<and>
    findings m' = findings m \<and> mn_dirty m' \<and> deletes m m' \<and> maps_wf m' \<and>
    (\<forall>k' ob ob'. gm_get (observations m) k = Some ob \<longrightarrow> gm_get (observations m) k' = Some ob' \<longrightarrow>
       last_seen ob \<le> last_seen ob')"
proof -
  obtain code m1 where a: "ask (rt_order rt) m = (code, m1)" by (cases "ask (rt_order rt) m")
  have m1: "mn_state m1 = mn_state m" using ask_sel(3)[of "rt_order rt" m] a by simp
  have wf: "gm_wf (observations m)" using assms(1) by (simp add: maps_wf_def)
  have ne: "\<forall>e \<in> set (observations m). fst e \<noteq> []"
    using assms(2) wf by (metis gm_get_mem option.distinct(1) prod.collapse)
  let ?es = "permute code (observations m)"
  obtain e where e: "e \<in> set (observations m)" "fst (fold oldest_step ?es ([], 0)) = fst e"
    "\<forall>e' \<in> set (observations m). last_seen (snd e) \<le> last_seen (snd e')"
    using oldest_search[of ?es] ne assms(3) by (metis length_0_conv length_permute set_permute)
  have m': "m' = mark_dirty (drop_observation cfg reason (fst e) m1)"
    using ne e(1,2) by (simp add: m'_def pruneOldestObservation_def a m1 Let_def)
  have d1: "deletes m m1 \<and> maps_wf m1" using deletes_ask[OF assms(1), of "rt_order rt"] a by simp
  have d2: "deletes m1 (drop_observation cfg reason (fst e) m1) \<and> maps_wf (drop_observation cfg reason (fst e) m1)"
    using d1 by (intro deletes_drop_observation) simp
  have d3: "deletes m m' \<and> maps_wf m'"
    unfolding m' using d1 d2 deletes_mark_dirty deletes.rel_trans by blast
  have get: "gm_get (observations m) k = Some ob \<longleftrightarrow> (k, ob) \<in> set (observations m)" for k ob
    using wf by (rule gm_get_mem)
  show ?thesis
  proof (intro exI[of _ "fst e"] conjI)
    show "fst e \<in> dom (gm_get (observations m))" using e(1) get by (metis domI prod.collapse)
    show "\<forall>k' ob ob'. gm_get (observations m) (fst e) = Some ob \<longrightarrow> gm_get (observations m) k' = Some ob' \<longrightarrow>
        last_seen ob \<le> last_seen ob'"
      using e(1,3) get by (metis option.sel prod.collapse snd_conv)
  qed (use d3 in \<open>simp_all add: m' m1\<close>)
qed

text \<open>Without an empty key the first loop ends, with a size that is that of the state.\<close>

lemma shrink_observations_returns:
  assumes "maps_wf m" and "gm_get (observations m) [] = None" and "currentStateBytes rt m = Some bytes"
  shows "\<exists>r m'. shrink_observations rt cfg maxBytes bytes m = Some (r, m') \<and> prunes m m' \<and> maps_wf m' \<and>
    findings m' = findings m \<and> currentStateBytes rt m' = r \<and>
    (\<forall>b. r = Some b \<longrightarrow> b \<le> maxBytes \<or> observations m' = [])"
  using assms
proof (induction "gm_len (observations m)" arbitrary: m bytes rule: less_induct)
  case less
  show ?case
  proof (cases "gm_len (observations m) > 0 \<and> bytes > maxBytes")
    case False
    with less.prems show ?thesis
      by (subst shrink_observations.simps) (auto simp: prunes.rel_refl gm_len_def)
  next
    case True
    define m1 where "m1 = pruneOldestObservation rt cfg ''size'' m"
    have ne: "observations m \<noteq> []" using True by (auto simp: gm_len_def)
    obtain k where k: "k \<in> dom (gm_get (observations m))" "observations m1 = gm_del k (observations m)"
      "findings m1 = findings m" "mn_dirty m1" "deletes m m1" "maps_wf m1"
      using pruneOldest_spec[OF less.prems(1,2) ne m1_def] by blast
    have p: "prunes m m1" using k(4,5) by (simp add: prunes_def)
    have wf: "gm_wf (observations m)" using less.prems(1) by (simp add: maps_wf_def)
    show ?thesis
    proof (cases "currentStateBytes rt m1")
      case None
      with True p k(3,6) show ?thesis
        by (subst shrink_observations.simps) (simp add: m1_def[symmetric])
    next
      case (Some b)
      have "gm_len (observations m1) < gm_len (observations m)"
        using k(1,2) wf gm.len_del[OF wf, of k] True by auto
      moreover have "gm_get (observations m1) [] = None"
        using less.prems(2) wf by (simp add: k(2) go_map_simps)
      ultimately obtain r m' where r: "shrink_observations rt cfg maxBytes b m1 = Some (r, m')" "prunes m1 m'"
        "maps_wf m'" "findings m' = findings m1" "currentStateBytes rt m' = r"
        "\<forall>b. r = Some b \<longrightarrow> b \<le> maxBytes \<or> observations m' = []"
        using less.hyps[of m1 b] k(6) Some by blast
      have "shrink_observations rt cfg maxBytes bytes m = Some (r, m')"
        using True Some r(1) by (subst shrink_observations.simps) (simp add: m1_def[symmetric])
      with r p k(3) prunes.rel_trans show ?thesis by metis
    qed
  qed
qed

text \<open>Findings that are not resolved survive the second loop.\<close>

definition keeps_unresolved :: "'w monitor \<Rightarrow> 'w monitor \<Rightarrow> bool" where
  "keeps_unresolved m m' \<longleftrightarrow>
     (\<forall>k st. gm_get (findings m) k = Some (Some st) \<longrightarrow> fs_Status st \<noteq> ''resolved'' \<longrightarrow>
        gm_get (findings m') k = Some (Some st))"

interpretation keeps_unresolved: evolution keeps_unresolved
  by unfold_locales (auto simp: keeps_unresolved_def)

lemma shrink_findings_spec:
  assumes "maps_wf m" and "currentStateBytes rt m = Some bytes" and "shrink_findings rt cfg maxBytes bytes m = (r, m')"
  shows "prunes m m' \<and> maps_wf m' \<and> keeps_unresolved m m' \<and> observations m' = observations m \<and>
    currentStateBytes rt m' = r \<and>
    (\<forall>b. r = Some b \<longrightarrow> b \<le> maxBytes \<or> count_selected ''resolved'' m' = 0)"
  using assms
proof (induction rt cfg maxBytes bytes m arbitrary: r m' rule: shrink_findings.induct)
  case (1 rt cfg maxBytes bytes m)
  show ?case
  proof (cases "maxBytes < bytes")
    case False
    with "1.prems" show ?thesis
      by (subst (asm) shrink_findings.simps) (auto simp: prunes.rel_refl keeps_unresolved.rel_refl)
  next
    case True
    obtain pruned m1 where p: "pruneFindingsByStatus rt cfg ''resolved'' 1 ''size'' m = (pruned, m1)"
      by (cases "pruneFindingsByStatus rt cfg ''resolved'' 1 ''size'' m")
    have d: "deletes m m1 \<and> maps_wf m1"
      using pruneByStatus_deletes[OF "1.prems"(1), of rt cfg "''resolved''" 1 "''size''"] p by simp
    obtain gone where g: "pruned = min 1 (int (count_selected ''resolved'' m))"
      "\<And>k. gm_get (findings m1) k = (if k \<in> gone then None else gm_get (findings m) k)"
      "\<And>k. k \<in> gone \<Longrightarrow> \<exists>p. gm_get (findings m) k = Some p \<and> selected ''resolved'' p"
      "observations m1 = observations m"
      using pruneByStatus_spec[OF "1.prems"(1) _ p] by (metis zero_less_one)
    have keep: "keeps_unresolved m m1"
      using g(2,3) by (fastforce simp: keeps_unresolved_def selected_def)
    show ?thesis
    proof (cases "pruned = 0")
      case pz: True
      have st: "mn_state m1 = mn_state m"
        using p pz by (auto simp: pruneFindingsByStatus_def Let_def ask_def split: prod.splits)
      have "mn_dirty m1 = mn_dirty m"
        using p pz by (auto simp: pruneFindingsByStatus_def Let_def ask_def split: prod.splits)
      moreover have "r = Some bytes" "m' = m1"
        using "1.prems"(3) True p pz by (subst (asm) shrink_findings.simps; simp)+
      moreover have "count_selected ''resolved'' m = 0" using g(1) pz by simp
      ultimately show ?thesis
        using d keep st "1.prems"(2) by (simp add: prunes_def currentStateBytes_def count_selected_def)
    next
      case False
      have p1: "prunes m (mark_dirty m1)" "maps_wf (mark_dirty m1)" "keeps_unresolved m (mark_dirty m1)"
        using d keep by (simp_all add: prunes_dirty maps_wf_def keeps_unresolved_def)
      show ?thesis
      proof (cases "currentStateBytes rt (mark_dirty m1)")
        case None
        then have "r = None" "m' = mark_dirty m1"
          using "1.prems"(3) True p False by (subst (asm) shrink_findings.simps; simp)+
        with None p1 g(4) show ?thesis by simp
      next
        case (Some b)
        then have s: "shrink_findings rt cfg maxBytes b (mark_dirty m1) = (r, m')"
          using "1.prems"(3) True p False by (subst (asm) shrink_findings.simps) simp
        note IH = "1.IH"[OF True p[symmetric] False Some p1(2) Some s]
        have "prunes m m'" using p1(1) IH prunes.rel_trans by blast
        moreover have "keeps_unresolved m m'" using p1(3) IH keeps_unresolved.rel_trans by blast
        ultimately show ?thesis using IH g(4) by simp
      qed
    qed
  qed
qed

lemma pruneForStateSize_returns:
  assumes "state_wf (mn_state m)" and "0 < maxBytes"
  shows "\<exists>r m'. pruneForStateSize rt cfg maxBytes m = Some (r, m') \<and> prunes m m' \<and> maps_wf m' \<and>
    keeps_unresolved m m' \<and> currentStateBytes rt m' = r \<and>
    (\<forall>b. r = Some b \<longrightarrow> b \<le> maxBytes \<or> observations m' = [] \<and> count_selected ''resolved'' m' = 0)"
proof -
  have wf: "maps_wf m" "gm_get (observations m) [] = None"
    using assms(1) by (simp_all add: state_wf_def maps_wf_def)
  show ?thesis
  proof (cases "currentStateBytes rt m")
    case None
    then show ?thesis
      using wf assms(2) by (simp add: pruneForStateSize_def prunes.rel_refl keeps_unresolved.rel_refl)
  next
    case (Some bytes)
    show ?thesis
    proof (cases "bytes \<le> maxBytes")
      case True
      then show ?thesis
        using Some wf assms(2) by (simp add: pruneForStateSize_def prunes.rel_refl keeps_unresolved.rel_refl)
    next
      case False
      obtain r1 m1 where s: "shrink_observations rt cfg maxBytes bytes m = Some (r1, m1)" "prunes m m1" "maps_wf m1"
        "findings m1 = findings m" "currentStateBytes rt m1 = r1"
        "\<forall>b. r1 = Some b \<longrightarrow> b \<le> maxBytes \<or> observations m1 = []"
        using shrink_observations_returns[OF wf Some, of cfg maxBytes] by blast
      have k1: "keeps_unresolved m m1" by (simp add: keeps_unresolved_def s(4))
      show ?thesis
      proof (cases r1)
        case None
        with s k1 Some False assms(2) show ?thesis by (simp add: pruneForStateSize_def)
      next
        case (Some b1)
        obtain r m' where f: "shrink_findings rt cfg maxBytes b1 m1 = (r, m')"
          by (cases "shrink_findings rt cfg maxBytes b1 m1")
        have run: "pruneForStateSize rt cfg maxBytes m = Some (r, m')"
          using \<open>currentStateBytes rt m = Some bytes\<close> False assms(2) s(1) Some f by (simp add: pruneForStateSize_def)
        note spec = shrink_findings_spec[OF s(3) _ f, unfolded s(5), OF Some]
        have "\<forall>b. r = Some b \<longrightarrow> b \<le> maxBytes \<or> observations m' = [] \<and> count_selected ''resolved'' m' = 0"
        proof (cases "maxBytes < b1")
          case True
          then have "observations m1 = []" using s(6) Some by auto
          with spec show ?thesis by auto
        next
          case False
          then have "r = Some b1" using f by (subst (asm) shrink_findings.simps) simp
          with False show ?thesis by simp
        qed
        with run spec s(2) k1 show ?thesis
          using prunes.rel_trans keeps_unresolved.rel_trans by blast
      qed
    qed
  qed
qed

section \<open>Expiry\<close>

lemma expired_findings_spec:
  assumes "state_wf (mn_state m)" and "0 < ResolvedFindingRetention cfg"
    and "expireResolvedFindings rt cfg now m = Some m'"
  shows "gm_get (findings m') k =
    (if expired cfg now (the (gm_get (findings m) k)) \<and> gm_get (findings m) k \<noteq> None then None
     else gm_get (findings m) k)"
proof -
  obtain code m1 where a: "ask (rt_order rt) m = (code, m1)" by (cases "ask (rt_order rt) m")
  have m1: "mn_state m1 = mn_state m" using ask_sel(3)[of "rt_order rt" m] a by simp
  let ?ks = "permute code (gm_keys (findings m))"
  have ks: "set ?ks = dom (gm_get (findings m))"
    using wf_maps(1)[OF assms(1)] by (simp add: gm.set_keys)
  have "foldM (expire_one cfg now) ?ks m1 = Some m'"
    using assms(2,3) by (simp add: expireResolvedFindings_def a m1)
  from expired_findings.loop_entries[OF this, of k] assms(1) ks show ?thesis
    by (auto simp: m1)
qed

text \<open>Pruning leaves the findings alone while they are within the cap.\<close>

lemma pruneState_findings:
  assumes "MaxFindings cfg \<le> 0 \<or> int (gm_len (findings m)) \<le> MaxFindings cfg"
  shows "findings (pruneState rt cfg now m) = findings m"
proof -
  have 1: "findings (pruneStaleObservations rt cfg now m) = findings m"
  proof -
    have "findings (fold (stale_step cfg now) ks m1) = findings m1" for ks and m1 :: "'a monitor"
      by (induction ks arbitrary: m1) (simp_all add: stale_step_cases)
    then show ?thesis by (simp add: pruneStaleObservations_def split_beta)
  qed
  have 2: "findings (pruneObservationCap rt cfg m1) = findings m1" for m1 :: "'a monitor"
    by (simp add: pruneObservationCap_def split_beta Let_def)
  show ?thesis using assms 1 2 by (simp add: pruneState_def updateStateMetrics_def pruneFindingCap_def)
qed

section \<open>The caps\<close>

lemma observation_cap_spec:
  assumes "state_wf (mn_state m)" and "0 < MaxObservations cfg"
  shows "int (gm_len (observations (pruneObservationCap rt cfg m))) =
      min (int (gm_len (observations m))) (MaxObservations cfg) \<and>
    gm_get (observations (pruneObservationCap rt cfg m)) \<subseteq>\<^sub>m gm_get (observations m) \<and>
    (\<forall>k k' gone kept. gm_get (observations m) k = Some gone \<and>
       gm_get (observations (pruneObservationCap rt cfg m)) k = None \<and>
       gm_get (observations (pruneObservationCap rt cfg m)) k' = Some kept \<longrightarrow> last_seen gone \<le> last_seen kept)"
proof (cases "MaxObservations cfg < int (gm_len (observations m))")
  case False
  then show ?thesis by (auto simp: pruneObservationCap_def)
next
  case True
  have wf: "gm_wf (observations m)" using assms(1) by (simp add: wf_maps)
  obtain code gone where
    g: "gone = map fst (take (nat (int (gm_len (observations m)) - MaxObservations cfg))
       (oldest_first (map (\<lambda>(key, obs). (key, last_seen obs)) (permute code (observations m)))))"
    and o: "observations (pruneObservationCap rt cfg m) = fold gm_del gone (observations m)"
    by (rule pruneObservationCap_exceeded[OF assms(2) True])
  let ?items = "map (\<lambda>(key, obs). (key, last_seen obs)) (permute code (observations m))"
  have dist: "distinct (map fst ?items)"
    using wf mset_eq_imp_distinct_iff[of "map fst (permute code (observations m))" "map fst (observations m)"]
    unfolding map_fst_items by (simp add: gm_wf_def)
  have sub: "set (map fst ?items) \<subseteq> dom (gm_get (observations m))"
    unfolding map_fst_items by (simp add: gm_get_def dom_map_of_conv_image_fst)
  note del = delete_oldest[OF wf dist sub g]
  have mem: "(k, last_seen ob) \<in> set ?items" if "gm_get (observations m) k = Some ob" for k ob
    using that wf by (force simp: gm_get_mem image_iff)
  have "int (gm_len (observations (pruneObservationCap rt cfg m))) = MaxObservations cfg"
    using del(1) True assms(2) by (simp add: o gm_len_def)
  moreover have "gm_get (observations (pruneObservationCap rt cfg m)) \<subseteq>\<^sub>m gm_get (observations m)"
    by (auto simp: o del(2) map_le_def dom_def split: if_splits)
  moreover have "last_seen old \<le> last_seen kept"
    if "gm_get (observations m) k = Some old" "gm_get (observations (pruneObservationCap rt cfg m)) k = None"
      "gm_get (observations (pruneObservationCap rt cfg m)) k' = Some kept" for k k' old kept
    using that del(3)[of k "last_seen old" k' "last_seen kept"] mem
    by (auto simp: o del(2) split: if_splits)
  ultimately show ?thesis using True by (simp add: min_def) blast
qed

lemma finding_cap_spec:
  assumes "state_wf (mn_state m)" and "0 < MaxFindings cfg"
  shows "int (gm_len (findings (pruneFindingCap rt cfg m))) = min (int (gm_len (findings m))) (MaxFindings cfg) \<and>
    gm_get (findings (pruneFindingCap rt cfg m)) \<subseteq>\<^sub>m gm_get (findings m) \<and>
    (\<forall>k k' gone kept. gm_get (findings m) k = Some (Some gone) \<and>
       gm_get (findings (pruneFindingCap rt cfg m)) k = None \<and> fs_Status gone \<noteq> ''resolved'' \<and>
       gm_get (findings (pruneFindingCap rt cfg m)) k' = Some (Some kept) \<longrightarrow> fs_Status kept \<noteq> ''resolved'')"
proof (cases "MaxFindings cfg < int (gm_len (findings m))")
  case False
  then show ?thesis by (auto simp: pruneFindingCap_def)
next
  case True
  have wf: "maps_wf m" using assms(1) by (rule maps_wf_state)
  have le: "gm_get (findings (pruneFindingCap rt cfg m)) \<subseteq>\<^sub>m gm_get (findings m)"
    using pruneFindingCap_prunes[OF wf, of rt cfg] by (simp add: prunes_def deletes_def)
  have pos: "0 < int (gm_len (findings m)) - MaxFindings cfg" using True by simp
  from wf assms(2) True show ?thesis
  proof (cases rule: pruneFindingCap_cases[where rt = rt])
    case (resolved m1 pruned)
    obtain gone where g: "\<And>k. gm_get (findings m1) k = (if k \<in> gone then None else gm_get (findings m) k)"
      "\<And>k. k \<in> gone \<Longrightarrow> \<exists>p. gm_get (findings m) k = Some p \<and> selected ''resolved'' p"
      using pruneByStatus_spec[OF wf pos resolved(1)] by metis
    have f: "findings (pruneFindingCap rt cfg m) = findings m1" by (simp add: resolved(3))
    have "fs_Status st = ''resolved''"
      if "gm_get (findings m) k = Some (Some st)" "gm_get (findings m1) k = None" for k st
    proof -
      have "k \<in> gone" using that g(1)[of k] by (auto split: if_splits)
      from g(2)[OF this] that(1) show ?thesis by (auto simp: selected_def)
    qed
    then have rest: "\<not> (gm_get (findings m) k = Some (Some st) \<and> gm_get (findings m1) k = None \<and>
        fs_Status st \<noteq> ''resolved'')" for k st
      by blast
    show ?thesis
      using resolved(4) True le unfolding f by (intro conjI) (simp_all, use rest in blast)
  next
    case (both m1 pruned m2 pruned2)
    obtain gone where g: "\<And>k. gm_get (findings m1) k = (if k \<in> gone then None else gm_get (findings m) k)"
      "\<And>k. k \<in> gone \<Longrightarrow> \<exists>p. gm_get (findings m) k = Some p \<and> selected ''resolved'' p"
      "card gone = nat pruned"
      using pruneByStatus_spec[OF wf pos both(1)] by metis
    let ?res = "{k. \<exists>p. gm_get (findings m) k = Some p \<and> selected ''resolved'' p}"
    have "finite ?res"
      by (rule finite_subset[OF _ gm.finite_dom[of "findings m"]]) (use wf in \<open>auto simp: maps_wf_def\<close>)
    moreover have "gone \<subseteq> ?res" using g(2) by blast
    moreover have "card gone = card ?res" using g(3) both(2) by (simp add: count_selected_def)
    ultimately have gone: "gone = ?res" by (rule card_subset_eq)
    have m1: "maps_wf m1"
      using pruneByStatus_deletes[OF wf, of rt cfg "''resolved''" "int (gm_len (findings m)) - MaxFindings cfg" "''cap-resolved''"] both(1) by simp
    have pos2: "0 < int (gm_len (findings m1)) - MaxFindings cfg" using both(3) by simp
    obtain gone2 where g2: "pruned2 = min (int (gm_len (findings m1)) - MaxFindings cfg) (int (gm_len (findings m1)))"
      "gm_len (findings m2) = gm_len (findings m1) - nat pruned2"
      "\<And>k. gm_get (findings m2) k = (if k \<in> gone2 then None else gm_get (findings m1) k)"
      using pruneByStatus_spec[OF m1 pos2 both(4)] count_selected_all[OF m1] by metis
    have "int (gm_len (findings m2)) = MaxFindings cfg"
      using g2(1,2) assms(2) pos2 by (simp add: min_def split: if_splits)
    moreover have "fs_Status st \<noteq> ''resolved''" if "gm_get (findings m2) k = Some (Some st)" for k st
    proof
      assume "fs_Status st = ''resolved''"
      then have "selected ''resolved'' (Some st)" by (simp add: selected_def)
      moreover have "gm_get (findings m) k = Some (Some st)" "k \<notin> gone"
        using that g2(3)[of k] g(1)[of k] by (auto split: if_splits)
      ultimately show False using gone by blast
    qed
    moreover have f: "findings (pruneFindingCap rt cfg m) = findings m2" by (simp add: both(5))
    ultimately show ?thesis using True le unfolding f by (intro conjI) (simp_all, blast)
  qed
qed

lemma pruneFindingCap_observations:
  assumes "maps_wf m"
  shows "observations (pruneFindingCap rt cfg m) = observations m"
proof (cases "0 < MaxFindings cfg \<and> MaxFindings cfg < int (gm_len (findings m))")
  case False
  then show ?thesis by (auto simp: pruneFindingCap_def)
next
  case True
  then have c: "0 < MaxFindings cfg" "MaxFindings cfg < int (gm_len (findings m))" by auto
  have pos: "0 < int (gm_len (findings m)) - MaxFindings cfg" using c by simp
  from assms c show ?thesis
  proof (cases rule: pruneFindingCap_cases[where rt = rt])
    case (resolved m1 pruned)
    have "observations m1 = observations m"
      using pruneByStatus_spec[OF assms pos resolved(1)] by blast
    with resolved(3) show ?thesis by simp
  next
    case (both m1 pruned m2 pruned2)
    have m1: "maps_wf m1"
      using pruneByStatus_deletes[OF assms, of rt cfg "''resolved''" "int (gm_len (findings m)) - MaxFindings cfg" "''cap-resolved''"]
        both(1) by simp
    have pos2: "0 < int (gm_len (findings m1)) - MaxFindings cfg" using both(3) by simp
    have "observations m1 = observations m" using pruneByStatus_spec[OF assms pos both(1)] by blast
    moreover have "observations m2 = observations m1" using pruneByStatus_spec[OF m1 pos2 both(4)] by blast
    ultimately show ?thesis using both(5) by simp
  qed
qed

text \<open>After \<open>pruneState\<close> both caps hold.\<close>

lemma pruneState_caps:
  assumes "state_wf (mn_state m)"
  shows "(0 < MaxObservations cfg \<longrightarrow> int (gm_len (observations (pruneState rt cfg now m))) \<le> MaxObservations cfg) \<and>
    (0 < MaxFindings cfg \<longrightarrow> int (gm_len (findings (pruneState rt cfg now m))) \<le> MaxFindings cfg)"
proof -
  define m1 where "m1 = pruneStaleObservations rt cfg now m"
  define m2 where "m2 = pruneObservationCap rt cfg m1"
  have p1: "prunes m m1 \<and> maps_wf m1" unfolding m1_def using maps_wf_state[OF assms] by (rule pruneStale_prunes)
  then have wf1: "state_wf (mn_state m1)" using assms by (auto simp: prunes_def intro: state_wf_deletes)
  have p2: "prunes m1 m2 \<and> maps_wf m2" unfolding m2_def using p1 by (intro pruneObservationCap_prunes) simp
  then have wf2: "state_wf (mn_state m2)" using wf1 by (auto simp: prunes_def intro: state_wf_deletes)
  have "pruneState rt cfg now m = updateStateMetrics cfg (pruneFindingCap rt cfg m2)"
    by (simp add: pruneState_def m1_def m2_def)
  then have f: "findings (pruneState rt cfg now m) = findings (pruneFindingCap rt cfg m2)"
    and o: "observations (pruneState rt cfg now m) = observations m2"
    using pruneFindingCap_observations[of m2 rt cfg] p2 by (simp_all add: updateStateMetrics_def)
  show ?thesis
    using observation_cap_spec[OF wf1, of cfg rt] finding_cap_spec[OF wf2, of cfg rt]
    unfolding f o m2_def[symmetric] by simp
qed

lemma gm_len_mono: "gm_wf a \<Longrightarrow> gm_wf b \<Longrightarrow> gm_get a \<subseteq>\<^sub>m gm_get b \<Longrightarrow> gm_len a \<le> gm_len b"
  by (simp add: gm.len_card card_mono gm.finite_dom map_le_implies_dom_le)

section \<open>The empty key\<close>

text \<open>
  An observation under the empty key, alone in the map, is never deleted by the search, so
  the first loop does not end while the state is too large.
\<close>

lemma prune_oldest_empty_key:
  assumes "observations m = [([], ob)]"
  shows "mn_state (pruneOldestObservation rt cfg reason m) = mn_state m"
proof -
  obtain code m1 where a: "ask (rt_order rt) m = (code, m1)" by (cases "ask (rt_order rt) m")
  have m1: "mn_state m1 = mn_state m" using ask_sel(3)[of "rt_order rt" m] a by simp
  have "permute code (observations m) = observations m"
    unfolding assms by (cases code) (simp_all add: permute.simps(3) remove_nth_def Let_def)
  then show ?thesis
    by (simp add: pruneOldestObservation_def a m1 assms oldest_step_def Let_def)
qed

definition stuck :: "('q, 'w) runtime \<Rightarrow> int \<Rightarrow> int \<Rightarrow> 'w monitor \<Rightarrow> bool" where
  "stuck rt maxBytes bytes m \<longleftrightarrow>
     (\<exists>ob. observations m = [([], ob)]) \<and> maxBytes < bytes \<and>
     (\<exists>data. marshal (rt_codec rt) (mn_state m) = Some data \<and> maxBytes < int (length data))"

lemma shrink_empty_key_diverges:
  assumes "shrink_observations rt cfg maxBytes bytes m = Some r"
  shows "\<not> stuck rt maxBytes bytes m"
proof (rule shrink_observations.raw_induct[where P = "\<lambda>rt cfg maxBytes bytes m r. \<not> stuck rt maxBytes bytes m", OF _ assms])
  fix shrink :: "('q, 'w) runtime \<Rightarrow> Config \<Rightarrow> int \<Rightarrow> int \<Rightarrow> 'w monitor \<Rightarrow> (int option \<times> 'w monitor) option"
    and rt :: "('q, 'w) runtime" and cfg maxBytes bytes and m :: "'w monitor" and r
  let ?m1 = "pruneOldestObservation rt cfg ''size'' m"
  assume IH: "\<And>rt cfg maxBytes bytes m y. shrink rt cfg maxBytes bytes m = Some y \<Longrightarrow> \<not> stuck rt maxBytes bytes m"
    and run: "(if 0 < gm_len (observations m) \<and> maxBytes < bytes
      then case currentStateBytes rt ?m1 of
             None \<Rightarrow> Some (None, ?m1)
           | Some bytes' \<Rightarrow> shrink rt cfg maxBytes bytes' ?m1
      else Some (Some bytes, m)) = Some r"
  show "\<not> stuck rt maxBytes bytes m"
  proof
    assume a: "stuck rt maxBytes bytes m"
    then have st: "mn_state ?m1 = mn_state m" using prune_oldest_empty_key by (auto simp: stuck_def)
    from a obtain data where data: "marshal (rt_codec rt) (mn_state m) = Some data" "maxBytes < int (length data)"
      by (auto simp: stuck_def)
    have "shrink rt cfg maxBytes (int (length data)) ?m1 = Some r"
      using run a data st by (auto simp: stuck_def currentStateBytes_def gm_len_def)
    from IH[OF this] a data st show False by (simp add: stuck_def)
  qed
qed

definition sizing_codec :: codec where
  "sizing_codec = \<lparr>marshal = (\<lambda>s. Some (replicate (10 * (gm_len (ms_Findings s) + gm_len (ms_Observations s))) CHR ''x'')),
                  unmarshal = (\<lambda>raw. None)\<rparr>"

section \<open>Properties\<close>

text \<open>
  Observations past their retention, and no others, are removed: those with a time that
  lies further back than the configured period.
\<close>

lemma stale_observations_exact:
  assumes "state_wf (mn_state m)" and "0 < ObservationRetention cfg"
  shows "gm_get (observations (pruneStaleObservations rt cfg now m)) k =
    (if stale cfg now (the (gm_get (observations m) k)) \<and> gm_get (observations m) k \<noteq> None then None
     else gm_get (observations m) k)"
proof -
  obtain code m1 where a: "ask (rt_order rt) m = (code, m1)" by (cases "ask (rt_order rt) m")
  have m1: "mn_state m1 = mn_state m" using ask_sel(3)[of "rt_order rt" m] a by simp
  let ?ks = "permute code (gm_keys (observations m))"
  have ks: "set ?ks = dom (gm_get (observations m))"
    using wf_maps(2)[OF assms(1)] by (simp add: gm.set_keys)
  have "foldM (\<lambda>k m. Some (stale_step cfg now k m)) ?ks m1 = Some (pruneStaleObservations rt cfg now m)"
    using assms(2) by (simp add: foldM_Some pruneStaleObservations_def a m1)
  from stale_observations.loop_entries[OF this, of k] assms(1) ks show ?thesis
    by (auto simp: m1)
qed

definition old_monitor :: "cluster monitor" where
  "old_monitor = demo_monitor ((newMonitorState ''ns'')
     \<lparr>ms_Observations := [(''a'', Some \<lparr>ob_RestartCount = 0, ob_LastSeen = 1,
        ob_MemorySamplesPct = [], ob_LastResourceSample = 0\<rparr>)]\<rparr>)"

lemma old_monitor_wf: "state_wf (mn_state old_monitor)"
  by (simp add: old_monitor_def state_wf_def gm_wf_def)

text \<open>
  C25. The cap on observations: afterwards there are at most \<open>MaxObservations\<close>, as many as
  before if there were fewer; what is kept is unchanged, and nothing that is kept is older
  than something that was deleted.
\<close>

theorem observation_cap:
  assumes "state_wf (mn_state m)" and "0 < MaxObservations cfg"
  shows "int (gm_len (observations (pruneObservationCap rt cfg m))) =
      min (int (gm_len (observations m))) (MaxObservations cfg) \<and>
    gm_get (observations (pruneObservationCap rt cfg m)) \<subseteq>\<^sub>m gm_get (observations m) \<and>
    (\<forall>k k' gone kept. gm_get (observations m) k = Some gone \<and>
       gm_get (observations (pruneObservationCap rt cfg m)) k = None \<and>
       gm_get (observations (pruneObservationCap rt cfg m)) k' = Some kept \<longrightarrow> last_seen gone \<le> last_seen kept)"
  using assms by (rule observation_cap_spec)

theorem observation_cap_witness:
  "int (gm_len (observations (pruneObservationCap (demo_runtime True sizing_codec) demo_config old_monitor))) = 1"
proof -
  have "MaxObservations demo_config = 5000"
    by (simp add: LoadConfig_def intEnv_def Let_def)
  then show ?thesis
    using observation_cap[OF old_monitor_wf, of demo_config "demo_runtime True sizing_codec"]
    by (simp add: old_monitor_def gm_len_def)
qed

text \<open>
  C24. The cap on findings: afterwards there are at most \<open>MaxFindings\<close>, as many as before if
  there were fewer; what is kept is unchanged; and a finding that is not resolved is deleted
  only if no resolved finding is left.
\<close>

theorem finding_cap:
  assumes "state_wf (mn_state m)" and "0 < MaxFindings cfg"
  shows "int (gm_len (findings (pruneFindingCap rt cfg m))) = min (int (gm_len (findings m))) (MaxFindings cfg) \<and>
    gm_get (findings (pruneFindingCap rt cfg m)) \<subseteq>\<^sub>m gm_get (findings m) \<and>
    (\<forall>k k' gone kept. gm_get (findings m) k = Some (Some gone) \<and>
       gm_get (findings (pruneFindingCap rt cfg m)) k = None \<and> fs_Status gone \<noteq> ''resolved'' \<and>
       gm_get (findings (pruneFindingCap rt cfg m)) k' = Some (Some kept) \<longrightarrow> fs_Status kept \<noteq> ''resolved'')"
  using assms by (rule finding_cap_spec)

theorem finding_cap_witness:
  "int (gm_len (findings (pruneFindingCap (demo_runtime True sizing_codec) (demo_config\<lparr>MaxFindings := 3\<rparr>) known_monitor))) = 1"
proof -
  have wf: "state_wf (mn_state known_monitor)"
    by (simp add: known_monitor_def state_wf_def gm_wf_def)
  show ?thesis
    using finding_cap[OF wf, of "demo_config\<lparr>MaxFindings := 3\<rparr>" "demo_runtime True sizing_codec"]
    by (simp add: known_monitor_def gm_len_def)
qed

text \<open>
  C22. Pruning for size ends on every well-formed state, whatever the codec makes of the
  sizes. It only deletes, marks what it deletes as dirty, keeps every finding that is not
  resolved, and reports the size of the state it leaves: within the limit, or with no
  observation and no resolved finding left to delete.
\<close>

theorem size_pruning_terminates:
  assumes "state_wf (mn_state m)" and "0 < maxBytes"
  shows "\<exists>r m'. pruneForStateSize rt cfg maxBytes m = Some (r, m') \<and>
    gm_get (findings m') \<subseteq>\<^sub>m gm_get (findings m) \<and> gm_get (observations m') \<subseteq>\<^sub>m gm_get (observations m) \<and>
    (mn_dirty m' \<or> mn_state m' = mn_state m) \<and>
    (\<forall>k st. gm_get (findings m) k = Some (Some st) \<and> fs_Status st \<noteq> ''resolved'' \<longrightarrow>
       gm_get (findings m') k = Some (Some st)) \<and>
    currentStateBytes rt m' = r \<and>
    (\<forall>b. r = Some b \<longrightarrow> b \<le> maxBytes \<or>
       observations m' = [] \<and> (\<forall>k st. gm_get (findings m') k = Some (Some st) \<longrightarrow> fs_Status st \<noteq> ''resolved''))"
proof -
  obtain r m' where r: "pruneForStateSize rt cfg maxBytes m = Some (r, m')" "prunes m m'" "maps_wf m'"
    "keeps_unresolved m m'" "currentStateBytes rt m' = r"
    "\<forall>b. r = Some b \<longrightarrow> b \<le> maxBytes \<or> observations m' = [] \<and> count_selected ''resolved'' m' = 0"
    using pruneForStateSize_returns[OF assms] by blast
  have "fs_Status st \<noteq> ''resolved''"
    if "count_selected ''resolved'' m' = 0" "gm_get (findings m') k = Some (Some st)" for k st
  proof -
    have "finite {k. \<exists>p. gm_get (findings m') k = Some p \<and> selected ''resolved'' p}"
      using gm.finite_dom[of "findings m'"] r(3) by (auto simp: maps_wf_def intro: rev_finite_subset)
    with that(1) have "{k. \<exists>p. gm_get (findings m') k = Some p \<and> selected ''resolved'' p} = {}"
      by (simp add: count_selected_def)
    with that(2) have "\<not> selected ''resolved'' (Some st)" by blast
    then show ?thesis by (simp add: selected_def)
  qed
  with r show ?thesis
    by (intro exI[of _ r] exI[of _ m']) (auto simp: prunes_def deletes_def keeps_unresolved_def)
qed

theorem size_pruning_terminates_witness:
  "\<exists>r m'. pruneForStateSize (demo_runtime True sizing_codec) demo_config 5 old_monitor = Some (r, m') \<and>
     r = Some 0 \<and> observations m' = []"
proof -
  have pos: "0 < (5 :: int)" by simp
  from size_pruning_terminates[OF old_monitor_wf pos, of "demo_runtime True sizing_codec" demo_config]
  obtain r m' where r: "pruneForStateSize (demo_runtime True sizing_codec) demo_config 5 old_monitor = Some (r, m')"
    "gm_get (findings m') \<subseteq>\<^sub>m gm_get (findings old_monitor)" "currentStateBytes (demo_runtime True sizing_codec) m' = r"
    "\<forall>b. r = Some b \<longrightarrow> b \<le> 5 \<or> observations m' = []"
    by blast
  have "gm_get (findings m') = Map.empty" using r(2) by (simp add: old_monitor_def map_le_def fun_eq_iff) (metis domIff)
  then have f: "findings m' = []" by (cases "findings m'") (auto simp: fun_eq_iff split: if_splits)
  have "r = Some (10 * int (gm_len (observations m')))"
    using r(3) f by (simp add: currentStateBytes_def sizing_codec_def gm_len_def)
  with r(4) have "observations m' = []" by (cases "observations m'") (auto simp: gm_len_def)
  with r(1) \<open>r = Some _\<close> show ?thesis by (simp add: gm_len_def)
qed

text \<open>
  C38. The loop over the observations relies on there being no empty key: if the only
  observation left is stored under the empty key and the state is still too large, the
  search finds nothing, deletes nothing, and the loop never ends. No check writes such an
  observation, but \<open>Load\<close> accepts one.
\<close>

theorem size_pruning_diverges_on_empty_key:
  assumes "observations m = [([], ob)]" and "0 < maxBytes"
    and "marshal (rt_codec rt) (mn_state m) = Some data" and "maxBytes < int (length data)"
  shows "pruneForStateSize rt cfg maxBytes m = None"
proof (cases "shrink_observations rt cfg maxBytes (int (length data)) m")
  case None
  then show ?thesis using assms by (simp add: pruneForStateSize_def currentStateBytes_def)
next
  case (Some r)
  from shrink_empty_key_diverges[OF this] assms show ?thesis by (auto simp: stuck_def)
qed

theorem size_pruning_diverges_on_empty_key_witness:
  "pruneForStateSize (demo_runtime True sizing_codec) demo_config 5
     (demo_monitor ((newMonitorState ''ns'')\<lparr>ms_Observations := [([], None)]\<rparr>)) = None"
  by (rule size_pruning_diverges_on_empty_key[of _ None _ _ "replicate 10 CHR ''x''"])
     (simp_all add: sizing_codec_def gm_len_def)

end
