(* ===== verification/Poll_Cycle.thy ===== *)
theory Poll_Cycle
  imports Pruning_Facts
begin

text \<open>
  The poll of \<open>monitor.go\<close>: the throttled, size-limited write of the state (\<open>maybeSave\<close>), the
  race of a check against its deadline (\<open>runCheck\<close>), and \<open>Poll\<close> itself, composed in the order
  of the source. A poll that does not return, or dereferences a nil pointer, is \<open>None\<close>.
\<close>

section \<open>Definitions\<close>

definition maybeSave :: "('q, 'w) runtime \<Rightarrow> Config \<Rightarrow> time \<Rightarrow> 'w monitor \<Rightarrow> 'w monitor option" where
  "maybeSave rt cfg now m =
     (if \<not> mn_dirty m \<or>
         (\<not> is_zero (mn_lastWrite m) \<and> time_sub now (mn_lastWrite m) < StateWriteInterval cfg)
      then Some m
      else (case pruneForStateSize rt cfg (MaxStateBytes cfg) m of
          None \<Rightarrow> None
        | Some (None, m1) \<Rightarrow> Some (emit [Inc ''state_writes_total'' [Namespace cfg, ''error'']] m1)
        | Some (Some bytes, m1) \<Rightarrow>
            if MaxStateBytes cfg > 0 \<and> bytes > MaxStateBytes cfg
            then Some (emit [Inc ''state_writes_total'' [Namespace cfg, ''too-large'']] m1)
            else let m2 = emit [SetGauge ''state_bytes'' [Namespace cfg] bytes] m1 in
              (case Save (rt_api rt) (rt_codec rt) (mn_store m2) (mn_state m2) (mn_world m2) of
                 (Some err, store, w) \<Rightarrow>
                   Some (emit [Inc ''state_writes_total'' [Namespace cfg, ''error'']]
                          (m2\<lparr>mn_store := store, mn_world := w\<rparr>))
               | (None, store, w) \<Rightarrow>
                   Some ((emit [Inc ''state_writes_total'' [Namespace cfg, ''ok'']]
                          (m2\<lparr>mn_store := store, mn_world := w\<rparr>))
                         \<lparr>mn_lastWrite := now, mn_dirty := False\<rparr>))))"

definition recordCheckTimeout :: "Config \<Rightarrow> string \<Rightarrow> 'w monitor \<Rightarrow> 'w monitor" where
  "recordCheckTimeout cfg nm m = emit [checks_total (Namespace cfg) nm ''timeout''] m"

type_synonym 'w check_fn = "'w \<Rightarrow> check_outcome \<times> 'w"

definition runCheck ::
  "('q, 'w) runtime \<Rightarrow> Config \<Rightarrow> string \<Rightarrow> 'w check_fn \<Rightarrow> 'w monitor \<Rightarrow> checkResult \<times> 'w monitor" where
  "runCheck rt cfg nm fn m =
     (case ask fn m of ((counters, res), m1) \<Rightarrow>
        if CheckTimeout cfg \<le> 0 then (res, emit counters m1)
        else (case ask (rt_race rt nm) m1 of
            (Delivered late, m2) \<Rightarrow>
              (res, if \<not> cr_complete res \<and> late then recordCheckTimeout cfg nm (emit counters m2)
                    else emit counters m2)
          | (DeadlineExpired n, m2) \<Rightarrow> (incomplete, recordCheckTimeout cfg nm (emit (take n counters) m2))
          | (ParentCancelled n, m2) \<Rightarrow> (incomplete, emit (take n counters) m2)))"

type_synonym 'w poll_acc = "'w monitor \<times> (string, Finding) go_map \<times> bool"

type_synonym 'w stage = "bool \<times> string \<times> 'w check_fn"

definition run_stage ::
  "('q, 'w) runtime \<Rightarrow> Config \<Rightarrow> time \<Rightarrow> 'w stage \<Rightarrow> 'w poll_acc \<Rightarrow> 'w poll_acc option" where
  "run_stage rt cfg now st acc =
     (case st of (enabled, nm, fn) \<Rightarrow> case acc of (m, active, complete) \<Rightarrow>
        if \<not> enabled then Some (m, active, complete)
        else (case runCheck rt cfg nm fn m of (res, m1) \<Rightarrow>
          case applyResult rt cfg res now (m1, active) of
            None \<Rightarrow> None
          | Some (m2, active') \<Rightarrow> Some (m2, active', complete \<and> cr_complete res)))"

text \<open>The nine checks that read the snapshot, in the order of the source.\<close>

definition poll_stages :: "('q, 'w) runtime \<Rightarrow> Config \<Rightarrow> 'q snapshot \<Rightarrow> 'w stage list" where
  "poll_stages rt cfg snap =
     [(Pods (Checks cfg), ''pods'', \<lambda>w. (checkPods cfg snap, w)),
      (ResourceSpecs (Checks cfg), ''resource-spec'', \<lambda>w. (checkResourceSpecs (rt_deps rt) cfg snap, w)),
      (Events (Checks cfg), ''events'', \<lambda>w. (checkEvents (rt_deps rt) cfg snap, w)),
      (Workloads (Checks cfg), ''workloads'', \<lambda>w. (checkWorkloads cfg snap, w)),
      (Services (Checks cfg), ''services'', \<lambda>w. (checkServices (rt_deps rt) cfg snap, w)),
      (PVCs (Checks cfg), ''pvcs'', \<lambda>w. (checkPVCs cfg snap, w)),
      (Scaling (Checks cfg), ''scaling'', \<lambda>w. (checkScaling cfg snap, w)),
      (Logs (Checks cfg), ''logs'', \<lambda>w. case rt_logs rt w of (logs, w') \<Rightarrow> (checkLogs logs cfg snap, w')),
      (ResourceUsage (Checks cfg), ''resource-usage'',
         \<lambda>w. case rt_metrics rt w of (ans, w') \<Rightarrow> (checkResourceUsage (rt_deps rt) ans cfg snap, w'))]"

text \<open>Discovery runs on the poll loop's goroutine, before the check; a fresh cache needs no call.\<close>

definition discover :: "('q, 'w) runtime \<Rightarrow> Config \<Rightarrow> 'w monitor \<Rightarrow> api_list list option \<times> 'w monitor" where
  "discover rt cfg m =
     (case ask (rt_clock rt) m of (now, m1) \<Rightarrow>
        if dc_lists (mn_cache m1) \<noteq> [] \<and> before now (dc_expires (mn_cache m1))
        then (fst (customResourceAPILists cfg now None (mn_cache m1)), m1)
        else (case ask (rt_discovery rt) m1 of (server, m2) \<Rightarrow>
          case customResourceAPILists cfg now server (mn_cache m2) of (apis, cache) \<Rightarrow>
            (apis, m2\<lparr>mn_cache := cache\<rparr>)))"

definition custom_stage :: "('q, 'w) runtime \<Rightarrow> Config \<Rightarrow> api_list list option \<Rightarrow> 'w stage" where
  "custom_stage rt cfg apis =
     (True, ''custom-resources'',
      \<lambda>w. case rt_dynamic rt w of (client, w') \<Rightarrow> (checkCustomResources (rt_deps rt) client apis cfg, w'))"

definition run_custom ::
  "('q, 'w) runtime \<Rightarrow> Config \<Rightarrow> time \<Rightarrow> 'w poll_acc \<Rightarrow> 'w poll_acc option" where
  "run_custom rt cfg now acc =
     (case acc of (m, active, complete) \<Rightarrow>
        if \<not> CustomResource (Checks cfg) then Some (m, active, complete)
        else (case discover rt cfg m of (apis, m1) \<Rightarrow>
          run_stage rt cfg now (custom_stage rt cfg apis) (m1, active, complete)))"

text \<open>The first half of a poll: everything up to the last check.\<close>

definition poll_checks ::
  "('q, 'w) runtime \<Rightarrow> Config \<Rightarrow> 'w monitor \<Rightarrow> (time \<times> 'w poll_acc) option" where
  "poll_checks rt cfg m0 =
     (case ask (rt_clock rt) (loadSuppressions rt cfg m0) of (now, m1) \<Rightarrow>
      case ask (rt_list rt) m1 of ((ans, finished), m2) \<Rightarrow>
        let snap = buildSnapshot cfg (mn_state m2) now ans finished in
        (case foldM (run_stage rt cfg now) (poll_stages rt cfg snap) (m2, [], True) of
           None \<Rightarrow> None
         | Some acc \<Rightarrow>
             (case run_custom rt cfg now acc of None \<Rightarrow> None | Some acc' \<Rightarrow> Some (now, acc'))))"

text \<open>The rest, up to the write: resolving, expiring, pruning, gauges.\<close>

definition poll_settle ::
  "('q, 'w) runtime \<Rightarrow> Config \<Rightarrow> time \<Rightarrow> 'w poll_acc \<Rightarrow> 'w monitor option" where
  "poll_settle rt cfg now acc =
     (case acc of (m, active, complete) \<Rightarrow>
        case (if complete then resolveMissingFindings rt cfg now active m else Some m) of
          None \<Rightarrow> None
        | Some m1 \<Rightarrow>
            (case expireResolvedFindings rt cfg now m1 of
               None \<Rightarrow> None
             | Some m2 \<Rightarrow> Some (updateActiveMetrics cfg active (pruneState rt cfg now m2))))"

definition mark_health :: "('q, 'w) runtime \<Rightarrow> Config \<Rightarrow> time \<Rightarrow> 'w monitor \<Rightarrow> 'w monitor" where
  "mark_health rt cfg start m =
     (case ask (rt_clock rt) m of (now, m1) \<Rightarrow>
        let m2 = emit [Observe ''poll_duration_seconds'' [Namespace cfg] (time_sub now start)] m1 in
        case mn_health m2 of
          None \<Rightarrow> m2
        | Some h \<Rightarrow>
            (case ask (rt_clock rt) m2 of (finish, m3) \<Rightarrow> m3\<lparr>mn_health := Some (MarkPollComplete finish h)\<rparr>))"

definition Poll :: "('q, 'w) runtime \<Rightarrow> Config \<Rightarrow> 'w monitor \<Rightarrow> 'w monitor option" where
  "Poll rt cfg m =
     (case poll_checks rt cfg m of
        None \<Rightarrow> None
      | Some (now, acc) \<Rightarrow>
          (case poll_settle rt cfg now acc of
             None \<Rightarrow> None
           | Some m1 \<Rightarrow>
               (case maybeSave rt cfg now m1 of
                  None \<Rightarrow> None
                | Some m2 \<Rightarrow> Some (mark_health rt cfg now m2))))"

section \<open>Each part keeps the contract\<close>

definition stage_ok :: "string \<Rightarrow> 'w stage \<Rightarrow> bool" where
  "stage_ok ns st \<longleftrightarrow> (\<forall>w. result_ok ns (snd (fst (snd (snd st) w))))"

lemma asked:
  assumes "ask g m = (a, m1)"
  shows "mn_state m1 = mn_state m" "quiet good m m1" "a = fst (g (mn_world m))"
  using ask_sel(1,3)[of g m] quiet_ask[of good m g] assms by simp_all

lemma runCheck_frame:
  assumes "runCheck rt cfg nm fn m = (res, m1)"
  shows "mn_state m1 = mn_state m" "quiet good m m1"
    "res = incomplete \<or> (\<exists>w. res = snd (fst (fn w)))"
proof -
  obtain counters res0 m0 where a: "ask fn m = ((counters, res0), m0)" by (metis prod.collapse)
  obtain r m2 where b: "ask (rt_race rt nm) m0 = (r, m2)" by (cases "ask (rt_race rt nm) m0")
  have q0: "mn_state m0 = mn_state m" "quiet good m m0" using asked(1,2)[OF a] by auto
  have res: "res0 = snd (fst (fn (mn_world m)))" using asked(3)[OF a] by (metis snd_conv)
  have q2: "mn_state m2 = mn_state m" "quiet good m m2"
    using asked(1)[OF b] asked(2)[OF b, of good] q0 quiet.rel_trans by auto
  have e: "quiet good m (emit ms m0)" "quiet good m (emit ms m2)" "quiet good m (emit ms' (emit ms m2))" for ms ms'
    using q0(2) q2(2) quiet_emit quiet.rel_trans by blast+
  show "mn_state m1 = mn_state m" "quiet good m m1" "res = incomplete \<or> (\<exists>w. res = snd (fst (fn w)))"
    using assms q0 q2 e res
    by (auto simp: runCheck_def a b recordCheckTimeout_def split: if_splits race.splits)
qed

lemma run_stage_returns:
  assumes "stage_ok ns st" and "state_wf (mn_state m)"
  shows "\<exists>s'. run_stage rt cfg now st (m, active, complete) = Some s' \<and> state_wf (mn_state (fst s')) \<and>
    quiet (reports ns) m (fst s')"
proof -
  obtain enabled nm fn where st: "st = (enabled, nm, fn)" by (cases st)
  show ?thesis
  proof (cases enabled)
    case False
    then show ?thesis using assms(2) by (simp add: run_stage_def st quiet.rel_refl)
  next
    case True
    obtain res m1 where r: "runCheck rt cfg nm fn m = (res, m1)" by (cases "runCheck rt cfg nm fn m")
    note fr = runCheck_frame[OF r]
    have "result_ok ns res" using fr(3) assms(1) by (auto simp: stage_ok_def st)
    then obtain m2 active' where a: "applyResult rt cfg res now (m1, active) = Some (m2, active')"
      "state_wf (mn_state m2)" "quiet (reports ns) m1 m2"
      using applyResult_returns[of ns res "(m1, active)" rt cfg now] fr(1) assms(2) by auto
    then show ?thesis
      using True r fr(2)[of "reports ns"] quiet.rel_trans by (simp add: run_stage_def st) blast
  qed
qed

interpretation stages: poll_step "quiet (reports ns)" fst "stage_ok ns" "run_stage rt cfg now"
  for ns and rt :: "('q, 'w) runtime" and cfg now
proof
  fix st :: "'w stage" and s :: "'w poll_acc"
  assume "stage_ok ns st" "state_wf (mn_state (fst s))"
  then show "\<exists>s'. run_stage rt cfg now st s = Some s' \<and> state_wf (mn_state (fst s')) \<and> quiet (reports ns) (fst s) (fst s')"
    using run_stage_returns[of ns st "fst s" rt cfg now "fst (snd s)" "snd (snd s)"] by simp
qed

text \<open>The contract of the check families is what makes the stages admissible.\<close>

lemma poll_stages_ok: "list_all (stage_ok (Namespace cfg)) (poll_stages rt cfg snap)"
  by (simp add: poll_stages_def stage_ok_def pods_family.run_result_ok specs_family.run_result_ok
      events_family.run_result_ok workloads_family.run_result_ok services_family.run_result_ok
      pvcs_family.run_result_ok scaling_family.run_result_ok logs_family.run_result_ok
      usage_family.run_result_ok split: prod.split)

lemma custom_stage_ok: "stage_ok (Namespace cfg) (custom_stage rt cfg apis)"
  by (simp add: custom_stage_def stage_ok_def custom_family.run_result_ok split: prod.split)

lemma quiet_frame:
  "mn_state m' = mn_state m \<Longrightarrow> mn_dirty m' = mn_dirty m \<Longrightarrow> mn_store m' = mn_store m \<Longrightarrow>
   mn_lastWrite m' = mn_lastWrite m \<Longrightarrow> mn_attempts m' = mn_attempts m \<Longrightarrow> quiet good m m'"
  by (simp add: quiet_def evolves_def resolves_nothing_def)

lemma discover_frame:
  "mn_state (snd (discover rt cfg m)) = mn_state m" "quiet good m (snd (discover rt cfg m))"
proof -
  have "mn_state (snd (discover rt cfg m)) = mn_state m \<and> mn_dirty (snd (discover rt cfg m)) = mn_dirty m \<and>
      mn_store (snd (discover rt cfg m)) = mn_store m \<and> mn_lastWrite (snd (discover rt cfg m)) = mn_lastWrite m \<and>
      mn_attempts (snd (discover rt cfg m)) = mn_attempts m"
    by (auto simp: discover_def ask_def split: prod.split)
  then show "mn_state (snd (discover rt cfg m)) = mn_state m" "quiet good m (snd (discover rt cfg m))"
    by (simp_all add: quiet_frame)
qed

lemma loadSuppressions_frame:
  "mn_state (loadSuppressions rt cfg m) = mn_state m" "quiet good m (loadSuppressions rt cfg m)"
proof -
  have "mn_state (loadSuppressions rt cfg m) = mn_state m \<and> mn_dirty (loadSuppressions rt cfg m) = mn_dirty m \<and>
      mn_store (loadSuppressions rt cfg m) = mn_store m \<and> mn_lastWrite (loadSuppressions rt cfg m) = mn_lastWrite m \<and>
      mn_attempts (loadSuppressions rt cfg m) = mn_attempts m"
    by (auto simp: loadSuppressions_def ask_def split: prod.split sum.split)
  then show "mn_state (loadSuppressions rt cfg m) = mn_state m" "quiet good m (loadSuppressions rt cfg m)"
    by (simp_all add: quiet_frame)
qed

lemma run_custom_returns:
  assumes "state_wf (mn_state (fst s))"
  shows "\<exists>s'. run_custom rt cfg now s = Some s' \<and> state_wf (mn_state (fst s')) \<and>
    quiet (reports (Namespace cfg)) (fst s) (fst s')"
proof -
  obtain m active complete where s: "s = (m, active, complete)" by (cases s)
  obtain apis m1 where d: "discover rt cfg m = (apis, m1)" by (cases "discover rt cfg m")
  have m1: "mn_state m1 = mn_state m" "quiet (reports (Namespace cfg)) m m1"
    using discover_frame(1)[of rt cfg m] discover_frame(2)[of "reports (Namespace cfg)" m rt cfg] d by auto
  have "state_wf (mn_state m1)" using assms s m1(1) by simp
  from run_stage_returns[of "Namespace cfg" "custom_stage rt cfg apis" m1 rt cfg now active complete, OF custom_stage_ok this] m1 assms
  show ?thesis
    by (auto simp: run_custom_def s d quiet.rel_refl intro: quiet.rel_trans)
qed

lemma poll_checks_returns:
  assumes "state_wf (mn_state m)"
  shows "\<exists>now s'. poll_checks rt cfg m = Some (now, s') \<and> state_wf (mn_state (fst s')) \<and>
    quiet (reports (Namespace cfg)) m (fst s')"
proof -
  let ?q = "quiet (reports (Namespace cfg))"
  obtain now m1 where c: "ask (rt_clock rt) (loadSuppressions rt cfg m) = (now, m1)"
    by (cases "ask (rt_clock rt) (loadSuppressions rt cfg m)")
  obtain ans finished m2 where l: "ask (rt_list rt) m1 = ((ans, finished), m2)"
    by (metis prod.collapse)
  have m1: "mn_state m1 = mn_state m" using asked(1)[OF c] loadSuppressions_frame(1) by simp
  have q1: "?q m m1" using asked(2)[OF c] loadSuppressions_frame(2) by (rule quiet.rel_trans[rotated])
  have m2: "mn_state m2 = mn_state m" using asked(1)[OF l] m1 by simp
  have q2: "?q m m2" using q1 asked(2)[OF l] by (rule quiet.rel_trans)
  define snap where "snap = buildSnapshot cfg (mn_state m2) now ans finished"
  have "state_wf (mn_state (fst (m2, [], True)))" using m2 assms by simp
  from stages.loop_returns[of "Namespace cfg" "poll_stages rt cfg snap" "(m2, [], True)" rt cfg now, OF poll_stages_ok this] obtain s1 where
    s1: "foldM (run_stage rt cfg now) (poll_stages rt cfg snap) (m2, [], True) = Some s1"
      "state_wf (mn_state (fst s1))" "?q m2 (fst s1)"
    by auto
  obtain s2 where s2: "run_custom rt cfg now s1 = Some s2" "state_wf (mn_state (fst s2))" "?q (fst s1) (fst s2)"
    using run_custom_returns[OF s1(2)] by blast
  have "poll_checks rt cfg m = Some (now, s2)"
    by (simp add: poll_checks_def c l Let_def snap_def[symmetric] s1(1) s2(1))
  moreover have "?q m (fst s2)" using q2 s1(3) s2(3) quiet.rel_trans by blast
  ultimately show ?thesis using s2(2) by blast
qed

lemma state_pruning_frame:
  "state_wf (mn_state m) \<Longrightarrow> state_wf (mn_state (updateActiveMetrics cfg active (pruneState rt cfg now m))) \<and>
     quiet (\<lambda>f. False) m (updateActiveMetrics cfg active (pruneState rt cfg now m))"
  using state_pruning.act_returns[where s = m and rt = rt and cfg = cfg and now = now]
    quiet.rel_trans[of "\<lambda>f. False" m "pruneState rt cfg now m" "updateActiveMetrics cfg active (pruneState rt cfg now m)"]
  by (simp add: updateActiveMetrics_def)

lemma poll_settle_returns:
  assumes "state_wf (mn_state m)"
  shows "\<exists>m'. poll_settle rt cfg now (m, active, complete) = Some m' \<and> state_wf (mn_state m') \<and>
    evolves (published_ok (Namespace cfg)) m m' \<and>
    (\<not> complete \<longrightarrow> quiet (reports (Namespace cfg)) m m')"
proof -
  obtain m1 where m1: "(if complete then resolveMissingFindings rt cfg now active m else Some m) = Some m1"
    "state_wf (mn_state m1)" "evolves (published_ok (Namespace cfg)) m m1" "complete \<or> m1 = m"
    using resolveMissingFindings_returns[OF assms, of rt cfg now active] assms evolves.rel_refl by (cases complete) auto
  obtain m2 where m2: "expireResolvedFindings rt cfg now m1 = Some m2" "state_wf (mn_state m2)" "quiet (\<lambda>f. False) m1 m2"
    using expireResolvedFindings_returns[OF m1(2)] by blast
  define m3 where "m3 = updateActiveMetrics cfg active (pruneState rt cfg now m2)"
  have m3: "state_wf (mn_state m3)" "quiet (\<lambda>f. False) m2 m3"
    using state_pruning_frame[OF m2(2)] unfolding m3_def by blast+
  have q: "quiet good m1 m3" for good
    using m2(3) m3(2) quiet.rel_trans quiet_mono by blast
  have "poll_settle rt cfg now (m, active, complete) = Some m3"
    by (simp add: poll_settle_def m1(1) m2(1) m3_def)
  moreover have "evolves (published_ok (Namespace cfg)) m m3"
    using m1(3) q[of "published_ok (Namespace cfg)"] evolves.rel_trans unfolding quiet_def by blast
  moreover have "\<not> complete \<longrightarrow> quiet (reports (Namespace cfg)) m m3" using m1(4) q by auto
  ultimately show ?thesis using m3(1) by blast
qed

text \<open>What a write leaves, and when it happens.\<close>

definition write_due :: "Config \<Rightarrow> time \<Rightarrow> 'w monitor \<Rightarrow> bool" where
  "write_due cfg now m \<longleftrightarrow>
     mn_dirty m \<and> (mn_lastWrite m = 0 \<or> StateWriteInterval cfg \<le> time_sub now (mn_lastWrite m))"

lemma maybeSave_cases:
  assumes "state_wf (mn_state m)"
  obtains (skipped) "\<not> write_due cfg now m" "maybeSave rt cfg now m = Some m"
  | (failed) m' m1 where "write_due cfg now m" "maybeSave rt cfg now m = Some m'"
      "prunes m m1" "maps_wf m1" "keeps_unresolved m m1"
      "mn_state m' = mn_state m1" "mn_dirty m'" "mn_lastWrite m' = mn_lastWrite m" "mn_attempts m' = mn_attempts m"
  | (saved) m' m1 bytes w' where "write_due cfg now m" "maybeSave rt cfg now m = Some m'"
      "prunes m m1" "maps_wf m1" "keeps_unresolved m m1" "mn_state m' = mn_state m1" "\<not> mn_dirty m'" "mn_lastWrite m' = now"
      "mn_attempts m' = mn_attempts m"
      "currentStateBytes rt m1 = Some bytes" "MaxStateBytes cfg \<le> 0 \<or> bytes \<le> MaxStateBytes cfg"
      "Save (rt_api rt) (rt_codec rt) (mn_store m) (mn_state m') (mn_world m1) = (None, mn_store m', w')"
proof (cases "write_due cfg now m")
  case False
  then have "maybeSave rt cfg now m = Some m"
    by (auto simp: maybeSave_def write_due_def is_zero_def)
  with False skipped show ?thesis by blast
next
  case True
  then have guard: "\<not> (\<not> mn_dirty m \<or> (\<not> is_zero (mn_lastWrite m) \<and> time_sub now (mn_lastWrite m) < StateWriteInterval cfg))"
    by (auto simp: write_due_def is_zero_def)
  obtain r m1 where p: "pruneForStateSize rt cfg (MaxStateBytes cfg) m = Some (r, m1)" "prunes m m1" "maps_wf m1"
    "keeps_unresolved m m1" "currentStateBytes rt m1 = r"
  proof (cases "0 < MaxStateBytes cfg")
    case True
    from pruneForStateSize_returns[OF assms True, of rt cfg] that show ?thesis by blast
  next
    case False
    with that[of "currentStateBytes rt m" m] show ?thesis
      using maps_wf_state[OF assms] by (simp add: pruneForStateSize_def prunes.rel_refl keeps_unresolved.rel_refl)
  qed
  have d: "mn_dirty m1" "mn_store m1 = mn_store m" "mn_lastWrite m1 = mn_lastWrite m" "mn_attempts m1 = mn_attempts m"
    using p(2) True by (auto simp: prunes_def deletes_def write_due_def)
  show ?thesis
  proof (cases r)
    case None
    then have run: "maybeSave rt cfg now m = Some (emit [Inc ''state_writes_total'' [Namespace cfg, ''error'']] m1)"
      unfolding maybeSave_def if_not_P[OF guard] using p(1) by (simp add: Let_def)
    show ?thesis using failed[OF True run p(2-4)] d by simp
  next
    case (Some bytes)
    show ?thesis
    proof (cases "MaxStateBytes cfg > 0 \<and> bytes > MaxStateBytes cfg")
      case big: True
      then have run: "maybeSave rt cfg now m = Some (emit [Inc ''state_writes_total'' [Namespace cfg, ''too-large'']] m1)"
        unfolding maybeSave_def if_not_P[OF guard] using p(1) Some by (simp add: Let_def)
      show ?thesis using failed[OF True run p(2-4)] d by simp
    next
      case False
      then have small: "MaxStateBytes cfg \<le> 0 \<or> bytes \<le> MaxStateBytes cfg" by auto
      let ?m2 = "emit [SetGauge ''state_bytes'' [Namespace cfg] bytes] m1"
      obtain err store w where s: "Save (rt_api rt) (rt_codec rt) (mn_store m1) (mn_state m1) (mn_world m1) = (err, store, w)"
        by (metis prod_cases3)
      let ?m3 = "?m2\<lparr>mn_store := store, mn_world := w\<rparr>"
      show ?thesis
      proof (cases err)
        case (Some e)
        then have run: "maybeSave rt cfg now m = Some (emit [Inc ''state_writes_total'' [Namespace cfg, ''error'']] ?m3)"
          unfolding maybeSave_def if_not_P[OF guard] using p(1) False s \<open>r = Some bytes\<close> by (auto simp: Let_def)
        show ?thesis using failed[OF True run p(2-4)] d by simp
      next
        case None
        then have run: "maybeSave rt cfg now m = Some ((emit [Inc ''state_writes_total'' [Namespace cfg, ''ok'']] ?m3)
            \<lparr>mn_lastWrite := now, mn_dirty := False\<rparr>)"
          unfolding maybeSave_def if_not_P[OF guard] using p(1) False s \<open>r = Some bytes\<close> by (auto simp: Let_def)
        show ?thesis
          using saved[OF True run p(2-4), of bytes w] p(5) d s None small \<open>r = Some bytes\<close> by simp
      qed
    qed
  qed
qed

lemma maybeSave_returns:
  assumes "state_wf (mn_state m)"
  shows "\<exists>m'. maybeSave rt cfg now m = Some m' \<and> state_wf (mn_state m') \<and> mn_attempts m' = mn_attempts m \<and>
    gm_get (findings m') \<subseteq>\<^sub>m gm_get (findings m) \<and> gm_get (observations m') \<subseteq>\<^sub>m gm_get (observations m)"
  using assms
proof (cases rule: maybeSave_cases[where rt = rt and cfg = cfg and now = now])
  case skipped
  with assms show ?thesis by simp
next
  case (failed m' m1)
  with assms show ?thesis using state_wf_deletes[of m m1] by (auto simp: prunes_def deletes_def)
next
  case (saved m' m1 bytes w')
  with assms show ?thesis using state_wf_deletes[of m m1] by (auto simp: prunes_def deletes_def)
qed

lemma mark_health_frame [simp]:
  "mn_state (mark_health rt cfg start m) = mn_state m" "mn_store (mark_health rt cfg start m) = mn_store m"
  "mn_dirty (mark_health rt cfg start m) = mn_dirty m" "mn_lastWrite (mark_health rt cfg start m) = mn_lastWrite m"
  "mn_attempts (mark_health rt cfg start m) = mn_attempts m"
  by (auto simp: mark_health_def ask_def Let_def split: prod.split option.split)

text \<open>A poll, taken apart.\<close>

lemma Poll_parts:
  assumes "state_wf (mn_state m)"
  obtains now m1 active complete m2 m3 where
    "poll_checks rt cfg m = Some (now, m1, active, complete)" "state_wf (mn_state m1)"
    "quiet (reports (Namespace cfg)) m m1"
    "poll_settle rt cfg now (m1, active, complete) = Some m2" "state_wf (mn_state m2)"
    "evolves (published_ok (Namespace cfg)) m1 m2" "\<not> complete \<longrightarrow> quiet (reports (Namespace cfg)) m1 m2"
    "maybeSave rt cfg now m2 = Some m3" "state_wf (mn_state m3)" "mn_attempts m3 = mn_attempts m2"
    "gm_get (findings m3) \<subseteq>\<^sub>m gm_get (findings m2)" "gm_get (observations m3) \<subseteq>\<^sub>m gm_get (observations m2)"
    "Poll rt cfg m = Some (mark_health rt cfg now m3)"
proof -
  obtain now m1 active complete where c: "poll_checks rt cfg m = Some (now, m1, active, complete)"
    "state_wf (mn_state m1)" "quiet (reports (Namespace cfg)) m m1"
    using poll_checks_returns[OF assms] by (metis fst_conv prod_cases3)
  obtain m2 where s: "poll_settle rt cfg now (m1, active, complete) = Some m2" "state_wf (mn_state m2)"
    "evolves (published_ok (Namespace cfg)) m1 m2" "\<not> complete \<longrightarrow> quiet (reports (Namespace cfg)) m1 m2"
    using poll_settle_returns[OF c(2)] by blast
  obtain m3 where v: "maybeSave rt cfg now m2 = Some m3" "state_wf (mn_state m3)" "mn_attempts m3 = mn_attempts m2"
    "gm_get (findings m3) \<subseteq>\<^sub>m gm_get (findings m2)" "gm_get (observations m3) \<subseteq>\<^sub>m gm_get (observations m2)"
    using maybeSave_returns[OF s(2)] by blast
  have "Poll rt cfg m = Some (mark_health rt cfg now m3)"
    by (simp add: Poll_def c(1) s(1) v(1))
  with c s v show ?thesis by (rule that)
qed

text \<open>What a poll publishes.\<close>

lemma Poll_publishes_spec:
  assumes "state_wf (mn_state m)" and "Poll rt cfg m = Some m'"
  shows "\<exists>sent. mn_attempts m' = mn_attempts m @ sent \<and> (\<forall>a \<in> set sent. published_ok (Namespace cfg) (fst a))"
  using assms(1)
proof (rule Poll_parts[where rt = rt and cfg = cfg])
  fix now m1 active complete m2 m3
  assume q: "quiet (reports (Namespace cfg)) m m1" "evolves (published_ok (Namespace cfg)) m1 m2"
    "mn_attempts m3 = mn_attempts m2" "Poll rt cfg m = Some (mark_health rt cfg now m3)"
  have "quiet (published_ok (Namespace cfg)) m m1"
    using q(1) by (rule quiet_mono) (simp add: reports_def)
  then have "evolves (published_ok (Namespace cfg)) m m2"
    using q(2) evolves.rel_trans unfolding quiet_def by blast
  then show ?thesis using q(3,4) assms(2) by (auto simp: evolves_def list_all_iff)
qed

section \<open>A poll on a concrete cluster\<close>

lemma demo_monitor_wf [simp]: "state_wf (mn_state (demo_monitor (newMonitorState ns)))"
  by simp

definition expired_runtime :: "(int, cluster) runtime" where
  "expired_runtime = (demo_runtime True sizing_codec)\<lparr>rt_race := \<lambda>n w. (DeadlineExpired 0, w)\<rparr>"

definition pods_only :: Config where
  "pods_only = demo_config\<lparr>Checks := \<lparr>Pods = True, Events = False, Logs = False, Workloads = False,
     Scaling = False, ResourceUsage = False, ResourceSpecs = False, CustomResource = False,
     Services = False, PVCs = False\<rparr>, CheckTimeout := second, SuppressConfigMapName := []\<rparr>"

lemma pods_only_sel [simp]:
  "Pods (Checks pods_only)" "\<not> Events (Checks pods_only)" "\<not> Logs (Checks pods_only)"
  "\<not> Workloads (Checks pods_only)" "\<not> Scaling (Checks pods_only)" "\<not> ResourceUsage (Checks pods_only)"
  "\<not> ResourceSpecs (Checks pods_only)" "\<not> CustomResource (Checks pods_only)"
  "\<not> Services (Checks pods_only)" "\<not> PVCs (Checks pods_only)"
  "CheckTimeout pods_only = second" "SuppressConfigMapName pods_only = []"
  by (simp_all add: pods_only_def)

lemma expired_poll:
  "\<exists>m1. poll_checks expired_runtime pods_only (demo_monitor (newMonitorState ''ns'')) =
     Some (unix_epoch + 1000, m1, [], False)"
  by (simp add: poll_checks_def loadSuppressions_def ask_def expired_runtime_def demo_runtime_def Let_def
      poll_stages_def run_stage_def runCheck_def run_custom_def applyResult_def collectFindings_def
      incomplete_def second_def split: prod.split)

section \<open>Reported findings are ongoing\<close>

text \<open>While a poll collects, every finding in \<open>active\<close> is ongoing in the state.\<close>

definition tracks :: "'w monitor \<times> (string, Finding) go_map \<Rightarrow> bool" where
  "tracks s \<longleftrightarrow> state_wf (mn_state (fst s)) \<and> gm_wf (snd s) \<and>
     (\<forall>k. gm_get (snd s) k \<noteq> None \<longrightarrow> ongoing (fst s) k)"

lemma next_state_ongoing [simp]: "fs_Status (next_state cfg now st f sent) = ''ongoing''"
  by (simp add: next_state_def seen_again_def split: option.split bool.split)

lemma collect_tracks:
  assumes "finding_ok ns f" and "tracks s" and "collect_finding rt cfg now f s = Some s'"
  shows "tracks s'"
proof -
  obtain m active where s: "s = (m, active)" by (cases s)
  have wf: "state_wf (mn_state m)" using assms(2) by (simp add: tracks_def s)
  have wf': "state_wf (mn_state (fst s'))"
    using collecting.act_returns[OF assms(1), of s rt cfg now] assms(2,3) by (auto simp: tracks_def)
  show ?thesis
  proof (cases "isSuppressed (mn_suppressions m) f")
    case True
    then show ?thesis using assms(2,3) by (simp add: collect_finding_def s)
  next
    case False
    obtain st where st: "start_state m now f = Some st" using start_state_wf wf by blast
    from collect_finding_spec[OF False st refl refl, of rt cfg active] assms(3) obtain m' sent g where
      r: "s' = (m', gm_set (f_ID f) g active)"
      "findings m' = gm_set (f_ID f) (Some (next_state cfg now st f sent)) (findings m)"
      by (fastforce simp: s)
    have get: "gm_get (findings m') k =
        (if k = f_ID f then Some (Some (next_state cfg now st f sent)) else gm_get (findings m) k)" for k
      using wf_maps(1)[OF wf] by (simp add: r(2) go_map_simps)
    show ?thesis
      using assms(2) wf' by (auto simp: tracks_def s r(1) ongoing_def get go_map_simps)
  qed
qed

lemma ongoing_cong: "mn_state m = mn_state m' \<Longrightarrow> ongoing m = ongoing m'"
  by (simp add: ongoing_def fun_eq_iff)

lemma applyResult_tracks:
  assumes "result_ok ns res" and "tracks s" and "applyResult rt cfg res now s = Some s'"
  shows "tracks s'"
proof -
  obtain m active where s: "s = (m, active)" by (cases s)
  obtain code m1 where a: "ask (rt_order rt) m = (code, m1)" by (cases "ask (rt_order rt) m")
  have m1: "mn_state m1 = mn_state m" using asked(1)[OF a] .
  define m2 where "m2 = fold merge_observation (permute code (cr_observations res)) m1"
  have "state_wf (mn_state m2)"
    using merge_loop[of m1 "permute code (cr_observations res)"] result_ok_keys[OF assms(1)] assms(2) m1
    by (auto simp: tracks_def s m2_def)
  then have t: "tracks (m2, active)"
    using assms(2) by (simp add: tracks_def s ongoing_def m2_def m1)
  have "foldM (collect_finding rt cfg now) (cr_findings res) (m2, active) = Some s'"
    using assms(3) by (simp add: applyResult_def s a collectFindings_def m2_def)
  then show ?thesis
    using t by (rule foldM_invariant)
       (use assms(1) in \<open>auto simp: result_ok_def list_all_iff intro: collect_tracks\<close>)
qed

definition acc_tracks :: "'w poll_acc \<Rightarrow> bool" where
  "acc_tracks acc \<longleftrightarrow> tracks (fst acc, fst (snd acc))"

lemma run_stage_tracks:
  assumes "stage_ok ns st" and "acc_tracks s" and "run_stage rt cfg now st s = Some s'"
  shows "acc_tracks s'"
proof -
  obtain enabled nm fn where st: "st = (enabled, nm, fn)" by (cases st)
  obtain m active complete where s: "s = (m, active, complete)" by (cases s)
  obtain res m1 where r: "runCheck rt cfg nm fn m = (res, m1)" by (cases "runCheck rt cfg nm fn m")
  note fr = runCheck_frame[OF r]
  have ok: "result_ok ns res" using fr(3) assms(1) by (auto simp: stage_ok_def st)
  have t: "tracks (m1, active)"
    using assms(2) fr(1) by (simp add: acc_tracks_def s tracks_def ongoing_cong[OF fr(1)])
  show ?thesis
    using assms(2,3) applyResult_tracks[OF ok t, of rt cfg now]
    by (auto simp: run_stage_def st s r acc_tracks_def split: if_splits option.splits)
qed

lemma poll_checks_tracks:
  assumes "state_wf (mn_state m)" and "poll_checks rt cfg m = Some (now, s)"
  shows "acc_tracks s"
proof -
  obtain now' m1 where c: "ask (rt_clock rt) (loadSuppressions rt cfg m) = (now', m1)"
    by (cases "ask (rt_clock rt) (loadSuppressions rt cfg m)")
  obtain ans finished m2 where l: "ask (rt_list rt) m1 = ((ans, finished), m2)"
    by (metis prod.collapse)
  have m2: "mn_state m2 = mn_state m"
    using asked(1)[OF l] asked(1)[OF c] loadSuppressions_frame(1) by simp
  define snap where "snap = buildSnapshot cfg (mn_state m2) now' ans finished"
  obtain s1 where s1: "foldM (run_stage rt cfg now') (poll_stages rt cfg snap) (m2, [], True) = Some s1"
    "run_custom rt cfg now' s1 = Some s"
    using assms(2) by (auto simp: poll_checks_def c l Let_def snap_def[symmetric] split: option.splits)
  have t1: "acc_tracks s1"
    using s1(1)
  proof (rule foldM_invariant)
    show "acc_tracks (m2, [], True)" using assms(1) by (simp add: acc_tracks_def tracks_def m2)
    show "acc_tracks u" if "st \<in> set (poll_stages rt cfg snap)" "acc_tracks t" "run_stage rt cfg now' st t = Some u"
      for st t u
      using that poll_stages_ok[of cfg rt snap] by (auto simp: list_all_iff intro: run_stage_tracks)
  qed
  obtain n active complete where n: "s1 = (n, active, complete)" by (cases s1)
  obtain apis n1 where d: "discover rt cfg n = (apis, n1)" by (cases "discover rt cfg n")
  have n1: "mn_state n1 = mn_state n" using discover_frame(1)[of rt cfg n] d by simp
  have t2: "acc_tracks (n1, active, complete)"
    using t1 by (simp add: acc_tracks_def tracks_def n n1 ongoing_cong[OF n1])
  show ?thesis
  proof (cases "CustomResource (Checks cfg)")
    case False
    with s1(2) t1 show ?thesis by (simp add: run_custom_def n)
  next
    case True
    with s1(2) have "run_stage rt cfg now' (custom_stage rt cfg apis) (n1, active, complete) = Some s"
      by (simp add: run_custom_def n d)
    with custom_stage_ok t2 show ?thesis by (rule run_stage_tracks)
  qed
qed

section \<open>Properties\<close>

text \<open>
  C6. A poll always returns: from a well-formed state, whatever the API, the broker and the
  clock do and however map iteration and the races between checks and deadlines turn out,
  there is no endless loop and no nil dereference, and the state is well-formed again, so
  the poll loop can go on forever.
\<close>

theorem Poll_returns:
  assumes "state_wf (mn_state m)"
  shows "\<exists>m'. Poll rt cfg m = Some m' \<and> state_wf (mn_state m')"
  using assms by (rule Poll_parts[where rt = rt and cfg = cfg]) auto

theorem Poll_returns_witness:
  "\<exists>m'. Poll (demo_runtime True sizing_codec) demo_config (demo_monitor (newMonitorState ''ns'')) = Some m'"
  using Poll_returns[OF demo_monitor_wf, of "demo_runtime True sizing_codec" demo_config "''ns''"] by blast

text \<open>
  C13. Everything a poll tries to publish is well formed: source, payload type and namespace
  are set; an ongoing finding has the identifier of its fields, a score from 1 to 100 with
  the severity and class of that score, and a cooldown if it asks for AI triage; anything
  else is a resolution with score 0.
\<close>

theorem Poll_publishes_well_formed:
  assumes "state_wf (mn_state m)" and "Poll rt cfg m = Some m'"
  shows "\<exists>sent. mn_attempts m' = mn_attempts m @ sent \<and> (\<forall>a \<in> set sent. published_ok (Namespace cfg) (fst a))"
  using assms by (rule Poll_publishes_spec)

theorem Poll_publishes_well_formed_witness:
  "\<exists>m' sent. Poll (demo_runtime True sizing_codec) demo_config (demo_monitor (newMonitorState ''ns'')) = Some m' \<and>
     mn_attempts m' = mn_attempts (demo_monitor (newMonitorState ''ns'')) @ sent"
proof -
  obtain m' where r: "Poll (demo_runtime True sizing_codec) demo_config (demo_monitor (newMonitorState ''ns'')) = Some m'"
    by (rule Poll_parts[OF demo_monitor_wf])
  with Poll_publishes_well_formed[OF demo_monitor_wf r] show ?thesis by blast
qed

end
