(* ===== verification/Poll_Trace.thy ===== *)
theory Poll_Trace
  imports Poll_Cycle
begin

text \<open>
  What happened in a poll: the snapshot it worked on, the checks it ran, the world each was
  started in, and the result it took from each. Nothing here is chosen: the snapshot is the
  one made of the clock's and the API's answers, the results are those of \<open>runCheck\<close>. The
  properties of whole polls speak about this record.
\<close>

section \<open>Definitions\<close>

text \<open>The start of a poll: its time, its snapshot, and the monitor that goes into the stages.\<close>

definition poll_start :: "('q, 'w) runtime \<Rightarrow> Config \<Rightarrow> 'w monitor \<Rightarrow> time \<times> 'q snapshot \<times> 'w monitor" where
  "poll_start rt cfg m =
     (case ask (rt_clock rt) (loadSuppressions rt cfg m) of (now, m1) \<Rightarrow>
      case ask (rt_list rt) m1 of ((ans, finished), m2) \<Rightarrow>
        (now, buildSnapshot cfg (mn_state m) now ans finished, m2))"

definition poll_snapshot :: "('q, 'w) runtime \<Rightarrow> Config \<Rightarrow> 'w monitor \<Rightarrow> 'q snapshot" where
  "poll_snapshot rt cfg m = fst (snd (poll_start rt cfg m))"

text \<open>A check that ran: its name, the world it was started in, the result the poll took.\<close>

type_synonym 'w ran = "string \<times> 'w \<times> checkResult"

abbreviation result_taken :: "'w ran \<Rightarrow> checkResult" where
  "result_taken x \<equiv> snd (snd x)"

fun stage_trace ::
  "('q, 'w) runtime \<Rightarrow> Config \<Rightarrow> time \<Rightarrow> 'w stage list \<Rightarrow> 'w poll_acc \<Rightarrow> 'w ran list" where
  "stage_trace rt cfg now [] acc = []"
| "stage_trace rt cfg now ((enabled, nm, fn) # sts) acc =
     (if enabled then [(nm, mn_world (fst acc), fst (runCheck rt cfg nm fn (fst acc)))] else []) @
     (case run_stage rt cfg now (enabled, nm, fn) acc of
        None \<Rightarrow> []
      | Some acc' \<Rightarrow> stage_trace rt cfg now sts acc')"

text \<open>Where the nine snapshot stages leave the poll, what discovery gives after them, and the trace.\<close>

definition after_stages :: "('q, 'w) runtime \<Rightarrow> Config \<Rightarrow> 'w monitor \<Rightarrow> 'w poll_acc option" where
  "after_stages rt cfg m =
     (case poll_start rt cfg m of (now, snap, m2) \<Rightarrow>
        foldM (run_stage rt cfg now) (poll_stages rt cfg snap) (m2, [], True))"

definition poll_discovery :: "('q, 'w) runtime \<Rightarrow> Config \<Rightarrow> 'w monitor \<Rightarrow> api_list list option" where
  "poll_discovery rt cfg m =
     (case after_stages rt cfg m of
        None \<Rightarrow> None
      | Some acc \<Rightarrow> fst (discover rt cfg (fst acc)))"

definition poll_trace :: "('q, 'w) runtime \<Rightarrow> Config \<Rightarrow> 'w monitor \<Rightarrow> 'w ran list" where
  "poll_trace rt cfg m =
     (case poll_start rt cfg m of (now, snap, m2) \<Rightarrow>
        stage_trace rt cfg now (poll_stages rt cfg snap) (m2, [], True) @
        (case after_stages rt cfg m of
           None \<Rightarrow> []
         | Some (n, active, complete) \<Rightarrow>
             if CustomResource (Checks cfg)
             then stage_trace rt cfg now [custom_stage rt cfg (poll_discovery rt cfg m)]
                    (snd (discover rt cfg n), active, complete)
             else []))"

text \<open>What should have run, and what each check answers on a snapshot.\<close>

definition enabled_checks :: "Config \<Rightarrow> string list" where
  "enabled_checks cfg =
     (let c = Checks cfg in map snd (filter fst
        [(Pods c, ''pods''), (ResourceSpecs c, ''resource-spec''), (Events c, ''events''),
         (Workloads c, ''workloads''), (Services c, ''services''), (PVCs c, ''pvcs''), (Scaling c, ''scaling''),
         (Logs c, ''logs''), (ResourceUsage c, ''resource-usage''), (CustomResource c, ''custom-resources'')]))"

definition check_answer ::
  "('q, 'w) runtime \<Rightarrow> Config \<Rightarrow> 'q snapshot \<Rightarrow> api_list list option \<Rightarrow> string \<Rightarrow> 'w \<Rightarrow> checkResult" where
  "check_answer rt cfg snap apis nm w = snd
     (if nm = ''pods'' then checkPods cfg snap
      else if nm = ''resource-spec'' then checkResourceSpecs (rt_deps rt) cfg snap
      else if nm = ''events'' then checkEvents (rt_deps rt) cfg snap
      else if nm = ''workloads'' then checkWorkloads cfg snap
      else if nm = ''services'' then checkServices (rt_deps rt) cfg snap
      else if nm = ''pvcs'' then checkPVCs cfg snap
      else if nm = ''scaling'' then checkScaling cfg snap
      else if nm = ''logs'' then checkLogs (fst (rt_logs rt w)) cfg snap
      else if nm = ''resource-usage'' then checkResourceUsage (rt_deps rt) (fst (rt_metrics rt w)) cfg snap
      else checkCustomResources (rt_deps rt) (fst (rt_dynamic rt w)) apis cfg)"

section \<open>The trace of a poll\<close>

lemma poll_start_frame:
  assumes "poll_start rt cfg m = (now, snap, m2)"
  shows "mn_state m2 = mn_state m" "mn_attempts m2 = mn_attempts m"
    "mn_suppressions m2 = mn_suppressions (loadSuppressions rt cfg m)"
    "snap = poll_snapshot rt cfg m" "sn_now snap = now"
    "sn_priorObservations snap = prior_observations (observations m)"
proof -
  obtain now' m1 where c: "ask (rt_clock rt) (loadSuppressions rt cfg m) = (now', m1)"
    by (cases "ask (rt_clock rt) (loadSuppressions rt cfg m)")
  obtain ans finished m2' where l: "ask (rt_list rt) m1 = ((ans, finished), m2')"
    by (metis prod.collapse)
  have s: "poll_start rt cfg m = (now', buildSnapshot cfg (mn_state m) now' ans finished, m2')"
    by (simp add: poll_start_def c l)
  have "mn_attempts (loadSuppressions rt cfg m) = mn_attempts m"
    by (auto simp: loadSuppressions_def ask_def split: prod.split sum.split)
  then show "mn_state m2 = mn_state m" "mn_attempts m2 = mn_attempts m"
    "mn_suppressions m2 = mn_suppressions (loadSuppressions rt cfg m)"
    using assms s ask_sel(3,6,11)[of "rt_list rt" m1] ask_sel(3,6,11)[of "rt_clock rt" "loadSuppressions rt cfg m"] c l
      loadSuppressions_frame(1)[of rt cfg m] by auto
  show "snap = poll_snapshot rt cfg m" "sn_now snap = now" "sn_priorObservations snap = prior_observations (observations m)"
    using assms s by (auto simp: poll_snapshot_def)
qed

lemma poll_checks_stages:
  "poll_checks rt cfg m =
     (case after_stages rt cfg m of
        None \<Rightarrow> None
      | Some acc \<Rightarrow> map_option (Pair (fst (poll_start rt cfg m))) (run_custom rt cfg (fst (poll_start rt cfg m)) acc))"
proof -
  obtain now m1 where c: "ask (rt_clock rt) (loadSuppressions rt cfg m) = (now, m1)"
    by (cases "ask (rt_clock rt) (loadSuppressions rt cfg m)")
  obtain ans finished m2 where l: "ask (rt_list rt) m1 = ((ans, finished), m2)"
    by (metis prod.collapse)
  have "mn_state m2 = mn_state m"
    using asked(1)[OF l] asked(1)[OF c] loadSuppressions_frame(1) by simp
  then show ?thesis
    by (simp add: poll_checks_def after_stages_def poll_start_def c l Let_def map_option_case split: option.split)
qed

lemma runCheck_result:
  assumes "runCheck rt cfg nm fn m = (res, m1)"
  shows "res = incomplete \<or> res = snd (fst (fn (mn_world m)))"
proof -
  obtain counters res0 m0 where a: "ask fn m = ((counters, res0), m0)" by (metis prod.collapse)
  have "res0 = snd (fst (fn (mn_world m)))" using asked(3)[OF a] by (metis snd_conv)
  then show ?thesis
    using assms by (auto simp: runCheck_def a split: if_splits race.splits prod.splits)
qed

lemma in_stage_trace:
  assumes "x \<in> set (stage_trace rt cfg now sts acc)"
  shows "\<exists>fn. (True, fst x, fn) \<in> set sts \<and>
    (result_taken x = incomplete \<or> result_taken x = snd (fst (fn (fst (snd x)))))"
  using assms
proof (induction rt cfg now sts acc rule: stage_trace.induct)
  case (2 rt cfg now enabled nm fn sts acc)
  obtain res m1 where r: "runCheck rt cfg nm fn (fst acc) = (res, m1)" by (cases "runCheck rt cfg nm fn (fst acc)")
  show ?case
  proof (cases "enabled \<and> x = (nm, mn_world (fst acc), res)")
    case True
    with runCheck_result[OF r] show ?thesis by (intro exI[of _ fn]) simp
  next
    case False
    with "2.prems" obtain acc1 where "run_stage rt cfg now (enabled, nm, fn) acc = Some acc1"
      "x \<in> set (stage_trace rt cfg now sts acc1)"
      by (cases "run_stage rt cfg now (enabled, nm, fn) acc") (auto simp: r split: if_splits)
    from "2.IH"[OF this] show ?thesis by auto
  qed
qed simp

lemma stage_trace_names:
  assumes "foldM (run_stage rt cfg now) sts acc = Some acc'"
  shows "map fst (stage_trace rt cfg now sts acc) = map (fst \<circ> snd) (filter fst sts)"
  using assms
proof (induction rt cfg now sts acc rule: stage_trace.induct)
  case (2 rt cfg now enabled nm fn sts acc)
  then obtain acc1 where s: "run_stage rt cfg now (enabled, nm, fn) acc = Some acc1"
    "foldM (run_stage rt cfg now) sts acc1 = Some acc'" by (auto split: option.splits)
  from "2.IH"[OF s(1)] s(2) show ?case by (simp add: s(1))
qed simp

lemma run_stage_complete:
  assumes "run_stage rt cfg now (enabled, nm, fn) acc = Some acc'"
  shows "snd (snd acc') \<longleftrightarrow> snd (snd acc) \<and> (enabled \<longrightarrow> cr_complete (fst (runCheck rt cfg nm fn (fst acc))))"
  using assms by (auto simp: run_stage_def split: prod.splits if_splits option.splits)

lemma stage_trace_complete:
  assumes "foldM (run_stage rt cfg now) sts acc = Some acc'"
  shows "snd (snd acc') \<longleftrightarrow> snd (snd acc) \<and> (\<forall>x \<in> set (stage_trace rt cfg now sts acc). cr_complete (result_taken x))"
  using assms
proof (induction rt cfg now sts acc rule: stage_trace.induct)
  case (2 rt cfg now enabled nm fn sts acc)
  then obtain acc1 where s: "run_stage rt cfg now (enabled, nm, fn) acc = Some acc1"
    "foldM (run_stage rt cfg now) sts acc1 = Some acc'" by (auto split: option.splits)
  from "2.IH"[OF s(1)] s(2) run_stage_complete[OF s(1)] show ?case by (auto simp: s(1))
qed simp

text \<open>The custom stage, seen as the tail of the trace.\<close>

lemma poll_checks_tail:
  assumes "poll_checks rt cfg m = Some (now, acc)"
  obtains snap m2 n active complete where "poll_start rt cfg m = (now, snap, m2)"
    "foldM (run_stage rt cfg now) (poll_stages rt cfg snap) (m2, [], True) = Some (n, active, complete)"
    "after_stages rt cfg m = Some (n, active, complete)"
    "if CustomResource (Checks cfg)
     then run_stage rt cfg now (custom_stage rt cfg (poll_discovery rt cfg m)) (snd (discover rt cfg n), active, complete) = Some acc
     else acc = (n, active, complete)"
proof -
  obtain now' snap m2 where s: "poll_start rt cfg m = (now', snap, m2)" by (metis prod_cases3)
  obtain n active complete where a: "after_stages rt cfg m = Some (n, active, complete)"
    "now' = now" "run_custom rt cfg now (n, active, complete) = Some acc"
    using assms by (auto simp: poll_checks_stages s split: option.splits)
  have st: "foldM (run_stage rt cfg now) (poll_stages rt cfg snap) (m2, [], True) = Some (n, active, complete)"
    using a(1,2) by (simp add: after_stages_def s)
  have "poll_discovery rt cfg m = fst (discover rt cfg n)" by (simp add: poll_discovery_def a(1))
  then have "if CustomResource (Checks cfg)
     then run_stage rt cfg now (custom_stage rt cfg (poll_discovery rt cfg m)) (snd (discover rt cfg n), active, complete) = Some acc
     else acc = (n, active, complete)"
    using a(3) by (auto simp: run_custom_def split: prod.splits)
  with s a st that show thesis by blast
qed

theorem poll_trace_complete:
  assumes "poll_checks rt cfg m = Some (now, m1, active, complete)"
  shows "complete \<longleftrightarrow> (\<forall>x \<in> set (poll_trace rt cfg m). cr_complete (result_taken x))"
  using assms
proof (rule poll_checks_tail)
  fix snap m2 n active0 complete0
  assume s: "poll_start rt cfg m = (now, snap, m2)"
    "foldM (run_stage rt cfg now) (poll_stages rt cfg snap) (m2, [], True) = Some (n, active0, complete0)"
    "after_stages rt cfg m = Some (n, active0, complete0)"
    and c: "if CustomResource (Checks cfg)
     then run_stage rt cfg now (custom_stage rt cfg (poll_discovery rt cfg m)) (snd (discover rt cfg n), active0, complete0)
            = Some (m1, active, complete)
     else (m1, active, complete) = (n, active0, complete0)"
  note t = stage_trace_complete[OF s(2)]
  show ?thesis
  proof (cases "CustomResource (Checks cfg)")
    case True
    with c have "foldM (run_stage rt cfg now) [custom_stage rt cfg (poll_discovery rt cfg m)]
        (snd (discover rt cfg n), active0, complete0) = Some (m1, active, complete)" by simp
    from stage_trace_complete[OF this] t True show ?thesis
      by (auto simp: poll_trace_def s(1,3))
  next
    case False
    with c t show ?thesis by (auto simp: poll_trace_def s(1,3))
  qed
qed

theorem poll_trace_names:
  assumes "poll_checks rt cfg m = Some (now, acc)"
  shows "map fst (poll_trace rt cfg m) = enabled_checks cfg"
  using assms
proof (rule poll_checks_tail)
  fix snap m2 n active0 complete0
  assume s: "poll_start rt cfg m = (now, snap, m2)"
    "foldM (run_stage rt cfg now) (poll_stages rt cfg snap) (m2, [], True) = Some (n, active0, complete0)"
    "after_stages rt cfg m = Some (n, active0, complete0)"
    and c: "if CustomResource (Checks cfg)
     then run_stage rt cfg now (custom_stage rt cfg (poll_discovery rt cfg m)) (snd (discover rt cfg n), active0, complete0) = Some acc
     else acc = (n, active0, complete0)"
  have "map fst (stage_trace rt cfg now [custom_stage rt cfg (poll_discovery rt cfg m)] (snd (discover rt cfg n), active0, complete0)) =
      [''custom-resources'']" if "CustomResource (Checks cfg)"
    using that by (simp add: custom_stage_def split: option.split)
  moreover have "enabled_checks cfg = map (fst \<circ> snd) (filter fst (poll_stages rt cfg snap)) @
      (if CustomResource (Checks cfg) then [''custom-resources''] else [])"
    by (simp add: enabled_checks_def poll_stages_def Let_def)
  ultimately show ?thesis
    using stage_trace_names[OF s(2)] by (simp add: poll_trace_def s(1,3) del: stage_trace.simps)
qed

text \<open>A check that was not cut off gave the answer of that check on this poll's snapshot.\<close>

theorem poll_trace_answer:
  assumes "(nm, w, r) \<in> set (poll_trace rt cfg m)" and "r \<noteq> incomplete"
  shows "r = check_answer rt cfg (poll_snapshot rt cfg m) (poll_discovery rt cfg m) nm w"
proof -
  obtain now snap m2 where s: "poll_start rt cfg m = (now, snap, m2)" by (metis prod_cases3)
  note snap = poll_start_frame(4)[OF s]
  let ?custom = "custom_stage rt cfg (poll_discovery rt cfg m)"
  have "\<exists>fn. (True, nm, fn) \<in> set (poll_stages rt cfg snap @ [?custom]) \<and> r = snd (fst (fn w))"
  proof (cases "(nm, w, r) \<in> set (stage_trace rt cfg now (poll_stages rt cfg snap) (m2, [], True))")
    case True
    from in_stage_trace[OF this] assms(2) show ?thesis by auto
  next
    case False
    then obtain acc where "(nm, w, r) \<in> set (stage_trace rt cfg now [?custom] acc)"
      using assms(1) by (auto simp: poll_trace_def s split: option.splits if_splits simp del: stage_trace.simps)
    from in_stage_trace[OF this] assms(2) show ?thesis by auto
  qed
  then obtain fn where fn: "(True, nm, fn) \<in> set (poll_stages rt cfg snap @ [?custom])" "r = snd (fst (fn w))" by blast
  from fn(1) show ?thesis
    unfolding fn(2) snap[symmetric] poll_stages_def custom_stage_def set_append list.set Un_iff insert_iff empty_iff prod.inject
    by (elim disjE conjE) (simp_all add: check_answer_def split: prod.split)
qed

lemma poll_trace_delivered:
  assumes "(nm, w, r) \<in> set (poll_trace rt cfg m)" and "cr_complete r"
  shows "r = check_answer rt cfg (poll_snapshot rt cfg m) (poll_discovery rt cfg m) nm w"
  using assms(2) by (intro poll_trace_answer[OF assms(1)]) (auto simp: incomplete_def)

section \<open>Invariants of the checks of a poll\<close>

text \<open>
  What a poll's checks do to the monitor goes through \<open>applyResult\<close>: an invariant that every
  admissible result keeps, and that depends on the state and the attempts only, is kept by
  any sequence of stages whose results are admissible.
\<close>

locale poll_invariant =
  fixes rt :: "('q, 'w) runtime" and cfg :: Config and admits :: "checkResult \<Rightarrow> bool" and inv :: "'w monitor \<Rightarrow> bool"
  assumes frame_inv: "inv m \<Longrightarrow> mn_state m' = mn_state m \<Longrightarrow> mn_attempts m' = mn_attempts m \<Longrightarrow> inv m'"
    and apply_inv: "admits res \<Longrightarrow> inv m \<Longrightarrow> applyResult rt cfg res now (m, active) = Some s' \<Longrightarrow> inv (fst s')"
    and admits_incomplete: "admits incomplete"
begin

definition stage_admits :: "'w stage \<Rightarrow> bool" where
  "stage_admits st \<longleftrightarrow> (\<forall>w. admits (snd (fst (snd (snd st) w))))"

lemma runCheck_inv:
  assumes "inv m" and "runCheck rt cfg nm fn m = (res, m1)"
  shows "inv m1"
proof (rule frame_inv[OF assms(1)])
  show "mn_state m1 = mn_state m" by (rule runCheck_frame(1)[OF assms(2)])
  show "mn_attempts m1 = mn_attempts m"
    using assms(2) by (auto simp: runCheck_def ask_def recordCheckTimeout_def split: prod.splits if_splits race.splits)
qed

lemma run_stage_inv:
  assumes "stage_admits st" and "inv (fst acc)" and "run_stage rt cfg now st acc = Some acc'"
  shows "inv (fst acc')"
proof -
  obtain enabled nm fn where st: "st = (enabled, nm, fn)" by (cases st)
  obtain m active complete where acc: "acc = (m, active, complete)" by (cases acc)
  obtain res m1 where r: "runCheck rt cfg nm fn m = (res, m1)" by (cases "runCheck rt cfg nm fn m")
  have "admits res" using runCheck_result[OF r] assms(1) admits_incomplete by (auto simp: stage_admits_def st)
  moreover have "inv m1" using runCheck_inv[OF _ r] assms(2) by (simp add: acc)
  ultimately have "inv (fst s')" if "applyResult rt cfg res now (m1, active) = Some s'" for s'
    using apply_inv that by blast
  with assms(2,3) show ?thesis
    by (fastforce simp: run_stage_def st acc r split: if_splits option.splits)
qed

lemma stages_inv:
  assumes "foldM (run_stage rt cfg now) sts acc = Some acc'" and "list_all stage_admits sts" and "inv (fst acc)"
  shows "inv (fst acc')"
  using assms(1,3)
  by (rule foldM_invariant[where I = "\<lambda>acc. inv (fst acc)"]) (use assms(2) in \<open>auto simp: list_all_iff intro: run_stage_inv\<close>)

lemma custom_inv:
  assumes "run_custom rt cfg now acc = Some acc'" and "\<And>apis. stage_admits (custom_stage rt cfg apis)" and "inv (fst acc)"
  shows "inv (fst acc')"
proof -
  obtain m active complete where acc: "acc = (m, active, complete)" by (cases acc)
  obtain apis m1 where d: "discover rt cfg m = (apis, m1)" by (cases "discover rt cfg m")
  have "mn_attempts m1 = mn_attempts m"
    using d by (auto simp: discover_def ask_def split: prod.splits if_splits)
  moreover have "mn_state m1 = mn_state m" using discover_frame(1)[of rt cfg m] d by simp
  ultimately have "inv m1" using assms(3) by (simp add: acc frame_inv)
  with assms show ?thesis
    using run_stage_inv[OF assms(2), of "(m1, active, complete)" now apis acc']
    by (auto simp: run_custom_def acc d split: if_splits)
qed

lemma poll_checks_inv:
  assumes "poll_checks rt cfg m = Some (now, acc)" and "\<And>snap. list_all stage_admits (poll_stages rt cfg snap)"
    and "\<And>apis. stage_admits (custom_stage rt cfg apis)" and "inv m"
  shows "inv (fst acc)"
proof -
  obtain now' snap m2 where s: "poll_start rt cfg m = (now', snap, m2)" by (metis prod_cases3)
  obtain acc1 where a: "foldM (run_stage rt cfg now') (poll_stages rt cfg snap) (m2, [], True) = Some acc1"
    "now = now'" "run_custom rt cfg now acc1 = Some acc"
    using assms(1) by (auto simp: poll_checks_stages after_stages_def s split: option.splits)
  have "inv m2" using assms(4) poll_start_frame(1,2)[OF s] by (rule frame_inv)
  with stages_inv[OF a(1) assms(2)] have "inv (fst acc1)" by simp
  with custom_inv[OF a(3) assms(3)] show ?thesis .
qed

end

section \<open>What settling and writing do to the observations\<close>

lemma resolve_observations:
  fixes rt :: "('q, 'w) runtime"
  assumes "resolveMissingFindings rt cfg now active m = Some m'"
  shows "observations m' = observations m"
proof -
  obtain code m1 where a: "ask (rt_order rt) m = (code, m1)" by (cases "ask (rt_order rt) m")
  from assms have "foldM (resolve_one rt cfg now active) (permute code (gm_keys (findings m1))) m1 = Some m'"
    by (simp add: resolveMissingFindings_def a)
  then have "observations m' = observations m1"
    by (rule foldM_relates[where R = "\<lambda>m m'. observations m' = observations m"])
       (auto simp: resolve_one_def split_beta split: option.splits if_splits bool.splits)
  then show ?thesis using asked(1)[OF a] by simp
qed

lemma expire_observations:
  fixes rt :: "('q, 'w) runtime"
  assumes "expireResolvedFindings rt cfg now m = Some m'"
  shows "observations m' = observations m"
proof (cases "ResolvedFindingRetention cfg \<le> 0")
  case True
  with assms show ?thesis by (simp add: expireResolvedFindings_def)
next
  case False
  obtain code m1 where a: "ask (rt_order rt) m = (code, m1)" by (cases "ask (rt_order rt) m")
  from assms False have "foldM (expire_one cfg now) (permute code (gm_keys (findings m1))) m1 = Some m'"
    by (simp add: expireResolvedFindings_def a)
  then have "observations m' = observations m1"
    by (rule foldM_relates[where R = "\<lambda>m m'. observations m' = observations m"])
       (auto simp: expire_one_def split: option.splits if_splits)
  then show ?thesis using asked(1)[OF a] by simp
qed

lemma expire_deletes:
  assumes "state_wf (mn_state m)" and "expireResolvedFindings rt cfg now m = Some m'"
  shows "mn_attempts m' = mn_attempts m"
    and "gm_get (findings m') k = gm_get (findings m) k \<or>
      gm_get (findings m') k = None \<and> expired cfg now (the (gm_get (findings m) k))"
proof -
  obtain n where "expireResolvedFindings rt cfg now m = Some n" "quiet (\<lambda>f. False) m n"
    using expireResolvedFindings_returns[OF assms(1)] by blast
  then obtain xs where "mn_attempts m' = mn_attempts m @ xs" "list_all (\<lambda>a. False) xs"
    using assms(2) by (auto simp: quiet_def evolves_def)
  then show "mn_attempts m' = mn_attempts m" by (cases xs) auto
  show "gm_get (findings m') k = gm_get (findings m) k \<or>
      gm_get (findings m') k = None \<and> expired cfg now (the (gm_get (findings m) k))"
  proof (cases "0 < ResolvedFindingRetention cfg")
    case True
    from expired_findings_spec[OF assms(1) True assms(2), of k] show ?thesis by auto
  next
    case False
    with assms(2) show ?thesis by (simp add: expireResolvedFindings_def)
  qed
qed

lemma settle_parts:
  assumes "poll_settle rt cfg now (m, active, complete) = Some m'" and "state_wf (mn_state m)"
  obtains n e where "(if complete then resolveMissingFindings rt cfg now active m else Some m) = Some n"
    "state_wf (mn_state n)" "expireResolvedFindings rt cfg now n = Some e" "state_wf (mn_state e)"
    "prunes e m'" "m' = updateActiveMetrics cfg active (pruneState rt cfg now e)"
proof -
  obtain n where n: "(if complete then resolveMissingFindings rt cfg now active m else Some m) = Some n" "state_wf (mn_state n)"
    using resolveMissingFindings_returns[OF assms(2), of rt cfg now active] assms(2) by (cases complete) auto
  obtain e where e: "expireResolvedFindings rt cfg now n = Some e" "state_wf (mn_state e)"
    using expireResolvedFindings_returns[OF n(2)] by blast
  have m': "m' = updateActiveMetrics cfg active (pruneState rt cfg now e)"
    using assms(1) by (simp add: poll_settle_def n(1) e(1))
  have "prunes e m'"
    using pruneState_prunes[OF maps_wf_state[OF e(2)], of rt cfg now] prunes.rel_trans prunes_emit
    unfolding m' updateActiveMetrics_def by blast
  with n e m' that show thesis by blast
qed

lemma settle_observations:
  assumes "poll_settle rt cfg now (m, active, complete) = Some m'" and "state_wf (mn_state m)"
  shows "gm_get (observations m') \<subseteq>\<^sub>m gm_get (observations m)"
  using assms
proof (rule settle_parts)
  fix n e
  assume n: "(if complete then resolveMissingFindings rt cfg now active m else Some m) = Some n"
    and e: "expireResolvedFindings rt cfg now n = Some e" "prunes e m'"
  have "observations n = observations m" using n resolve_observations[of rt cfg now active m n] by (auto split: if_splits)
  with expire_observations[OF e(1)] e(2) show ?thesis by (simp add: prunes_def deletes_def)
qed

section \<open>A cluster that only ticks\<close>

text \<open>
  A runtime whose world is the time: every look at the clock takes \<open>step\<close>, the pods depend on
  the time, nothing can be written, everything is published.
\<close>

definition ticking :: "duration \<Rightarrow> (time \<Rightarrow> int pod list) \<Rightarrow> (int, time) runtime" where
  "ticking step pods = \<lparr>rt_clock = (\<lambda>w. (w, w + step)), rt_order = (\<lambda>w. ([], w)),
     rt_api = \<lparr>get_cm = (\<lambda>ns nm w. (Inl NotFound, w)), update_cm = (\<lambda>ns cm w. (Inl NotFound, w)),
               create_cm = (\<lambda>ns cm w. (Inl NotFound, w))\<rparr>,
     rt_codec = \<lparr>marshal = (\<lambda>s. None), unmarshal = (\<lambda>raw. None)\<rparr>, rt_publish = (\<lambda>f w. (None, w)),
     rt_list = (\<lambda>w. ((quiet_listing\<lparr>li_pods := Some (pods w)\<rparr>, True), w)), rt_race = (\<lambda>n w. (Delivered False, w)),
     rt_logs = (\<lambda>w. (\<lambda>p c. None, w)), rt_metrics = (\<lambda>w. (None, w)), rt_dynamic = (\<lambda>w. (None, w)),
     rt_discovery = (\<lambda>w. (None, w)), rt_deps = int_deps\<rparr>"

lemma ticking_sel [simp]:
  "rt_clock (ticking step pods) w = (w, w + step)" "rt_order (ticking step pods) w = ([], w)"
  "rt_codec (ticking step pods) = \<lparr>marshal = (\<lambda>s. None), unmarshal = (\<lambda>raw. None)\<rparr>"
  "rt_publish (ticking step pods) f w = (None, w)" "rt_race (ticking step pods) nm w = (Delivered False, w)"
  "rt_list (ticking step pods) w = ((quiet_listing\<lparr>li_pods := Some (pods w)\<rparr>, True), w)"
  "accepted (ticking step pods) f n"
  by (simp_all add: ticking_def accepted_def)

text \<open>A configuration that deletes nothing.\<close>

definition keep_all :: Config where
  "keep_all = pods_only\<lparr>MaxStateBytes := 0, MaxFindings := 0, MaxObservations := 0,
     ResolvedFindingRetention := 0, ObservationRetention := 0\<rparr>"

lemma keep_all_sel [simp]:
  "Checks keep_all = Checks pods_only" "CheckTimeout keep_all = second" "SuppressConfigMapName keep_all = []"
  "MaxStateBytes keep_all = 0" "MaxFindings keep_all = 0" "MaxObservations keep_all = 0"
  "ResolvedFindingRetention keep_all = 0" "ObservationRetention keep_all = 0"
  by (simp_all add: keep_all_def)

lemma ticking_start:
  "poll_start (ticking step pods) keep_all m =
     (mn_world m,
      buildSnapshot keep_all (mn_state m) (mn_world m) (quiet_listing\<lparr>li_pods := Some (pods (mn_world m + step))\<rparr>) True,
      m\<lparr>mn_suppressions := None, mn_world := mn_world m + step\<rparr>)"
  by (simp add: poll_start_def loadSuppressions_def ask_def)

lemma ticking_snapshot [simp]:
  "sn_pods (poll_snapshot (ticking step pods) keep_all m) = pods (mn_world m + step)"
  "sn_podsOK (poll_snapshot (ticking step pods) keep_all m)"
  "sn_now (poll_snapshot (ticking step pods) keep_all m) = mn_world m"
  "sn_priorObservations (poll_snapshot (ticking step pods) keep_all m) = prior_observations (observations m)"
  by (simp_all add: poll_snapshot_def ticking_start buildSnapshot_def listSnapshot_def needs_pods_def empty_snapshot_def Let_def)

lemma ticking_pods_ran:
  "\<exists>w. (''pods'', w, snd (checkPods keep_all (poll_snapshot (ticking step pods) keep_all m))) \<in>
     set (poll_trace (ticking step pods) keep_all m)"
  by (auto simp: poll_trace_def poll_snapshot_def ticking_start poll_stages_def runCheck_def ask_def second_def
      split: prod.split)

text \<open>What such a poll leaves, given the state after its checks.\<close>

lemma ticking_keeps:
  assumes "poll_checks (ticking step pods) keep_all m = Some (now, m1, active, True)"
    and "resolveMissingFindings (ticking step pods) keep_all now active m1 = Some n" and "mn_health n = None"
  shows "\<exists>m'. Poll (ticking step pods) keep_all m = Some m' \<and> mn_state m' = mn_state n \<and>
    mn_world m' = mn_world n + step \<and> mn_attempts m' = mn_attempts n \<and> mn_health m' = None"
  using assms
  by (auto simp: Poll_def poll_settle_def expireResolvedFindings_def pruneState_def pruneStaleObservations_def
      pruneObservationCap_def pruneFindingCap_def updateStateMetrics_def updateActiveMetrics_def maybeSave_def
      pruneForStateSize_def currentStateBytes_def mark_health_def ask_def Let_def)

section \<open>Properties\<close>

text \<open>
  C9. An incomplete poll resolves nothing: if the result the poll took from any one of its
  checks is incomplete, because a call it needs failed or because it was cut off, whatever
  the checks before and after it delivered, then no resolution is published, and every
  finding that is resolved afterwards was resolved before, with the same state.
\<close>

theorem incomplete_poll_resolves_nothing:
  assumes "state_wf (mn_state m)" and "Poll rt cfg m = Some m'"
    and "(nm, w, r) \<in> set (poll_trace rt cfg m)" and "\<not> cr_complete r"
  shows "(\<exists>sent. mn_attempts m' = mn_attempts m @ sent \<and> (\<forall>a \<in> set sent. f_Status (fst a) = ''ongoing'')) \<and>
    (\<forall>k st. gm_get (findings m') k = Some (Some st) \<and> fs_Status st = ''resolved'' \<longrightarrow>
       gm_get (findings m) k = Some (Some st))"
  using assms(1)
proof (rule Poll_parts[where rt = rt and cfg = cfg])
  fix now' n1 active' complete m2 m3
  assume c: "poll_checks rt cfg m = Some (now', n1, active', complete)"
    and q: "quiet (reports (Namespace cfg)) m n1" "\<not> complete \<longrightarrow> quiet (reports (Namespace cfg)) n1 m2"
    and v: "mn_attempts m3 = mn_attempts m2" "gm_get (findings m3) \<subseteq>\<^sub>m gm_get (findings m2)"
      "Poll rt cfg m = Some (mark_health rt cfg now' m3)"
  have "\<not> complete" using poll_trace_complete[OF c] assms(3,4) by auto
  then have qq: "quiet (reports (Namespace cfg)) m m2" using q quiet.rel_trans by blast
  have m': "mn_attempts m' = mn_attempts m2" "gm_get (findings m') \<subseteq>\<^sub>m gm_get (findings m2)"
    using v assms(2) by auto
  have "\<exists>sent. mn_attempts m' = mn_attempts m @ sent \<and> (\<forall>a \<in> set sent. f_Status (fst a) = ''ongoing'')"
    using qq m'(1) by (auto simp: quiet_def evolves_def list_all_iff reports_def)
  moreover have "gm_get (findings m) k = Some (Some st)"
    if "gm_get (findings m') k = Some (Some st)" "fs_Status st = ''resolved''" for k st
  proof -
    have "gm_get (findings m2) k = Some (Some st)"
      using that(1) m'(2) by (metis domI map_le_def)
    then show ?thesis using qq that(2) by (simp add: quiet_def resolves_nothing_def)
  qed
  ultimately show ?thesis by blast
qed

theorem incomplete_poll_resolves_nothing_witness:
  "\<exists>m' sent. Poll expired_runtime pods_only (demo_monitor (newMonitorState ''ns'')) = Some m' \<and>
     mn_attempts m' = sent \<and> (\<forall>a \<in> set sent. f_Status (fst a) = ''ongoing'')"
proof -
  obtain m1 where c: "poll_checks expired_runtime pods_only (demo_monitor (newMonitorState ''ns'')) =
      Some (unix_epoch + 1000, m1, [], False)"
    using expired_poll by blast
  obtain m' where r: "Poll expired_runtime pods_only (demo_monitor (newMonitorState ''ns'')) = Some m'"
    by (rule Poll_parts[OF demo_monitor_wf])
  obtain nm w res where "(nm, w, res) \<in> set (poll_trace expired_runtime pods_only (demo_monitor (newMonitorState ''ns'')))"
    "\<not> cr_complete res" using poll_trace_complete[OF c] by auto
  from incomplete_poll_resolves_nothing[OF demo_monitor_wf r this] r show ?thesis by simp
qed

end
