(* ===== verification/Wire.thy ===== *)
theory Wire
  imports Config "HOL-Library.List_Lexorder" "HOL-Library.Char_ord"
begin

text \<open>
  A concrete encoding, with its decoder: it stands in for JSON where a theorem about an
  arbitrary codec is applied to a concrete one. Like \<open>encoding/json\<close> it writes the entries of
  a map in the order of their keys, so that reading back gives the same map, but not the
  same list of entries.
\<close>

section \<open>Fields\<close>

text \<open>Every character of a field is preceded by \<open>c\<close>, every field is ended by \<open>e\<close>.\<close>

definition wire_field :: "string \<Rightarrow> string" where
  "wire_field s = concat (map (\<lambda>c. [CHR ''c'', c]) s) @ ''e''"

definition wire_fields :: "string list \<Rightarrow> string" where
  "wire_fields ss = concat (map wire_field ss)"

fun unwire :: "string \<Rightarrow> string \<Rightarrow> string list" where
  "unwire acc [] = []"
| "unwire acc [c] = [acc]"
| "unwire acc (c # d # s) = (if c = CHR ''c'' then unwire (acc @ [d]) s else acc # unwire [] (d # s))"

lemma unwire_field: "unwire acc (wire_field s @ rest) = (acc @ s) # unwire [] rest"
proof (induction s arbitrary: acc)
  case Nil
  then show ?case by (cases rest) (simp_all add: wire_field_def)
next
  case (Cons c s)
  from Cons.IH[of "acc @ [c]"] show ?case by (simp add: wire_field_def)
qed

lemma unwire_fields [simp]: "unwire [] (wire_fields ss) = ss"
  by (induction ss) (simp_all add: wire_fields_def unwire_field)

lemma wire_fields_empty [simp]: "wire_fields ss = [] \<longleftrightarrow> ss = []"
  by (cases ss) (simp_all add: wire_fields_def wire_field_def)

section \<open>Numbers and optional values\<close>

definition read_int :: "string \<Rightarrow> int" where
  "read_int s = (if s \<noteq> [] \<and> hd s = CHR ''-'' then - int (digits_val (tl s)) else int (digits_val s))"

lemma read_show_int [simp]: "read_int (show_int i) = i"
proof -
  have "hd (show_nat n) \<noteq> CHR ''-''" for n
    using show_nat_digits[of n] by (cases "show_nat n") (auto simp: is_digit_def)
  then show ?thesis using show_nat_digits by (auto simp: read_int_def show_int_def digits_val_show_nat)
qed

definition wire_option :: "('a \<Rightarrow> string) \<Rightarrow> 'a option \<Rightarrow> string" where
  "wire_option enc v = (case v of None \<Rightarrow> [] | Some x \<Rightarrow> CHR ''s'' # enc x)"

definition read_option :: "(string \<Rightarrow> 'a) \<Rightarrow> string \<Rightarrow> 'a option" where
  "read_option dec s = (case s of [] \<Rightarrow> None | c # r \<Rightarrow> Some (dec r))"

lemma read_wire_option [simp]: "(\<And>x. dec (enc x) = x) \<Longrightarrow> read_option dec (wire_option enc v) = v"
  by (cases v) (simp_all add: read_option_def wire_option_def)

section \<open>Maps\<close>

definition wire_map :: "('v \<Rightarrow> string) \<Rightarrow> (string, 'v) go_map \<Rightarrow> string" where
  "wire_map enc m = wire_fields (concat (map (\<lambda>kv. [fst kv, enc (snd kv)]) (sort_key fst m)))"

fun pairs :: "(string \<Rightarrow> 'v) \<Rightarrow> string list \<Rightarrow> (string, 'v) go_map" where
  "pairs dec (k # v # ss) = (k, dec v) # pairs dec ss"
| "pairs dec _ = []"

text \<open>Decoding enters one pair after the other, so a map comes out whatever the input is.\<close>

definition enter :: "string \<times> 'v \<Rightarrow> (string, 'v) go_map \<Rightarrow> (string, 'v) go_map" where
  "enter kv m = gm_set (fst kv) (snd kv) m"

definition read_map :: "(string \<Rightarrow> 'v) \<Rightarrow> string \<Rightarrow> (string, 'v) go_map" where
  "read_map dec s = fold enter (pairs dec (unwire [] s)) []"

lemma enter_wf: "gm_wf m \<Longrightarrow> gm_wf (fold enter kvs m)"
  by (induction kvs arbitrary: m) (simp_all add: enter_def go_map_simps)

lemma read_map_wf: "gm_wf (read_map dec s)"
  by (simp add: read_map_def enter_wf)

lemma gm_set_new: "k \<notin> fst ` set m \<Longrightarrow> gm_set k v m = m @ [(k, v)]"
  by (induction m) auto

lemma enter_all: "gm_wf (m @ kvs) \<Longrightarrow> fold enter kvs m = m @ kvs"
proof (induction kvs arbitrary: m)
  case (Cons kv kvs)
  then have "fst kv \<notin> fst ` set m" by (auto simp: gm_wf_def)
  with Cons show ?case by (simp add: enter_def gm_set_new)
qed simp

lemma gm_wf_sort: "gm_wf (sort_key fst m) = gm_wf m"
  by (simp add: gm_wf_def distinct_map)

lemma read_wire_map:
  assumes "\<And>x. dec (enc x) = x" and "gm_wf m"
  shows "read_map dec (wire_map enc m) = sort_key fst m"
proof -
  have "pairs dec (concat (map (\<lambda>kv. [fst kv, enc (snd kv)]) kvs)) = kvs" for kvs
    by (induction kvs) (simp_all add: assms(1))
  then show ?thesis using enter_all[of "[]" "sort_key fst m"] assms(2) by (simp add: read_map_def wire_map_def gm_wf_sort)
qed

text \<open>Sorting the entries changes the list, not the map.\<close>

lemma gm_get_sort: "gm_wf m \<Longrightarrow> gm_get (sort_key fst m) = gm_get m"
  unfolding gm_get_def gm_wf_def by (intro map_of_inject_set[THEN iffD2]) (simp_all add: distinct_map)

end
