(* ===== verification/State_Codec.thy ===== *)
theory State_Codec
  imports State_Store Wire
begin

text \<open>
  Saving and loading again. \<open>encoding/json\<close> writes maps in the order of their keys; what a
  codec is asked for is that it reads back the same maps. \<open>wire_codec\<close> is one that does, for
  every state.
\<close>

section \<open>The same state\<close>

text \<open>Equal up to the order in which the entries of the maps are listed, which has no meaning.\<close>

definition same_state :: "MonitorState \<Rightarrow> MonitorState \<Rightarrow> bool" where
  "same_state s t \<longleftrightarrow>
     ms_Version s = ms_Version t \<and> ms_Namespace s = ms_Namespace t \<and>
     gm_wf (ms_Findings s) \<and> gm_get (ms_Findings s) = gm_get (ms_Findings t) \<and>
     gm_wf (ms_Observations s) \<and> gm_get (ms_Observations s) = gm_get (ms_Observations t)"

lemma same_state_wf: "same_state s t \<Longrightarrow> state_wf t \<Longrightarrow> state_wf s"
  by (simp add: same_state_def state_wf_def)

text \<open>The codec reads back the maps of this state, if it can write it.\<close>

definition reads_back :: "codec \<Rightarrow> MonitorState \<Rightarrow> bool" where
  "reads_back co s \<longleftrightarrow>
     (\<forall>data. marshal co s = Some data \<longrightarrow> data \<noteq> [] \<and>
        (\<exists>fs obs. unmarshal co data =
            Some \<lparr>de_Version = ms_Version s, de_Namespace = ms_Namespace s,
                  de_Findings = Some fs, de_Observations = Some obs\<rparr> \<and>
          gm_wf fs \<and> gm_get fs = gm_get (ms_Findings s) \<and> gm_wf obs \<and> gm_get obs = gm_get (ms_Observations s)))"

lemma adopt_saved:
  assumes "reads_back co state" "marshal co state = Some data" "ms_Version state = 1" "ms_Namespace state \<noteq> []"
    "data_at (cm_Data cm) stateDataKey = data"
  shows "\<exists>loaded. adopt co ns cm = (loaded, None, True) \<and> same_state loaded state"
  using assms by (auto simp: reads_back_def adopt_def Let_def same_state_def)

lemma Load_after_Save_spec:
  assumes "reads_back co state" and "update_keeps_data api"
    and "ms_Version state = 1" and "ms_Namespace state \<noteq> []"
    and "Save api co s state w = (None, s', w')"
    and "get_cm api ns nm v = (Inr (the (ss_configMap s')), v')"
  shows "\<exists>loaded store. Load api co (NewStateStore ns nm) v = (Some loaded, None, store, v') \<and>
    same_state loaded state \<and> ss_writeable store"
proof -
  from assms(5) obtain data cm w1 updated where u: "marshal co state = Some data"
    "update_cm api (ss_namespace s) (with_state data cm) w1 = (Inr updated, w')"
    "ss_configMap s' = Some updated"
    by (rule Save_success)
  then have "data_at (cm_Data updated) stateDataKey = data"
    using assms(2) unfolding update_keeps_data_def by (metis data_at_with_state)
  with adopt_saved[OF assms(1) u(1) assms(3,4)] obtain loaded where
    "adopt co ns updated = (loaded, None, True)" "same_state loaded state" by blast
  then show ?thesis using assms(6) u(3) by (simp add: Load_def NewStateStore_def Let_def)
qed

section \<open>A codec for every state\<close>

definition wire_finding :: "FindingState \<Rightarrow> string" where
  "wire_finding st = wire_fields
     [fs_Kind st, fs_Name st, fs_Check st, fs_Reason st, show_int (fs_FirstSeen st), show_int (fs_LastSeen st),
      wire_option show_int (fs_LastPublished st), wire_option show_int (fs_LastPublishFailed st),
      wire_option show_int (fs_LastAIDispatchRequested st), wire_option show_int (fs_CooldownUntil st),
      show_int (fs_Score st), fs_Classification st, fs_Status st]"

definition read_finding :: "string \<Rightarrow> FindingState" where
  "read_finding s = (let g = (!) (unwire [] s) in
     \<lparr>fs_Kind = g 0, fs_Name = g 1, fs_Check = g 2, fs_Reason = g 3, fs_FirstSeen = read_int (g 4),
      fs_LastSeen = read_int (g 5), fs_LastPublished = read_option read_int (g 6),
      fs_LastPublishFailed = read_option read_int (g 7), fs_LastAIDispatchRequested = read_option read_int (g 8),
      fs_CooldownUntil = read_option read_int (g 9), fs_Score = read_int (g 10), fs_Classification = g 11,
      fs_Status = g 12\<rparr>)"

lemma read_wire_finding [simp]: "read_finding (wire_finding st) = st"
  by (cases st) (simp add: read_finding_def wire_finding_def Let_def numeral_eq_Suc)

definition wire_observation :: "Observation \<Rightarrow> string" where
  "wire_observation ob = wire_fields
     [show_int (ob_RestartCount ob), show_int (ob_LastSeen ob), wire_fields (map show_int (ob_MemorySamplesPct ob)),
      show_int (ob_LastResourceSample ob)]"

definition read_observation :: "string \<Rightarrow> Observation" where
  "read_observation s = (let g = (!) (unwire [] s) in
     \<lparr>ob_RestartCount = read_int (g 0), ob_LastSeen = read_int (g 1),
      ob_MemorySamplesPct = map read_int (unwire [] (g 2)), ob_LastResourceSample = read_int (g 3)\<rparr>)"

lemma read_wire_observation [simp]: "read_observation (wire_observation ob) = ob"
  by (cases ob) (simp add: read_observation_def wire_observation_def Let_def numeral_eq_Suc o_def)

definition wire_codec :: codec where
  "wire_codec = \<lparr>
     marshal = (\<lambda>s. Some (wire_fields
       [show_int (ms_Version s), ms_Namespace s, wire_map (wire_option wire_finding) (ms_Findings s),
        wire_map (wire_option wire_observation) (ms_Observations s)])),
     unmarshal = (\<lambda>raw. case unwire [] raw of
         [version, ns, fs, obs] \<Rightarrow>
           Some \<lparr>de_Version = read_int version, de_Namespace = ns,
                 de_Findings = Some (read_map (read_option read_finding) fs),
                 de_Observations = Some (read_map (read_option read_observation) obs)\<rparr>
       | _ \<Rightarrow> None)\<rparr>"

lemma wire_codec_writes: "\<exists>data. marshal wire_codec s = Some data"
  by (simp add: wire_codec_def)

lemma wire_codec_reads_back:
  assumes "gm_wf (ms_Findings s)" and "gm_wf (ms_Observations s)"
  shows "reads_back wire_codec s"
  using assms by (simp add: reads_back_def wire_codec_def read_wire_map gm_wf_sort gm_get_sort)

section \<open>Properties\<close>

text \<open>A state with two findings, one of them resolved, listed against the order of their ids.\<close>

definition saved_finding :: "string \<Rightarrow> string \<Rightarrow> FindingState" where
  "saved_finding nm status =
     \<lparr>fs_Kind = ''Pod'', fs_Name = nm, fs_Check = ''pod-health'', fs_Reason = ''not-ready'', fs_FirstSeen = 10,
      fs_LastSeen = 20, fs_LastPublished = Some 20, fs_LastPublishFailed = None, fs_LastAIDispatchRequested = None,
      fs_CooldownUntil = Some 99, fs_Score = 60, fs_Classification = ''degraded'', fs_Status = status\<rparr>"

definition saved_state :: MonitorState where
  "saved_state = \<lparr>ms_Version = 1, ms_Namespace = ''ns'',
     ms_Findings = [(''b'', Some (saved_finding ''web'' ''ongoing'')), (''a'', Some (saved_finding ''db'' ''resolved''))],
     ms_Observations = [(''pod/web/restarts'', Some \<lparr>ob_RestartCount = 3, ob_LastSeen = 20,
        ob_MemorySamplesPct = [40, 55], ob_LastResourceSample = 20\<rparr>)]\<rparr>"

lemma saved_state_wf: "state_wf saved_state"
  by (simp add: saved_state_def state_wf_def gm_wf_def)

text \<open>
  C20. Restarting recovers what was saved: after a successful \<open>Save\<close>, a store that reads the
  object the API returned loads the saved state without an error and stays writeable: the
  same version and namespace, and maps with the same entries. What is relied on is that the
  codec reads back the maps of this state (in whatever order it writes them) and that the API
  returns the data it was sent.
\<close>

theorem Load_after_Save:
  assumes "reads_back co state" and "update_keeps_data api"
    and "ms_Version state = 1" and "ms_Namespace state \<noteq> []"
    and "Save api co s state w = (None, s', w')"
    and "get_cm api ns nm v = (Inr (the (ss_configMap s')), v')"
  shows "\<exists>loaded store. Load api co (NewStateStore ns nm) v = (Some loaded, None, store, v') \<and>
    same_state loaded state \<and> ss_writeable store"
  using assms by (rule Load_after_Save_spec)

lemma wire_save:
  "\<exists>s' w'. Save cluster_api wire_codec (NewStateStore ''ns'' ''st'') state foreign_cluster = (None, s', w') \<and>
     get_cm cluster_api ''ns'' ''st'' w' = (Inr (the (ss_configMap s')), w')"
proof -
  obtain data where "marshal wire_codec state = Some data" using wire_codec_writes by blast
  then show ?thesis by (simp add: store_eval)
qed

theorem Load_after_Save_witness:
  "\<exists>s' w' loaded store. Save cluster_api wire_codec (NewStateStore ''ns'' ''st'') saved_state foreign_cluster = (None, s', w') \<and>
     Load cluster_api wire_codec (NewStateStore ''ns'' ''st'') w' = (Some loaded, None, store, w') \<and>
     gm_get (ms_Findings loaded) ''b'' = Some (Some (saved_finding ''web'' ''ongoing''))"
proof -
  obtain s' w' where sv: "Save cluster_api wire_codec (NewStateStore ''ns'' ''st'') saved_state foreign_cluster = (None, s', w')"
    "get_cm cluster_api ''ns'' ''st'' w' = (Inr (the (ss_configMap s')), w')"
    using wire_save by blast
  have "reads_back wire_codec saved_state"
    using saved_state_wf by (intro wire_codec_reads_back) (simp_all add: state_wf_def)
  from Load_after_Save[OF this cluster_keeps_data _ _ sv] obtain loaded store where
    "Load cluster_api wire_codec (NewStateStore ''ns'' ''st'') w' = (Some loaded, None, store, w')"
    "same_state loaded saved_state" by (auto simp: saved_state_def)
  moreover have "gm_get (ms_Findings saved_state) ''b'' = Some (Some (saved_finding ''web'' ''ongoing''))"
    by (simp add: saved_state_def)
  ultimately show ?thesis using sv(1) by (auto simp: same_state_def)
qed

end
