(* ===== verification/Poll_Contracts.thy ===== *)
theory Poll_Contracts
  imports Poll_Trace State_Codec
begin

text \<open>
  What a whole poll promises: which findings it takes to be active, that a complete poll
  leaves exactly these ongoing, that the caps hold on what is kept, and when the state in the
  cluster is the state in memory.
\<close>

section \<open>Which findings are active\<close>

text \<open>The identifiers of the findings in the results that are not suppressed.\<close>

definition reported :: "(string, unit) go_map option \<Rightarrow> checkResult list \<Rightarrow> string set" where
  "reported suppressions rs =
     {f_ID f | f r. r \<in> set rs \<and> f \<in> set (cr_findings r) \<and> \<not> isSuppressed suppressions f}"

lemma reported_Nil [simp]: "reported sup0 [] = {}"
  by (simp add: reported_def)

lemma reported_Cons:
  "reported sup0 (r # rs) = {f_ID f | f. f \<in> set (cr_findings r) \<and> \<not> isSuppressed sup0 f} \<union> reported sup0 rs"
  by (auto simp: reported_def)

lemma reported_split: "reported sup0 (r # rs) = reported sup0 [r] \<union> reported sup0 rs"
  by (auto simp: reported_def)

lemma reported_append: "reported sup0 (rs @ rs') = reported sup0 rs \<union> reported sup0 rs'"
  by (auto simp: reported_def)

text \<open>What collecting does to the map of active findings.\<close>

definition activates :: "string set \<Rightarrow> 'w monitor \<times> (string, Finding) go_map \<Rightarrow> 'w monitor \<times> (string, Finding) go_map \<Rightarrow> bool" where
  "activates ids s s' \<longleftrightarrow> mn_suppressions (fst s') = mn_suppressions (fst s) \<and> gm_wf (snd s') \<and>
     dom (gm_get (snd s')) = dom (gm_get (snd s)) \<union> ids"

lemma activates_trans: "activates a s t \<Longrightarrow> activates b t u \<Longrightarrow> activates (a \<union> b) s u"
  by (auto simp: activates_def)

lemma collect_activates:
  assumes "collect_finding rt cfg now f (m, active) = Some s'" and "gm_wf active"
  shows "activates (if isSuppressed (mn_suppressions m) f then {} else {f_ID f}) (m, active) s'"
proof (cases "isSuppressed (mn_suppressions m) f")
  case True
  with assms show ?thesis by (auto simp: collect_finding_def activates_def)
next
  case False
  show ?thesis
  proof (cases "start_state m now f")
    case None
    with assms False show ?thesis
      unfolding collect_finding_def start_state_def stamped_def by (simp add: Let_def)
  next
    case (Some st)
    from collect_finding_spec[OF False Some refl refl, of rt cfg active] assms(1) obtain m' g where
      "s' = (m', gm_set (f_ID f) g active)" "mn_suppressions m' = mn_suppressions m" by auto
    with False assms(2) show ?thesis by (auto simp: activates_def go_map_simps dom_fun_upd)
  qed
qed

lemma collectFindings_activates:
  assumes "collectFindings rt cfg fs now (m, active) = Some s'" and "gm_wf active"
  shows "activates {f_ID f | f. f \<in> set fs \<and> \<not> isSuppressed (mn_suppressions m) f} (m, active) s'"
  using assms unfolding collectFindings_def
proof (induction fs arbitrary: m active)
  case Nil
  then show ?case by (auto simp: activates_def)
next
  case (Cons f fs)
  obtain m1 active1 where c: "collect_finding rt cfg now f (m, active) = Some (m1, active1)"
    "foldM (collect_finding rt cfg now) fs (m1, active1) = Some s'"
    using Cons.prems(1) by (auto split: option.splits)
  note a = collect_activates[OF c(1) Cons.prems(2)]
  then have sup: "mn_suppressions m1 = mn_suppressions m" and wf: "gm_wf active1" by (simp_all add: activates_def)
  have "{f_ID g | g. g \<in> set (f # fs) \<and> \<not> isSuppressed (mn_suppressions m) g} =
      (if isSuppressed (mn_suppressions m) f then {} else {f_ID f}) \<union>
      {f_ID g | g. g \<in> set fs \<and> \<not> isSuppressed (mn_suppressions m1) g}"
    unfolding sup by auto
  then show ?case using activates_trans[OF a Cons.IH[OF c(2) wf]] by simp
qed

lemma applyResult_activates:
  assumes "applyResult rt cfg res now (m, active) = Some s'" and "gm_wf active"
  shows "activates (reported (mn_suppressions m) [res]) (m, active) s'"
proof -
  obtain code m1 where a: "ask (rt_order rt) m = (code, m1)" by (cases "ask (rt_order rt) m")
  define m2 where "m2 = fold merge_observation (permute code (cr_observations res)) m1"
  have "mn_suppressions (fold merge_observation kvs n) = mn_suppressions n" for kvs and n :: "'b monitor"
    by (induction kvs arbitrary: n) simp_all
  then have sup: "mn_suppressions m2 = mn_suppressions m"
    using ask_sel(6)[of "rt_order rt" m] a by (simp add: m2_def)
  have "collectFindings rt cfg (cr_findings res) now (m2, active) = Some s'"
    using assms(1) by (simp add: applyResult_def a m2_def)
  from collectFindings_activates[OF this assms(2)] show ?thesis
    unfolding sup by (simp add: activates_def reported_Cons sup)
qed

lemma runCheck_suppressions:
  "runCheck rt cfg nm fn m = (res, m1) \<Longrightarrow> mn_suppressions m1 = mn_suppressions m"
  by (auto simp: runCheck_def ask_def recordCheckTimeout_def split: prod.splits if_splits race.splits)

text \<open>One stage, all of them, and the poll: what is active is what the trace reports.\<close>

lemma run_stage_reported:
  assumes "run_stage rt cfg now (enabled, nm, fn) (m, active, complete) = Some (m', active', complete')" and "gm_wf active"
  shows "activates (reported (mn_suppressions m) (if enabled then [fst (runCheck rt cfg nm fn m)] else []))
    (m, active) (m', active')"
proof (cases enabled)
  case False
  with assms show ?thesis by (simp add: run_stage_def activates_def)
next
  case True
  obtain res m1 where r: "runCheck rt cfg nm fn m = (res, m1)" by (cases "runCheck rt cfg nm fn m")
  have "applyResult rt cfg res now (m1, active) = Some (m', active')"
    using assms(1) True by (auto simp: run_stage_def r split: option.splits)
  from applyResult_activates[OF this assms(2)] True show ?thesis
    by (simp add: activates_def r runCheck_suppressions[OF r])
qed

lemma stage_trace_reported:
  assumes "foldM (run_stage rt cfg now) sts acc = Some acc'" and "gm_wf (fst (snd acc))"
  shows "activates (reported (mn_suppressions (fst acc)) (map result_taken (stage_trace rt cfg now sts acc)))
    (fst acc, fst (snd acc)) (fst acc', fst (snd acc'))"
  using assms
proof (induction rt cfg now sts acc rule: stage_trace.induct)
  case (1 rt cfg now acc)
  then show ?case by (simp add: activates_def)
next
  case (2 rt cfg now enabled nm fn sts acc)
  obtain m active complete where acc: "acc = (m, active, complete)" by (cases acc)
  obtain acc1 where s: "run_stage rt cfg now (enabled, nm, fn) acc = Some acc1"
    "foldM (run_stage rt cfg now) sts acc1 = Some acc'" using "2.prems"(1) by (auto split: option.splits)
  obtain m1 active1 complete1 where acc1: "acc1 = (m1, active1, complete1)" by (cases acc1)
  note a = run_stage_reported[OF s(1)[unfolded acc acc1]]
  have a1: "activates (reported (mn_suppressions m) (if enabled then [fst (runCheck rt cfg nm fn m)] else []))
      (m, active) (m1, active1)" using a "2.prems"(2) by (simp add: acc)
  then have "gm_wf (fst (snd acc1))" by (simp add: activates_def acc1)
  from activates_trans[OF a1 "2.IH"[OF s(1,2) this, unfolded acc1 fst_conv snd_conv]] a1
    s(1)[unfolded acc acc1]
  show ?case
    by (cases enabled) (simp_all add: acc1 acc reported_append activates_def reported_split[of _ _ "map f xs" for f xs])
qed

lemma discover_suppressions: "mn_suppressions (snd (discover rt cfg m)) = mn_suppressions m"
  by (auto simp: discover_def ask_def split: prod.split)

lemma poll_checks_reported:
  assumes "poll_checks rt cfg m = Some (now, m1, active, complete)"
  shows "dom (gm_get active) =
    reported (mn_suppressions (loadSuppressions rt cfg m)) (map result_taken (poll_trace rt cfg m))"
  using assms
proof (rule poll_checks_tail)
  let ?sup = "mn_suppressions (loadSuppressions rt cfg m)" and ?custom = "custom_stage rt cfg (poll_discovery rt cfg m)"
  fix snap m2 n act compl
  assume s: "poll_start rt cfg m = (now, snap, m2)"
    "foldM (run_stage rt cfg now) (poll_stages rt cfg snap) (m2, [], True) = Some (n, act, compl)"
    "after_stages rt cfg m = Some (n, act, compl)"
    and c: "if CustomResource (Checks cfg)
     then run_stage rt cfg now ?custom (snd (discover rt cfg n), act, compl) = Some (m1, active, complete)
     else (m1, active, complete) = (n, act, compl)"
  have none: "dom (gm_get []) = {}" by (simp add: gm_get_def)
  note st = stage_trace_reported[OF s(2), simplified, unfolded poll_start_frame(3)[OF s(1)]]
  show ?thesis
  proof (cases "CustomResource (Checks cfg)")
    case True
    have sup: "mn_suppressions (snd (discover rt cfg n)) = ?sup" and wf: "gm_wf act"
      using st by (simp_all add: discover_suppressions activates_def poll_start_frame(3)[OF s(1)])
    from c True have "foldM (run_stage rt cfg now) [?custom] (snd (discover rt cfg n), act, compl) = Some (m1, active, complete)"
      by simp
    from stage_trace_reported[OF this, unfolded fst_conv snd_conv sup, OF wf] st True show ?thesis
      by (simp add: poll_trace_def s(1,3) activates_def reported_append none del: stage_trace.simps)
  next
    case False
    with c st show ?thesis by (simp add: poll_trace_def s(1,3) activates_def none)
  qed
qed

text \<open>If no check was cut off, these are the findings of the checks' answers.\<close>

definition answered :: "('q, 'w) runtime \<Rightarrow> Config \<Rightarrow> 'w monitor \<Rightarrow> string set" where
  "answered rt cfg m =
     {f_ID f | f nm w r. (nm, w, r) \<in> set (poll_trace rt cfg m) \<and>
        f \<in> set (cr_findings (check_answer rt cfg (poll_snapshot rt cfg m) (poll_discovery rt cfg m) nm w)) \<and>
        \<not> isSuppressed (mn_suppressions (loadSuppressions rt cfg m)) f}"

lemma reported_answered:
  assumes "\<And>nm w r. (nm, w, r) \<in> set (poll_trace rt cfg m) \<Longrightarrow> cr_complete r"
  shows "reported (mn_suppressions (loadSuppressions rt cfg m)) (map result_taken (poll_trace rt cfg m)) = answered rt cfg m"
proof -
  have "r = check_answer rt cfg (poll_snapshot rt cfg m) (poll_discovery rt cfg m) nm w"
    if "(nm, w, r) \<in> set (poll_trace rt cfg m)" for nm w r
    using poll_trace_delivered[OF that assms[OF that]] .
  then show ?thesis
    unfolding reported_def answered_def by force
qed

section \<open>A complete poll\<close>

lemma expire_ongoing:
  assumes "state_wf (mn_state m)" and "expireResolvedFindings rt cfg now m = Some m'"
  shows "ongoing m' = ongoing m" and "gm_len (findings m') \<le> gm_len (findings m)"
proof -
  have wf': "state_wf (mn_state m')" using expireResolvedFindings_returns[OF assms(1), of rt cfg now] assms(2) by auto
  note get = expire_deletes(2)[OF assms]
  show "ongoing m' = ongoing m"
  proof (rule ext)
    show "ongoing m' k = ongoing m k" for k
      using get[of k] by (elim disjE) (auto simp: ongoing_def expired_def)
  qed
  have "gm_get (findings m') k = gm_get (findings m) k" if "k \<in> dom (gm_get (findings m'))" for k
    using get[of k] that by auto
  then have "gm_get (findings m') \<subseteq>\<^sub>m gm_get (findings m)" by (simp add: map_le_def)
  then show "gm_len (findings m') \<le> gm_len (findings m)"
    using wf_maps(1)[OF assms(1)] wf_maps(1)[OF wf'] by (intro gm_len_mono)
qed

lemma resolve_ongoing:
  assumes "tracks (m, active)" and "resolveMissingFindings rt cfg now active m = Some m'"
    and "\<forall>a \<in> set (drop (length (mn_attempts m)) (mn_attempts m')). f_Status (fst a) = ''resolved'' \<longrightarrow> snd a"
  shows "ongoing m' k \<longleftrightarrow> gm_get active k \<noteq> None" and "gm_len (findings m') = gm_len (findings m)"
proof -
  have wf: "state_wf (mn_state m)" and act: "\<And>k. gm_get active k \<noteq> None \<Longrightarrow> ongoing m k"
    using assms(1) by (auto simp: tracks_def)
  have wf': "state_wf (mn_state m')" using resolveMissingFindings_returns[OF wf, of rt cfg now active] assms(2) by auto
  obtain gone fate where r: "set gone = {k. ongoing m k \<and> gm_get active k = None}"
    "mn_attempts m' = mn_attempts m @ map (\<lambda>k. (resolved_finding cfg now k (state_of m k), fate k)) gone"
    "\<And>k. gm_get (findings m') k = (if k \<in> set gone then Some (Some (after_resolution now (fate k) (state_of m k)))
        else gm_get (findings m) k)"
    using resolve_missing_spec[OF wf assms(2)] by blast
  have "fate k" if "k \<in> set gone" for k
    using assms(3) that unfolding r(2) by (auto simp: resolved_finding_def)
  then show "ongoing m' k \<longleftrightarrow> gm_get active k \<noteq> None"
    using act[of k] r(1) by (auto simp: ongoing_def r(3) after_resolution_def)
  have "dom (gm_get (findings m')) = dom (gm_get (findings m))"
    using r(1) by (auto simp: dom_def r(3) ongoing_def)
  then show "gm_len (findings m') = gm_len (findings m)"
    using wf_maps(1)[OF wf] wf_maps(1)[OF wf'] by (simp add: gm.len_card)
qed

lemma save_ongoing:
  fixes m :: "'w monitor"
  assumes "state_wf (mn_state m)" and "maybeSave rt cfg now m = Some m'"
  shows "ongoing m' = ongoing m"
proof -
  have "ongoing n' = ongoing n" if "prunes n n'" "keeps_unresolved n n'" for n n' :: "'w monitor"
    using that by (fastforce simp: ongoing_def prunes_def deletes_def keeps_unresolved_def map_le_def dom_def fun_eq_iff)
  note keeps = this
  show ?thesis
    using assms(1)
  proof (cases rule: maybeSave_cases[where rt = rt and cfg = cfg and now = now])
    case skipped
    then show ?thesis using assms(2) by simp
  next
    case (failed n m1)
    then show ?thesis using assms(2) keeps[of m m1] ongoing_cong[of m' m1] by simp
  next
    case (saved n m1 bytes w')
    then show ?thesis using assms(2) keeps[of m m1] ongoing_cong[of m' m1] by simp
  qed
qed

text \<open>After resolving, a poll publishes nothing more.\<close>

lemma settle_attempts:
  assumes "state_wf (mn_state m)" and "poll_settle rt cfg now (m, active, True) = Some m'"
    and "resolveMissingFindings rt cfg now active m = Some n"
  shows "mn_attempts m' = mn_attempts n"
  using assms(2,1)
proof (rule settle_parts)
  fix n' e
  assume n: "(if True then resolveMissingFindings rt cfg now active m else Some m) = Some n'" "state_wf (mn_state n')"
    and e: "expireResolvedFindings rt cfg now n' = Some e" "prunes e m'"
  then have "n' = n" using assms(3) by simp
  with expire_deletes(1)[OF n(2) e(1)] e(2) show ?thesis by (simp add: prunes_def deletes_def)
qed

lemma settle_ongoing:
  assumes "tracks (m, active)" and "poll_settle rt cfg now (m, active, True) = Some m'"
    and "\<forall>a \<in> set (drop (length (mn_attempts m)) (mn_attempts m')). f_Status (fst a) = ''resolved'' \<longrightarrow> snd a"
    and "MaxFindings cfg \<le> 0 \<or> int (gm_len (findings m)) \<le> MaxFindings cfg"
  shows "ongoing m' k \<longleftrightarrow> gm_get active k \<noteq> None"
proof -
  have wf: "state_wf (mn_state m)" using assms(1) by (simp add: tracks_def)
  obtain n e where n: "(if True then resolveMissingFindings rt cfg now active m else Some m) = Some n" "state_wf (mn_state n)"
    and e: "expireResolvedFindings rt cfg now n = Some e"
    and m': "m' = updateActiveMetrics cfg active (pruneState rt cfg now e)"
    by (rule settle_parts[OF assms(2) wf])
  have n1: "resolveMissingFindings rt cfg now active m = Some n" using n(1) by simp
  note ex = expire_ongoing[OF n(2) e]
  note res = resolve_ongoing[OF assms(1) n1 assms(3)[unfolded settle_attempts[OF wf assms(2) n1]]]
  have "MaxFindings cfg \<le> 0 \<or> int (gm_len (findings e)) \<le> MaxFindings cfg"
    using assms(4) ex(2) res(2) by linarith
  then have "findings m' = findings e" by (simp add: m' updateActiveMetrics_def pruneState_findings)
  then have "ongoing m' = ongoing n" using ex(1) by (simp add: ongoing_def fun_eq_iff)
  with res(1) show ?thesis by simp
qed

section \<open>A poll as a whole\<close>

lemma caps_kept:
  fixes m m' :: "'w monitor"
  assumes "state_wf (mn_state m)" and "state_wf (mn_state m')"
    and "gm_get (findings m') \<subseteq>\<^sub>m gm_get (findings m)" and "gm_get (observations m') \<subseteq>\<^sub>m gm_get (observations m)"
  shows "gm_len (findings m') \<le> gm_len (findings m)" and "gm_len (observations m') \<le> gm_len (observations m)"
  using assms wf_maps by (blast intro: gm_len_mono)+

text \<open>The state a settled poll hands to the write is within the caps.\<close>

lemma settle_caps:
  assumes "state_wf (mn_state m)" and "poll_settle rt cfg now (m, active, complete) = Some m'"
  shows "(0 < MaxObservations cfg \<longrightarrow> int (gm_len (observations m')) \<le> MaxObservations cfg) \<and>
    (0 < MaxFindings cfg \<longrightarrow> int (gm_len (findings m')) \<le> MaxFindings cfg)"
  using assms(2,1)
proof (rule settle_parts)
  fix n e
  assume "state_wf (mn_state e)" "m' = updateActiveMetrics cfg active (pruneState rt cfg now e)"
  with pruneState_caps[of e cfg rt now] show ?thesis by (simp add: updateActiveMetrics_def)
qed

text \<open>How a poll relates the state it leaves to the state in the cluster.\<close>

lemma poll_write:
  assumes "state_wf (mn_state m)" and "Poll rt cfg m = Some m'"
  obtains
    (unwritten) "mn_store m' = mn_store m" "mn_lastWrite m' = mn_lastWrite m"
      "mn_dirty m' \<or> mn_state m' = mn_state m \<and> \<not> mn_dirty m"
  | (failed) "mn_dirty m'" "mn_lastWrite m' = mn_lastWrite m"
  | (written) bytes w w' where "\<not> mn_dirty m'"
      "Save (rt_api rt) (rt_codec rt) (mn_store m) (mn_state m') w = (None, mn_store m', w')"
      "map_option (int \<circ> length) (marshal (rt_codec rt) (mn_state m')) = Some bytes"
      "MaxStateBytes cfg \<le> 0 \<or> bytes \<le> MaxStateBytes cfg"
      "mn_lastWrite m = 0 \<or> StateWriteInterval cfg \<le> time_sub (mn_lastWrite m') (mn_lastWrite m)"
  using assms(1)
proof (rule Poll_parts[where rt = rt and cfg = cfg])
  fix now m1 active complete m2 m3
  assume q: "quiet (reports (Namespace cfg)) m m1" "evolves (published_ok (Namespace cfg)) m1 m2"
    and wf2: "state_wf (mn_state m2)" and save: "maybeSave rt cfg now m2 = Some m3"
    and run: "Poll rt cfg m = Some (mark_health rt cfg now m3)"
  have m': "m' = mark_health rt cfg now m3" using run assms(2) by simp
  have "quiet (published_ok (Namespace cfg)) m m1" using q(1) by (rule quiet_mono) (simp add: reports_def)
  then have ev: "evolves (published_ok (Namespace cfg)) m m2"
    using q(2) evolves.rel_trans unfolding quiet_def by blast
  have same: "mn_store m2 = mn_store m" "mn_lastWrite m2 = mn_lastWrite m" using ev by (auto simp: evolves_def)
  show thesis
    using wf2
  proof (cases rule: maybeSave_cases[where rt = rt and cfg = cfg and now = now])
    case skipped
    then have "m3 = m2" using save by simp
    then show thesis using ev by (intro unwritten) (auto simp: m' same evolves_def)
  next
    case (failed n n1)
    then have "m3 = n" using save by simp
    with failed show thesis by (intro that(2)) (simp_all add: m' same)
  next
    case (saved n n1 bytes w')
    then have n: "m3 = n" using save by simp
    show thesis
    proof (rule written)
      show "\<not> mn_dirty m'" using saved(7) by (simp add: m' n)
      show "Save (rt_api rt) (rt_codec rt) (mn_store m) (mn_state m') (mn_world n1) = (None, mn_store m', w')"
        using saved(12) by (simp add: m' n same)
      show "map_option (int \<circ> length) (marshal (rt_codec rt) (mn_state m')) = Some bytes"
        using saved(10) by (simp add: m' n saved(6) currentStateBytes_def split: option.splits)
      show "MaxStateBytes cfg \<le> 0 \<or> bytes \<le> MaxStateBytes cfg" by (rule saved(11))
      show "mn_lastWrite m = 0 \<or> StateWriteInterval cfg \<le> time_sub (mn_lastWrite m') (mn_lastWrite m)"
        using saved(1,8) by (simp add: m' n same write_due_def)
    qed
  qed
qed

lemma poll_identity:
  assumes "state_wf (mn_state m)" and "Poll rt cfg m = Some m'"
  shows "ms_Version (mn_state m') = ms_Version (mn_state m) \<and> ms_Namespace (mn_state m') = ms_Namespace (mn_state m)"
  using assms(1)
proof (rule Poll_parts[where rt = rt and cfg = cfg])
  fix now m1 active complete m2 m3
  assume q: "quiet (reports (Namespace cfg)) m m1" "evolves (published_ok (Namespace cfg)) m1 m2"
    and wf2: "state_wf (mn_state m2)" and save: "maybeSave rt cfg now m2 = Some m3"
    and run: "Poll rt cfg m = Some (mark_health rt cfg now m3)"
  have "mn_state m' = mn_state m3" using run assms(2) by auto
  moreover have "ms_Version (mn_state m3) = ms_Version (mn_state m2) \<and> ms_Namespace (mn_state m3) = ms_Namespace (mn_state m2)"
    using wf2
  proof (cases rule: maybeSave_cases[where rt = rt and cfg = cfg and now = now])
    case skipped
    then show ?thesis using save by simp
  next
    case (failed n n1)
    then show ?thesis using save by (simp add: prunes_def deletes_def)
  next
    case (saved n n1 bytes w')
    then show ?thesis using save by (simp add: prunes_def deletes_def)
  qed
  ultimately show ?thesis using q by (simp add: quiet_def evolves_def)
qed

section \<open>An idle cluster with one known finding\<close>

text \<open>The only check enabled finds nothing, so the known finding is to be resolved.\<close>

definition idle_runtime :: "(int, cluster) runtime" where
  "idle_runtime = (demo_runtime True sizing_codec)\<lparr>rt_list := \<lambda>w. ((quiet_listing\<lparr>li_pods := Some []\<rparr>, True), w)\<rparr>"

lemma idle_runtime_sel [simp]: "rt_order idle_runtime w = ([], w)" "accepted idle_runtime f m"
  by (simp_all add: idle_runtime_def accepted_def)

lemma known_monitor_wf: "state_wf (mn_state known_monitor)"
  by (simp add: known_monitor_def state_wf_def gm_wf_def)

lemma idle_checks:
  obtains m1 where "poll_checks idle_runtime pods_only known_monitor = Some (unix_epoch + 1000, m1, [], True)"
    "mn_attempts m1 = []" "findings m1 = findings known_monitor"
proof -
  have "\<exists>m1. poll_checks idle_runtime pods_only known_monitor = Some (unix_epoch + 1000, m1, [], True) \<and>
      mn_attempts m1 = [] \<and> findings m1 = findings known_monitor"
    by (simp add: poll_checks_def loadSuppressions_def ask_def idle_runtime_def demo_runtime_def Let_def
        poll_stages_def run_stage_def runCheck_def run_custom_def applyResult_def collectFindings_def second_def
        checkPods_def buildSnapshot_def listSnapshot_def list_pods_def needs_pods_def list_events_def
        list_deployments_def list_statefulSets_def list_daemonSets_def list_services_def list_pvcs_def
        list_hpas_def prior_observations_def quiet_listing_def known_monitor_def empty_snapshot_def emit_def
        split: prod.split)
  then show thesis using that by blast
qed

lemma idle_resolution:
  assumes "findings m = findings known_monitor" and "mn_attempts m = []"
    and "resolveMissingFindings idle_runtime pods_only now [] m = Some n"
  shows "\<exists>g. mn_attempts n = [(g, True)]"
  using assms
  by (auto simp: resolveMissingFindings_def ask_def resolve_one_missing known_monitor_def known_state_def
      new_finding_state_def missing_def ongoing_def gm_keys_def)

section \<open>Properties\<close>

text \<open>
  C1. A complete poll makes the monitor's picture exact. Every enabled check runs, in the
  order of the source. If none of them was cut off or missed a call it needs, the broker took
  the resolutions, and the cap on findings is not exceeded while collecting, then the
  findings that are ongoing after the poll are exactly those that the checks answer, on the
  snapshot made of what the API listed in this poll (and the logs, metrics, discovery and
  objects it gave in this poll), less those that the suppressions read in this poll cover.
\<close>

theorem complete_poll_refines_report:
  assumes "state_wf (mn_state m)" and "Poll rt cfg m = Some m'"
    and "\<And>nm w r. (nm, w, r) \<in> set (poll_trace rt cfg m) \<Longrightarrow> cr_complete r"
    and "\<And>f ok. (f, ok) \<in> set (drop (length (mn_attempts m)) (mn_attempts m')) \<Longrightarrow> f_Status f = ''resolved'' \<Longrightarrow> ok"
    and "poll_checks rt cfg m = Some (now, m1, active, complete)"
    and "MaxFindings cfg \<le> 0 \<or> int (gm_len (findings m1)) \<le> MaxFindings cfg"
  shows "map fst (poll_trace rt cfg m) = enabled_checks cfg \<and>
    {k. ongoing m' k} =
      {f_ID f | f nm w r. (nm, w, r) \<in> set (poll_trace rt cfg m) \<and>
         f \<in> set (cr_findings (check_answer rt cfg (poll_snapshot rt cfg m) (poll_discovery rt cfg m) nm w)) \<and>
         \<not> isSuppressed (mn_suppressions (loadSuppressions rt cfg m)) f}"
proof -
  have tr: "tracks (m1, active)"
    using poll_checks_tracks[OF assms(1,5)] by (simp add: acc_tracks_def)
  have complete using poll_trace_complete[OF assms(5)] assms(3) by auto
  have ongoing: "ongoing m' k \<longleftrightarrow> gm_get active k \<noteq> None" for k
    using assms(1)
  proof (rule Poll_parts[where rt = rt and cfg = cfg])
    fix now' n1 active' complete' m2 m3
    assume p: "poll_checks rt cfg m = Some (now', n1, active', complete')"
      "quiet (reports (Namespace cfg)) m n1"
      "poll_settle rt cfg now' (n1, active', complete') = Some m2" "state_wf (mn_state m2)"
      "maybeSave rt cfg now' m2 = Some m3" "mn_attempts m3 = mn_attempts m2"
      "Poll rt cfg m = Some (mark_health rt cfg now' m3)"
    then have m': "mn_state m' = mn_state m3" "mn_attempts m' = mn_attempts m2" using assms(2) by auto
    have s: "poll_settle rt cfg now (m1, active, True) = Some m2" "n1 = m1" using p(1,3) assms(5) \<open>complete\<close> by simp_all
    obtain xs where "mn_attempts m1 = mn_attempts m @ xs" using p(2) by (auto simp: s(2) quiet_def evolves_def)
    then have "set (drop (length (mn_attempts m1)) (mn_attempts m2)) \<subseteq> set (drop (length (mn_attempts m)) (mn_attempts m2))"
      by (simp add: set_drop_subset_set_drop)
    then have "\<forall>a \<in> set (drop (length (mn_attempts m1)) (mn_attempts m2)). f_Status (fst a) = ''resolved'' \<longrightarrow> snd a"
      using assms(4) by (fastforce simp: m'(2))
    from settle_ongoing[OF tr s(1) this assms(6)] save_ongoing[OF p(4,5)] ongoing_cong[OF m'(1)]
    show ?thesis by simp
  qed
  then have "{k. ongoing m' k} = dom (gm_get active)" by auto
  also have "\<dots> = answered rt cfg m"
    using poll_checks_reported[OF assms(5)] reported_answered[OF assms(3)] by simp
  finally show ?thesis using poll_trace_names[OF assms(5)] by (simp add: answered_def)
qed

lemma idle_answer:
  "cr_findings (check_answer idle_runtime pods_only (poll_snapshot idle_runtime pods_only known_monitor) apis ''pods'' w) = []"
  by (simp add: check_answer_def poll_snapshot_def poll_start_def loadSuppressions_def ask_def idle_runtime_def
      checkPods_def buildSnapshot_def listSnapshot_def list_pods_def needs_pods_def empty_snapshot_def Let_def
      list_events_def list_deployments_def list_statefulSets_def list_daemonSets_def list_services_def
      list_pvcs_def list_hpas_def split: prod.split)

theorem complete_poll_refines_report_witness:
  "\<exists>m'. Poll idle_runtime pods_only known_monitor = Some m' \<and> map fst (poll_trace idle_runtime pods_only known_monitor) = [''pods''] \<and>
     ongoing known_monitor (f_ID (demo_finding 65)) \<and> {k. ongoing m' k} = {}"
proof -
  obtain m1 where c: "poll_checks idle_runtime pods_only known_monitor = Some (unix_epoch + 1000, m1, [], True)"
    "mn_attempts m1 = []" "findings m1 = findings known_monitor" by (rule idle_checks)
  obtain m2 m' where p: "poll_settle idle_runtime pods_only (unix_epoch + 1000) (m1, [], True) = Some m2"
    "state_wf (mn_state m1)" "mn_attempts m' = mn_attempts m2" "Poll idle_runtime pods_only known_monitor = Some m'"
  proof (rule Poll_parts[OF known_monitor_wf, of idle_runtime pods_only])
    fix now n1 active complete m2 m3
    assume q: "poll_checks idle_runtime pods_only known_monitor = Some (now, n1, active, complete)" "state_wf (mn_state n1)"
      "poll_settle idle_runtime pods_only now (n1, active, complete) = Some m2" "mn_attempts m3 = mn_attempts m2"
      "Poll idle_runtime pods_only known_monitor = Some (mark_health idle_runtime pods_only now m3)"
    show thesis using that[of m2 "mark_health idle_runtime pods_only now m3"] q c(1) by simp
  qed
  obtain n where n: "resolveMissingFindings idle_runtime pods_only (unix_epoch + 1000) [] m1 = Some n"
    using resolveMissingFindings_returns[OF p(2)] by blast
  obtain g where "mn_attempts m' = [(g, True)]"
    using idle_resolution[OF c(3,2) n] settle_attempts[OF p(2,1) n] p(3) by auto
  then have acc: "ok" if "(f, ok) \<in> set (drop (length (mn_attempts known_monitor)) (mn_attempts m'))" for f ok
    using that by (simp add: known_monitor_def)
  have compl: "cr_complete r" if "(nm, w, r) \<in> set (poll_trace idle_runtime pods_only known_monitor)" for nm w r
    using that poll_trace_complete[OF c(1)] by auto
  have "int (gm_len (findings m1)) \<le> MaxFindings pods_only"
    by (simp add: c(3) known_monitor_def gm_len_def pods_only_def LoadConfig_def intEnv_def Let_def)
  then have cap: "MaxFindings pods_only \<le> 0 \<or> int (gm_len (findings m1)) \<le> MaxFindings pods_only" by simp
  have r: "map fst (poll_trace idle_runtime pods_only known_monitor) = enabled_checks pods_only \<and>
      {k. ongoing m' k} = answered idle_runtime pods_only known_monitor"
    unfolding answered_def
    by (rule complete_poll_refines_report[OF known_monitor_wf p(4) _ _ c(1) cap]) (erule compl, erule acc)
  have checks: "enabled_checks pods_only = [''pods'']" by (simp add: enabled_checks_def Let_def)
  then have "nm = ''pods''" if "(nm, w, r) \<in> set (poll_trace idle_runtime pods_only known_monitor)" for nm w r
    using r image_eqI[of nm fst "(nm, w, r)", OF _ that] by (simp flip: set_map)
  then have "answered idle_runtime pods_only known_monitor = {}"
    using idle_answer unfolding answered_def by fastforce
  moreover have "ongoing known_monitor (f_ID (demo_finding 65))"
    by (simp add: ongoing_def known_monitor_def known_state_def new_finding_state_def)
  ultimately show ?thesis using p(4) r checks by auto
qed

text \<open>
  C21. After every poll the state is within the configured caps on findings and observations,
  whatever was collected.
\<close>

theorem poll_keeps_caps:
  assumes "state_wf (mn_state m)" and "Poll rt cfg m = Some m'"
  shows "(0 < MaxObservations cfg \<longrightarrow> int (gm_len (observations m')) \<le> MaxObservations cfg) \<and>
    (0 < MaxFindings cfg \<longrightarrow> int (gm_len (findings m')) \<le> MaxFindings cfg)"
  using assms(1)
proof (rule Poll_parts[where rt = rt and cfg = cfg])
  fix now m1 active complete m2 m3
  assume p: "state_wf (mn_state m1)" "poll_settle rt cfg now (m1, active, complete) = Some m2"
    "state_wf (mn_state m2)" "state_wf (mn_state m3)"
    "gm_get (findings m3) \<subseteq>\<^sub>m gm_get (findings m2)" "gm_get (observations m3) \<subseteq>\<^sub>m gm_get (observations m2)"
    "Poll rt cfg m = Some (mark_health rt cfg now m3)"
  have "mn_state m' = mn_state m3" using p(7) assms(2) by auto
  with settle_caps[OF p(1,2)] caps_kept[OF p(3-6)] show ?thesis by auto
qed

theorem poll_keeps_caps_witness:
  "\<exists>m'. Poll idle_runtime pods_only known_monitor = Some m' \<and> int (gm_len (findings m')) \<le> 2000"
proof -
  obtain m' where r: "Poll idle_runtime pods_only known_monitor = Some m'"
    by (rule Poll_parts[OF known_monitor_wf])
  have "MaxFindings pods_only = 2000" by (simp add: pods_only_def LoadConfig_def intEnv_def Let_def)
  with poll_keeps_caps[OF known_monitor_wf r] r show ?thesis by auto
qed

text \<open>
  C7. What is in the cluster: after a poll the state in memory is marked dirty, or nothing
  happened at all since it was clean, or exactly this state was accepted by the API in this
  poll, within the size limit and not before the write interval had passed since the last
  write. In particular a state that was never accepted is never marked clean.
\<close>

theorem poll_persistence:
  assumes "state_wf (mn_state m)" and "Poll rt cfg m = Some m'"
  shows "mn_dirty m' \<and> mn_lastWrite m' = mn_lastWrite m \<or>
    \<not> mn_dirty m \<and> \<not> mn_dirty m' \<and> mn_state m' = mn_state m \<and> mn_store m' = mn_store m \<or>
    \<not> mn_dirty m' \<and>
    (\<exists>w w'. Save (rt_api rt) (rt_codec rt) (mn_store m) (mn_state m') w = (None, mn_store m', w')) \<and>
    (\<exists>data. marshal (rt_codec rt) (mn_state m') = Some data \<and>
       (0 < MaxStateBytes cfg \<longrightarrow> int (length data) \<le> MaxStateBytes cfg)) \<and>
    (mn_lastWrite m = 0 \<or> StateWriteInterval cfg \<le> time_sub (mn_lastWrite m') (mn_lastWrite m))"
  using assms
proof (cases rule: poll_write)
  case unwritten
  then show ?thesis by blast
next
  case failed
  then show ?thesis by blast
next
  case (written bytes w w')
  then show ?thesis by (auto simp: not_less)
qed

theorem poll_persistence_witness:
  "\<exists>m'. Poll idle_runtime pods_only known_monitor = Some m' \<and>
     (mn_dirty m' \<or> mn_state m' = mn_state known_monitor \<or>
      (\<exists>w w'. Save cluster_api sizing_codec (mn_store known_monitor) (mn_state m') w = (None, mn_store m', w')))"
proof -
  obtain m' where r: "Poll idle_runtime pods_only known_monitor = Some m'"
    by (rule Poll_parts[OF known_monitor_wf])
  have "rt_api idle_runtime = cluster_api" "rt_codec idle_runtime = sizing_codec"
    by (simp_all add: idle_runtime_def demo_runtime_def)
  with poll_persistence[OF known_monitor_wf r] r show ?thesis by auto
qed

text \<open>
  C12. A crash after a clean poll loses nothing: if the poll changed the state or found it
  dirty, and left it clean, then a process that starts afresh and reads the object the API
  returned for the write loads, without an error, the state the old process had in memory:
  the same version and namespace, the same findings and observations. Of the codec it is
  only asked that the bytes of this one state read back as the same maps.
\<close>

theorem restart_recovers_poll:
  assumes "reads_back (rt_codec rt) (mn_state m')" and "update_keeps_data (rt_api rt)"
    and "state_wf (mn_state m)" and "ms_Version (mn_state m) = 1" and "ms_Namespace (mn_state m) \<noteq> []"
    and "Poll rt cfg m = Some m'" and "mn_dirty m \<or> mn_state m' \<noteq> mn_state m" and "\<not> mn_dirty m'"
    and "get_cm (rt_api rt) ns nm v = (Inr (the (ss_configMap (mn_store m'))), v')"
  shows "\<exists>loaded store. Load (rt_api rt) (rt_codec rt) (NewStateStore ns nm) v = (Some loaded, None, store, v') \<and>
    same_state loaded (mn_state m') \<and> ss_writeable store"
  using assms(3,6)
proof (cases rule: poll_write)
  case unwritten
  then show ?thesis using assms(7,8) by blast
next
  case failed
  then show ?thesis using assms(8) by blast
next
  case (written bytes w w')
  have "ms_Version (mn_state m') = 1" "ms_Namespace (mn_state m') \<noteq> []"
    using poll_identity[OF assms(3,6)] assms(4,5) by auto
  from Load_after_Save_spec[OF assms(1,2) this written(2) assms(9)] show ?thesis .
qed

text \<open>The saved state of before, with nothing pruned: one finding is resolved, and all is written.\<close>

definition restart_runtime :: "(int, cluster) runtime" where
  "restart_runtime = idle_runtime\<lparr>rt_codec := wire_codec\<rparr>"

definition dirty_monitor :: "cluster monitor" where
  "dirty_monitor = mark_dirty (demo_monitor saved_state)"

lemma dirty_monitor_sel [simp]:
  "mn_state dirty_monitor = saved_state" "mn_dirty dirty_monitor" "mn_lastWrite dirty_monitor = 0"
  "mn_store dirty_monitor = NewStateStore ''ns'' ''st''" "mn_world dirty_monitor = foreign_cluster"
  "mn_suppressions dirty_monitor = None" "mn_attempts dirty_monitor = []" "mn_health dirty_monitor = None"
  by (simp_all add: dirty_monitor_def)

lemma restart_checks:
  "\<exists>m1. poll_checks restart_runtime keep_all dirty_monitor = Some (unix_epoch + 1000, m1, [], True) \<and>
     mn_state m1 = saved_state \<and> mn_dirty m1 \<and> mn_lastWrite m1 = 0 \<and>
     mn_store m1 = NewStateStore ''ns'' ''st'' \<and> mn_world m1 = foreign_cluster"
  by (simp add: poll_checks_def loadSuppressions_def ask_def restart_runtime_def idle_runtime_def demo_runtime_def Let_def
      poll_stages_def run_stage_def runCheck_def run_custom_def applyResult_def collectFindings_def second_def
      checkPods_def buildSnapshot_def listSnapshot_def list_pods_def needs_pods_def list_events_def
      list_deployments_def list_statefulSets_def list_daemonSets_def list_services_def list_pvcs_def
      list_hpas_def prior_observations_def quiet_listing_def empty_snapshot_def split: prod.split)

lemma restart_settles:
  assumes "mn_state m1 = saved_state"
  shows "\<exists>m2. poll_settle restart_runtime keep_all now (m1, [], True) = Some m2 \<and> mn_world m2 = mn_world m1"
proof -
  have order: "ask (rt_order restart_runtime) n = ([], n)" for n
    by (simp add: ask_def restart_runtime_def)
  have pub: "accepted restart_runtime f n" "snd (rt_publish restart_runtime f w) = w" for f n w
    by (simp_all add: restart_runtime_def idle_runtime_def accepted_def)
  have "\<exists>n. resolveMissingFindings restart_runtime keep_all now [] m1 = Some n \<and> mn_world n = mn_world m1"
    using assms
    by (simp add: resolveMissingFindings_def order saved_state_def gm_keys_def resolve_one_def saved_finding_def split_beta pub)
  then show ?thesis
    by (auto simp: poll_settle_def expireResolvedFindings_def pruneState_def pruneStaleObservations_def
        pruneObservationCap_def pruneFindingCap_def updateStateMetrics_def updateActiveMetrics_def)
qed

lemma restart_run:
  "\<exists>m' v. Poll restart_runtime keep_all dirty_monitor = Some m' \<and> \<not> mn_dirty m' \<and>
     get_cm cluster_api ''ns'' ''st'' v = (Inr (the (ss_configMap (mn_store m'))), v)"
proof -
  obtain m1 where c: "poll_checks restart_runtime keep_all dirty_monitor = Some (unix_epoch + 1000, m1, [], True)"
    "mn_state m1 = saved_state" "mn_dirty m1" "mn_lastWrite m1 = 0"
    "mn_store m1 = NewStateStore ''ns'' ''st''" "mn_world m1 = foreign_cluster"
    using restart_checks by blast
  have wf: "state_wf (mn_state m1)" by (simp add: c(2) saved_state_wf)
  obtain m2 where s: "poll_settle restart_runtime keep_all (unix_epoch + 1000) (m1, [], True) = Some m2"
    "mn_world m2 = foreign_cluster" using restart_settles[OF c(2)] c(6) by auto
  have m2: "mn_dirty m2" "mn_lastWrite m2 = 0" "mn_store m2 = NewStateStore ''ns'' ''st''"
    using poll_settle_returns[OF wf, of restart_runtime keep_all "unix_epoch + 1000" "[]" True] s(1) c by (auto simp: evolves_def)
  obtain data where data: "marshal wire_codec (mn_state m2) = Some data" using wire_codec_writes by blast
  obtain s' w' where sv: "Save cluster_api wire_codec (NewStateStore ''ns'' ''st'') (mn_state m2) foreign_cluster = (None, s', w')"
    "get_cm cluster_api ''ns'' ''st'' w' = (Inr (the (ss_configMap s')), w')"
    using wire_save by blast
  have rt: "rt_api restart_runtime = cluster_api" "rt_codec restart_runtime = wire_codec"
    by (simp_all add: restart_runtime_def idle_runtime_def)
  have "\<exists>m3. maybeSave restart_runtime keep_all (unix_epoch + 1000) m2 = Some m3 \<and> \<not> mn_dirty m3 \<and> mn_store m3 = s'"
    using sv(1) by (simp add: maybeSave_def pruneForStateSize_def currentStateBytes_def data m2 rt s(2) is_zero_def Let_def)
  with sv(2) show ?thesis by (auto simp: Poll_def c(1) s(1))
qed

theorem restart_recovers_poll_witness:
  "\<exists>m' v loaded store. Poll restart_runtime keep_all dirty_monitor = Some m' \<and>
     Load cluster_api wire_codec (NewStateStore ''ns'' ''st'') v = (Some loaded, None, store, v) \<and>
     gm_get (ms_Findings loaded) = gm_get (findings m')"
proof -
  obtain m' v where r: "Poll restart_runtime keep_all dirty_monitor = Some m'" "\<not> mn_dirty m'"
    "get_cm cluster_api ''ns'' ''st'' v = (Inr (the (ss_configMap (mn_store m'))), v)" using restart_run by blast
  have rt: "rt_api restart_runtime = cluster_api" "rt_codec restart_runtime = wire_codec"
    by (simp_all add: restart_runtime_def idle_runtime_def)
  have wf: "state_wf (mn_state dirty_monitor)" "ms_Version (mn_state dirty_monitor) = 1"
    "ms_Namespace (mn_state dirty_monitor) \<noteq> []"
    using saved_state_wf by (simp_all add: saved_state_def)
  have "state_wf (mn_state m')" by (rule Poll_parts[OF wf(1), of restart_runtime keep_all]) (use r(1) in auto)
  then have "reads_back wire_codec (mn_state m')" by (intro wire_codec_reads_back) (simp_all add: state_wf_def)
  from restart_recovers_poll[of restart_runtime, unfolded rt, OF this cluster_keeps_data wf r(1) _ r(2,3)] r(1)
  show ?thesis by (auto simp: same_state_def)
qed

end
