(* ===== verification/Metrics.thy ===== *)
theory Metrics
  imports Resource_Usage Custom_Resources
begin

text \<open>
  The collectors of \<open>metrics.go\<close>: name, kind and labels of each vector (the help texts and
  the histogram buckets are left out), the registration, and which calls of \<open>WithLabelValues\<close>
  the client library accepts: it panics when the number of values differs from the number of
  labels. The counters of every check family are of the accepted form.
\<close>

section \<open>Collectors\<close>

datatype vec_kind = CounterVec | GaugeVec | HistogramVec

record metric_vec =
  mv_Name :: string
  mv_kind :: vec_kind
  mv_labels :: "string list"

definition vec :: "vec_kind \<Rightarrow> string \<Rightarrow> string list \<Rightarrow> metric_vec" where
  "vec kind nm ls = \<lparr>mv_Name = nm, mv_kind = kind, mv_labels = ls\<rparr>"

definition checksTotal :: metric_vec where
  "checksTotal = vec CounterVec ''autonomous_monitor_checks_total'' [''namespace'', ''check'', ''result'']"

definition findingsTotal :: metric_vec where
  "findingsTotal = vec CounterVec ''autonomous_monitor_findings_total'' [''namespace'', ''classification'', ''check'']"

definition activeFindings :: metric_vec where
  "activeFindings = vec GaugeVec ''autonomous_monitor_active_findings'' [''namespace'', ''classification'']"

definition aiDispatchRequests :: metric_vec where
  "aiDispatchRequests = vec CounterVec ''autonomous_monitor_ai_dispatch_requests_total'' [''namespace'', ''result'']"

definition aiCooldowns :: metric_vec where
  "aiCooldowns = vec CounterVec ''autonomous_monitor_ai_cooldowns_total'' [''namespace'']"

definition stateWrites :: metric_vec where
  "stateWrites = vec CounterVec ''autonomous_monitor_state_writes_total'' [''namespace'', ''result'']"

definition stateBytes :: metric_vec where
  "stateBytes = vec GaugeVec ''autonomous_monitor_state_bytes'' [''namespace'']"

definition stateFindings :: metric_vec where
  "stateFindings = vec GaugeVec ''autonomous_monitor_state_findings'' [''namespace'']"

definition stateObservations :: metric_vec where
  "stateObservations = vec GaugeVec ''autonomous_monitor_state_observations'' [''namespace'']"

definition statePrunes :: metric_vec where
  "statePrunes = vec CounterVec ''autonomous_monitor_state_prunes_total'' [''namespace'', ''type'', ''reason'']"

definition publishAttempts :: metric_vec where
  "publishAttempts = vec CounterVec ''autonomous_monitor_publish_attempts_total'' [''namespace'', ''result'']"

definition resourceSamples :: metric_vec where
  "resourceSamples = vec CounterVec ''autonomous_monitor_resource_samples_total'' [''namespace'', ''backend'']"

definition customResourceScans :: metric_vec where
  "customResourceScans = vec CounterVec ''autonomous_monitor_custom_resource_scans_total'' [''namespace'', ''result'']"

definition pollDuration :: metric_vec where
  "pollDuration = vec HistogramVec ''autonomous_monitor_poll_duration_seconds'' [''namespace'']"

text \<open>The arguments of \<open>MustRegister\<close>, which panics when two collectors have one name.\<close>

definition registered :: "metric_vec list" where
  "registered =
     [checksTotal, findingsTotal, activeFindings, aiDispatchRequests, aiCooldowns, stateWrites, stateBytes,
      stateFindings, stateObservations, statePrunes, publishAttempts, resourceSamples, customResourceScans,
      pollDuration]"

section \<open>Accepted calls\<close>

text \<open>A recorded call names its vector without the common prefix.\<close>

definition accepts :: "vec_kind \<Rightarrow> string \<Rightarrow> string list \<Rightarrow> bool" where
  "accepts kind nm values =
     list_ex (\<lambda>v. mv_Name v = ''autonomous_monitor_'' @ nm \<and> mv_kind v = kind \<and>
                  length (mv_labels v) = length values) registered"

fun declared :: "metric \<Rightarrow> bool" where
  "declared (Inc nm values) = accepts CounterVec nm values"
| "declared (SetGauge nm values x) = accepts GaugeVec nm values"
| "declared (Observe nm values x) = accepts HistogramVec nm values"

lemmas collectors = checksTotal_def findingsTotal_def activeFindings_def aiDispatchRequests_def aiCooldowns_def
  stateWrites_def stateBytes_def stateFindings_def stateObservations_def statePrunes_def publishAttempts_def
  resourceSamples_def customResourceScans_def pollDuration_def vec_def

lemma declared_calls [simp]:
  "accepts CounterVec ''checks_total'' [a, b, c]"
  "accepts CounterVec ''findings_total'' [a, b, c]"
  "accepts GaugeVec ''active_findings'' [a, b]"
  "accepts CounterVec ''ai_dispatch_requests_total'' [a, b]"
  "accepts CounterVec ''ai_cooldowns_total'' [a]"
  "accepts CounterVec ''state_writes_total'' [a, b]"
  "accepts GaugeVec ''state_bytes'' [a]"
  "accepts GaugeVec ''state_findings'' [a]"
  "accepts GaugeVec ''state_observations'' [a]"
  "accepts CounterVec ''state_prunes_total'' [a, b, c]"
  "accepts CounterVec ''publish_attempts_total'' [a, b]"
  "accepts CounterVec ''resource_samples_total'' [a, b]"
  "accepts CounterVec ''custom_resource_scans_total'' [a, b]"
  "accepts HistogramVec ''poll_duration_seconds'' [a]"
  by (simp_all add: accepts_def registered_def collectors)

lemma registered_distinct: "distinct (map mv_Name registered)"
  by (simp add: registered_def collectors)

section \<open>The counters of the check families\<close>

lemma declared_checks_total [simp]: "declared (checks_total ns family result)"
  by (simp add: checks_total_def)

lemma declared_scans [simp]: "declared (scans cfg result)"
  by (simp add: scans_def)

lemma snapshot_checks_declared:
  "list_all declared (fst (checkPods cfg snap))"
  "list_all declared (fst (checkResourceSpecs D cfg snap))"
  "list_all declared (fst (checkEvents D cfg snap))"
  "list_all declared (fst (checkWorkloads cfg snap))"
  "list_all declared (fst (checkServices D cfg snap))"
  "list_all declared (fst (checkPVCs cfg snap))"
  "list_all declared (fst (checkScaling cfg snap))"
  "list_all declared (fst (checkLogs logs cfg snap))"
  by (simp_all add: checkPods_def checkResourceSpecs_def checkEvents_def checkWorkloads_def checkServices_def
      checkPVCs_def checkScaling_def checkLogs_def Let_def split: prod.split)

lemma usage_check_declared: "list_all declared (fst (checkResourceUsage D ans cfg snap))"
proof -
  have "list_all declared (fst (fold (usage_step D cfg snap limits) items acc))"
    if "list_all declared (fst acc)" for limits items and acc :: usage_acc
    using that
    by (rule fold_preserves[where P = "\<lambda>acc. list_all declared (fst acc)"])
       (auto simp: usage_step_def Let_def split: option.split prod.split)
  from this[of "([], [], [])"] show ?thesis
    by (simp add: checkResourceUsage_def split: option.split prod.split) (metis fst_conv)
qed

lemma custom_check_declared: "list_all declared (fst (checkCustomResources D client apis cfg))"
proof -
  have res: "list_all declared (fst (scan_resource dyn cfg gv res))" for dyn gv res
    by (simp add: scan_resource_def split: option.split)
  have "list_all declared (fst (scan_group D dyn cfg l))" for dyn l
    by (auto simp: scan_group_def Let_def res split: option.split)
  then show ?thesis by (auto simp: checkCustomResources_def Let_def split: option.split)
qed

end
