(* ===== verification/Effects.thy ===== *)
theory Effects
  imports Poll_Contracts Metrics
begin

text \<open>
  What a poll does to the world outside and to the records of counters and publishes, step by
  step. A relation between monitors that is kept by every single effect (a write to a field
  the world does not see, an accepted metric, a call outside, a publish) is kept by a whole
  poll, by the shutdown, and so by every run of the program. The theory proves this once, in
  a locale, and instantiates it.
\<close>

section \<open>The shape of a round of collecting\<close>

lemma emit_Nil [simp]: "emit [] m = m"
  by (simp add: emit_def)

lemma collect_shape:
  assumes "\<not> isSuppressed (mn_suppressions m) f" and "collect_finding rt cfg now f (m, active) = Some s'"
  obtains (stored) k st1 ms where "list_all declared ms" "fst s' = store_finding k st1 (emit ms m)"
  | (published) k st1 st2 g ms ms' where "list_all declared ms" "list_all declared ms'"
      "fst s' = store_finding k st2 (emit ms' (snd (publish rt cfg g (store_finding k st1 (emit ms m)))))"
proof -
  let ?f1 = "f\<lparr>f_LastSeen := now, f_Status := ''ongoing''\<rparr>"
  let ?known = "gm_get (findings m) (f_ID f) \<noteq> None"
  obtain st where st: "(case gm_get (findings m) (f_ID f) of None \<Rightarrow> Some (new_finding_state now ?f1) | Some p \<Rightarrow> p) = Some st"
    using assms by (auto simp: collect_finding_def Let_def split: option.splits)
  define g where "g = triaged cfg now st (?f1\<lparr>f_FirstSeen := fs_FirstSeen st\<rparr>)"
  define ms where "ms = (if triage_wanted cfg f \<and> \<not> triage_due cfg now st f then [Inc ''ai_cooldowns_total'' [Namespace cfg]] else [])"
  define ms' where "ms' = (if triage_due cfg now st f then [Inc ''ai_dispatch_requests_total'' [Namespace cfg, ''requested'']] else [])"
  have d: "list_all declared ms" by (simp add: ms_def)
  have d': "list_all declared ms'" by (simp add: ms'_def)
  have pub: "publish rt cfg g n = (\<not> accepted rt g n, snd (publish rt cfg g n))" for n
    by (simp add: prod_eq_iff)
  show thesis
  proof (cases "changed ?known st f \<or> triage_due cfg now st f")
    case False
    then have "fst s' = store_finding (f_ID g) (seen_again now g st) (emit ms m)"
      using assms st by (auto simp: collect_finding_def Let_def g_def[symmetric] ms_def split: if_splits)
    with stored d show thesis by blast
  next
    case True
    have "\<exists>st2 ms''. (ms'' = [] \<or> ms'' = ms') \<and> fst s' = store_finding (f_ID g) st2
        (emit ms'' (snd (publish rt cfg g (store_finding (f_ID g) (seen_again now g st) (emit ms m)))))"
      using assms st True
      by (cases "accepted rt g m"; cases "triage_due cfg now st f")
         (auto simp: collect_finding_def Let_def g_def[symmetric] ms_def ms'_def split_beta, (metis emit_Nil)+)
    with published d d' show thesis by (metis list.pred_inject(1))
  qed
qed

section \<open>The interface\<close>

text \<open>Where the calls outside, other than publishing, may take the world.\<close>

locale calls =
  fixes rt :: "('q, 'w) runtime" and leads :: "'w \<Rightarrow> 'w \<Rightarrow> bool"
  assumes leads_refl: "leads w w"
    and leads_trans: "leads w w1 \<Longrightarrow> leads w1 w2 \<Longrightarrow> leads w w2"
    and clock_leads: "leads w (snd (rt_clock rt w))"
    and order_leads: "leads w (snd (rt_order rt w))"
    and list_leads: "leads w (snd (rt_list rt w))"
    and race_leads: "leads w (snd (rt_race rt nm w))"
    and logs_leads: "leads w (snd (rt_logs rt w))"
    and metrics_leads: "leads w (snd (rt_metrics rt w))"
    and dynamic_leads: "leads w (snd (rt_dynamic rt w))"
    and discovery_leads: "leads w (snd (rt_discovery rt w))"
    and get_leads: "leads w (snd (get_cm (rt_api rt) ns nm w))"
    and update_leads: "leads w (snd (update_cm (rt_api rt) ns cm w))"
begin

lemma save_attempts_leads:
  "save_attempts (rt_api rt) data n again le s w = (err, s', w') \<Longrightarrow> leads w w'"
proof (induction n arbitrary: again le s w)
  case 0
  then show ?case by (simp add: leads_refl)
next
  case (Suc n)
  have get: "get_cm (rt_api rt) ns nm w = (r, w1) \<Longrightarrow> leads w w1" for ns nm r w1
    using get_leads[of w ns nm] by simp
  have upd: "update_cm (rt_api rt) ns cm w1 = (r, w2) \<Longrightarrow> leads w1 w2" for w1 w2 ns cm r
    using update_leads[of w1 ns cm] by simp
  from Suc.prems show ?case
    by (auto simp: Let_def split: prod.splits sum.splits if_splits dest!: get upd Suc.IH)
       (blast intro: leads_trans)+
qed

lemma Save_leads: "Save (rt_api rt) co s state w = (err, s', w') \<Longrightarrow> leads w w'"
  by (auto simp: Save_def leads_refl split: if_splits option.splits dest: save_attempts_leads)

end

locale effects = evolution rel + calls rt leads
  for rel :: "'w monitor \<Rightarrow> 'w monitor \<Rightarrow> bool" and rt :: "('q, 'w) runtime" and leads +
  fixes cfg :: Config
  assumes frame: "mn_world m' = mn_world m \<Longrightarrow> mn_metrics m' = mn_metrics m \<Longrightarrow>
      mn_attempts m' = mn_attempts m \<Longrightarrow> rel m m'"
    and emits: "list_all declared ms \<Longrightarrow> rel m (emit ms m)"
    and calls: "leads (mn_world m) w \<Longrightarrow> rel m (m\<lparr>mn_world := w\<rparr>)"
    and publishes: "rel m (snd (publish rt cfg f m))"
begin

lemma asks: "leads (mn_world m) (snd (g (mn_world m))) \<Longrightarrow> rel m (snd (ask g m))"
  using calls[of m "snd (g (mn_world m))"] by (simp add: ask_def split_beta)

lemma asks_order [intro]: "ask (rt_order rt) m = (code, m1) \<Longrightarrow> rel m m1"
  using asks[of m "rt_order rt"] order_leads by simp

lemma asks_clock [intro]: "ask (rt_clock rt) m = (t, m1) \<Longrightarrow> rel m m1"
  using asks[of m "rt_clock rt"] clock_leads by simp

lemma rel_store: "rel m (store_finding k st m)"
  by (rule frame) (simp_all add: store_finding_def mark_dirty_def)

lemma rel_dirty: "rel m m1 \<Longrightarrow> rel m (mark_dirty m1)"
  by (erule rel_trans) (simp add: frame)

lemma rel_fold: "(\<And>x m. rel m (f x m)) \<Longrightarrow> rel m (fold f xs m)"
  by (induction xs arbitrary: m) (auto intro: rel_refl rel_trans)

lemma rel_foldM:
  "foldM f xs m = Some m' \<Longrightarrow> (\<And>x m m'. f x m = Some m' \<Longrightarrow> rel m m') \<Longrightarrow> rel m m'"
  by (rule foldM_relates[where R = rel]) (auto intro: rel_refl rel_trans)

subsection \<open>Collecting and resolving\<close>

lemma collect_rel:
  assumes "collect_finding rt cfg now f s = Some s'"
  shows "rel (fst s) (fst s')"
proof -
  obtain m active where s: "s = (m, active)" by (cases s)
  show ?thesis
  proof (cases "isSuppressed (mn_suppressions m) f")
    case True
    with assms show ?thesis by (simp add: s collect_finding_def rel_refl)
  next
    case False
    show ?thesis
    proof (rule collect_shape[OF False assms[unfolded s]])
      fix k st1 ms
      assume "list_all declared ms" "fst s' = store_finding k st1 (emit ms m)"
      then show ?thesis using rel_trans[OF emits rel_store] by (simp add: s)
    next
      fix k st1 st2 g ms ms'
      assume d: "list_all declared ms" "list_all declared ms'"
        and s': "fst s' = store_finding k st2 (emit ms' (snd (publish rt cfg g (store_finding k st1 (emit ms m)))))"
      have "rel m (store_finding k st1 (emit ms m))" using rel_trans[OF emits[OF d(1)] rel_store] .
      then have "rel m (snd (publish rt cfg g (store_finding k st1 (emit ms m))))" using publishes by (rule rel_trans)
      then show ?thesis unfolding s' s fst_conv
        using emits[OF d(2)] rel_store by (blast intro: rel_trans)
    qed
  qed
qed

lemma applyResult_rel:
  assumes "applyResult rt cfg res now (m, active) = Some s'"
  shows "rel m (fst s')"
proof -
  obtain code m1 where a: "ask (rt_order rt) m = (code, m1)" by (cases "ask (rt_order rt) m")
  define m2 where "m2 = fold merge_observation (permute code (cr_observations res)) m1"
  have "rel m1 m2" unfolding m2_def
    by (rule rel_fold, rule frame) (simp_all add: merge_observation_def mark_dirty_def)
  then have m2: "rel m m2" using a rel_trans by blast
  have "foldM (collect_finding rt cfg now) (cr_findings res) (m2, active) = Some s'"
    using assms by (simp add: applyResult_def a collectFindings_def m2_def)
  then have "rel (fst (m2, active)) (fst s')"
    by (rule foldM_relates[where R = "\<lambda>s s'. rel (fst s) (fst s')"]) (auto intro: rel_refl rel_trans collect_rel)
  with m2 show ?thesis using rel_trans by auto
qed

lemma resolve_one_rel:
  assumes "resolve_one rt cfg now active k m = Some m'"
  shows "rel m m'"
proof -
  have "rel m (store_finding k st (snd (publish rt cfg g m)))" for k st g
    by (rule rel_trans[OF publishes rel_store])
  with assms show ?thesis
    by (auto simp: resolve_one_def split_beta rel_refl split: option.splits if_splits bool.splits)
qed

lemma resolve_rel:
  assumes "resolveMissingFindings rt cfg now active m = Some m'"
  shows "rel m m'"
proof -
  obtain code m1 where a: "ask (rt_order rt) m = (code, m1)" by (cases "ask (rt_order rt) m")
  with assms have "foldM (resolve_one rt cfg now active) (permute code (gm_keys (findings m1))) m1 = Some m'"
    by (simp add: resolveMissingFindings_def)
  then have "rel m1 m'" by (rule rel_foldM) (rule resolve_one_rel)
  with a show ?thesis using rel_trans by blast
qed

lemma expire_rel:
  assumes "expireResolvedFindings rt cfg now m = Some m'"
  shows "rel m m'"
proof (cases "ResolvedFindingRetention cfg \<le> 0")
  case True
  with assms show ?thesis by (simp add: expireResolvedFindings_def rel_refl)
next
  case False
  obtain code m1 where a: "ask (rt_order rt) m = (code, m1)" by (cases "ask (rt_order rt) m")
  have one: "rel n n'" if "expire_one cfg now k n = Some n'" for k n n'
    using that by (intro frame) (auto simp: expire_one_def mark_dirty_def split: option.splits if_splits)
  from assms False have "foldM (expire_one cfg now) (permute code (gm_keys (findings m1))) m1 = Some m'"
    by (simp add: expireResolvedFindings_def a)
  then have "rel m1 m'" by (rule rel_foldM) (rule one)
  with a show ?thesis using rel_trans by blast
qed

subsection \<open>Pruning\<close>

lemma rel_drop_observation: "rel m (drop_observation cfg r k m)"
  unfolding drop_observation_def
  by (rule rel_trans[OF frame emits]) (simp_all add: pruned_metric_def)

lemma rel_drop_finding: "rel m (drop_finding cfg r k m)"
  unfolding drop_finding_def
  by (rule rel_trans[OF frame emits]) (simp_all add: pruned_metric_def)

lemma pruneStale_rel: "rel m (pruneStaleObservations rt cfg now m)"
proof -
  have "rel n (stale_step cfg now k n)" for k n
    by (auto simp: stale_step_def rel_refl split: option.split intro: rel_dirty rel_drop_observation)
  then have f: "rel n (fold (stale_step cfg now) ks n)" for ks n by (rule rel_fold)
  obtain code m1 where "ask (rt_order rt) m = (code, m1)" by (cases "ask (rt_order rt) m")
  with f show ?thesis
    by (simp add: pruneStaleObservations_def rel_refl) (blast intro: rel_trans)
qed

lemma pruneObservationCap_rel: "rel m (pruneObservationCap rt cfg m)"
proof -
  obtain code m1 where a: "ask (rt_order rt) m = (code, m1)" by (cases "ask (rt_order rt) m")
  have "rel n (fold (\<lambda>it. drop_observation cfg r (fst it)) items n)" for r items n
    by (rule rel_fold) (rule rel_drop_observation)
  with a show ?thesis
    by (simp add: pruneObservationCap_def rel_refl Let_def) (blast intro: rel_trans rel_dirty)
qed

lemma pruneByStatus_rel: "rel m (snd (pruneFindingsByStatus rt cfg status n reason m))"
proof -
  obtain code m1 where a: "ask (rt_order rt) m = (code, m1)" by (cases "ask (rt_order rt) m")
  have "rel u (fold (\<lambda>it. drop_finding cfg r (fst it)) items u)" for r items u
    by (rule rel_fold) (rule rel_drop_finding)
  with a show ?thesis
    by (simp add: pruneFindingsByStatus_def rel_refl Let_def) (blast intro: rel_trans)
qed

lemma pruneFindingCap_rel: "rel m (pruneFindingCap rt cfg m)"
proof -
  have one: "pruneFindingsByStatus rt cfg status n reason u = (p, u1) \<Longrightarrow> rel u u1" for status n reason u p u1
    using pruneByStatus_rel[of u status n reason] by simp
  show ?thesis
    by (auto simp: pruneFindingCap_def rel_refl split: prod.split
        intro!: rel_dirty dest!: one intro: rel_trans[OF _ pruneByStatus_rel])
qed

lemma pruneState_rel: "rel m (pruneState rt cfg now m)"
proof -
  have "rel n (updateStateMetrics cfg n)" for n by (simp add: updateStateMetrics_def emits)
  then show ?thesis
    unfolding pruneState_def
    using pruneStale_rel pruneObservationCap_rel pruneFindingCap_rel by (blast intro: rel_trans)
qed

lemma pruneOldest_rel: "rel m (pruneOldestObservation rt cfg reason m)"
proof -
  obtain code m1 where a: "ask (rt_order rt) m = (code, m1)" by (cases "ask (rt_order rt) m")
  then have m1: "rel m m1" by blast
  show ?thesis
    by (auto simp: pruneOldestObservation_def a Let_def m1 intro: rel_dirty rel_trans[OF m1 rel_drop_observation])
qed

text \<open>The loop that may not end: the relation holds whenever it returns.\<close>

lemma shrink_observations_rel:
  assumes "shrink_observations rt cfg maxBytes bytes m = Some y"
  shows "rel m (snd y)"
proof -
  have "rt = rt \<longrightarrow> cfg = cfg \<longrightarrow> rel m (snd y)"
  proof (rule shrink_observations.raw_induct[where P = "\<lambda>rt0 cfg0 maxBytes bytes m y. rt0 = rt \<longrightarrow> cfg0 = cfg \<longrightarrow> rel m (snd y)", OF _ assms], intro impI)
    fix shrink and rt0 :: "('q, 'w) runtime" and cfg0 maxBytes bytes m y
    assume IH: "\<And>rt0 cfg0 maxBytes bytes m y. shrink rt0 cfg0 maxBytes bytes m = Some y \<Longrightarrow>
        rt0 = rt \<longrightarrow> cfg0 = cfg \<longrightarrow> rel m (snd y)"
      and body: "(if 0 < gm_len (observations m) \<and> maxBytes < bytes
        then case currentStateBytes rt0 (pruneOldestObservation rt0 cfg0 ''size'' m) of
               None \<Rightarrow> Some (None, pruneOldestObservation rt0 cfg0 ''size'' m)
             | Some bytes' \<Rightarrow> shrink rt0 cfg0 maxBytes bytes' (pruneOldestObservation rt0 cfg0 ''size'' m)
        else Some (Some bytes, m)) = Some y"
      and eq: "rt0 = rt" "cfg0 = cfg"
    have rec: "rel m (snd y)" if "shrink rt cfg maxBytes b (pruneOldestObservation rt cfg ''size'' m) = Some y" for b
      using pruneOldest_rel IH[OF that] by (blast intro: rel_trans)
    from body show "rel m (snd y)" unfolding eq
      by (auto split: if_splits option.splits intro: rel_refl pruneOldest_rel rec)
  qed
  then show ?thesis by simp
qed

lemma shrink_findings_rel:
  assumes "rt0 = rt" and "cfg0 = cfg"
  shows "rel m (snd (shrink_findings rt0 cfg0 maxBytes bytes m))"
  using assms
proof (induction rt0 cfg0 maxBytes bytes m rule: shrink_findings.induct)
  case (1 rt0 cfg0 maxBytes bytes m)
  obtain pruned m1 where p: "pruneFindingsByStatus rt0 cfg0 ''resolved'' 1 ''size'' m = (pruned, m1)"
    by (cases "pruneFindingsByStatus rt0 cfg0 ''resolved'' 1 ''size'' m")
  have m1: "rel m m1" using pruneByStatus_rel[of m "''resolved''" 1 "''size''"] p "1.prems" by simp
  note d = rel_dirty[OF m1]
  have rec: "rel m (snd (shrink_findings rt0 cfg0 maxBytes b (mark_dirty m1)))"
    if "maxBytes < bytes" "pruned \<noteq> 0" "currentStateBytes rt0 (mark_dirty m1) = Some b" for b
    using "1.IH"[OF that(1) p[symmetric] that(2,3)] "1.prems" d rel_trans by blast
  show ?case
    by (subst shrink_findings.simps) (auto simp: p rel_refl m1 d rec split: option.split)
qed

lemma pruneForStateSize_rel:
  assumes "pruneForStateSize rt cfg maxBytes m = Some (r, m')"
  shows "rel m m'"
proof -
  have "rel m m'" if "shrink_observations rt cfg maxBytes b m = Some (r1, m1)" "m' = m1" for b r1 m1
    using shrink_observations_rel[OF that(1)] that(2) by simp
  moreover have "rel m m'"
    if "shrink_observations rt cfg maxBytes b m = Some (r1, m1)" "shrink_findings rt cfg maxBytes c m1 = (r, m')" for b c r1 m1
    using shrink_observations_rel[OF that(1)] shrink_findings_rel[OF refl refl, of m1 maxBytes c] that(2)
    by (metis rel_trans snd_conv)
  ultimately show ?thesis
    using assms by (auto simp: pruneForStateSize_def rel_refl split: if_splits option.splits)
qed

subsection \<open>Writing, checking, polling\<close>

lemma maybeSave_rel:
  assumes "maybeSave rt cfg now m = Some m'"
  shows "rel m m'"
proof -
  have out: "rel m (emit [Inc ''state_writes_total'' [Namespace cfg, x]] n)" if "rel m n" for x n
    by (rule rel_trans[OF that emits]) simp
  have size: "rel m (emit [SetGauge ''state_bytes'' [Namespace cfg] b] n)" if "rel m n" for b n
    by (rule rel_trans[OF that emits]) simp
  have saved: "rel m (n\<lparr>mn_store := s, mn_world := w\<rparr>)"
    if "rel m n" "Save (rt_api rt) (rt_codec rt) (mn_store n) (mn_state n) (mn_world n) = (err, s, w)" for n err s w
  proof -
    have "rel n (n\<lparr>mn_world := w\<rparr>)" using Save_leads[OF that(2)] by (rule calls)
    moreover have "rel (n\<lparr>mn_world := w\<rparr>) (n\<lparr>mn_store := s, mn_world := w\<rparr>)" by (rule frame) simp_all
    ultimately show ?thesis using that(1) rel_trans by blast
  qed
  have clean: "rel m (n\<lparr>mn_lastWrite := now, mn_dirty := False\<rparr>)" if "rel m n" for n
    by (rule rel_trans[OF that frame]) simp_all
  have pr: "pruneForStateSize rt cfg (MaxStateBytes cfg) m = Some (r, n) \<Longrightarrow> rel m n" for r n
    by (rule pruneForStateSize_rel)
  show ?thesis
  proof (cases "pruneForStateSize rt cfg (MaxStateBytes cfg) m")
    case None
    with assms show ?thesis by (auto simp: maybeSave_def rel_refl split: if_splits)
  next
    case (Some rn)
    obtain r n where rn: "rn = (r, n)" by (cases rn)
    have n: "rel m n" using pr Some rn by blast
    show ?thesis
    proof (cases r)
      case None
      with assms Some rn show ?thesis by (auto simp: maybeSave_def rel_refl out n split: if_splits)
    next
      case (Some b)
      obtain err s w where sv: "Save (rt_api rt) (rt_codec rt) (mn_store n) (mn_state n) (mn_world n) = (err, s, w)"
        by (metis prod_cases3)
      have sv': "rel m ((emit [SetGauge ''state_bytes'' [Namespace cfg] b] n)\<lparr>mn_store := s, mn_world := w\<rparr>)"
        by (rule saved[OF size[OF n]]) (simp add: sv)
      from assms \<open>pruneForStateSize rt cfg (MaxStateBytes cfg) m = Some rn\<close> rn Some sv show ?thesis
        by (auto simp: maybeSave_def Let_def rel_refl out[OF n] out[OF sv'] clean[OF out[OF sv']]
            split: if_splits option.splits)
    qed
  qed
qed

definition stage_effect :: "'w stage \<Rightarrow> bool" where
  "stage_effect st \<longleftrightarrow> (\<forall>w. list_all declared (fst (fst (snd (snd st) w))) \<and> leads w (snd (snd (snd st) w)))"

lemma runCheck_rel:
  assumes "stage_effect (enabled, nm, fn)" and "runCheck rt cfg nm fn m = (res, m')"
  shows "rel m m'"
proof -
  obtain counters res0 m1 where a: "ask fn m = ((counters, res0), m1)" by (metis prod.collapse)
  obtain r m2 where b: "ask (rt_race rt nm) m1 = (r, m2)" by (cases "ask (rt_race rt nm) m1")
  have m1: "rel m m1"
    using assms(1) a asks[of m fn] by (simp add: stage_effect_def)
  have m2: "rel m m2"
    using rel_trans[OF m1] asks[of m1 "rt_race rt nm"] race_leads b by simp
  have d: "list_all declared counters"
    using assms(1) a ask_sel(1)[of fn m] unfolding stage_effect_def by (metis fst_conv snd_conv)
  then have d': "list_all declared (take n counters)" for n
    by (metis append_take_drop_id list_all_append)
  have t: "rel m (recordCheckTimeout cfg nm n)" if "rel m n" for n
    unfolding recordCheckTimeout_def by (rule rel_trans[OF that emits]) simp
  note e = rel_trans[OF m1 emits[OF d]] rel_trans[OF m2 emits[OF d]] rel_trans[OF m2 emits[OF d']]
  show ?thesis
    using assms(2) by (auto simp: runCheck_def a b e t split: if_splits race.splits)
qed

lemma run_stage_rel:
  assumes "stage_effect st" and "run_stage rt cfg now st s = Some s'"
  shows "rel (fst s) (fst s')"
proof -
  obtain enabled nm fn where st: "st = (enabled, nm, fn)" by (cases st)
  obtain m active complete where s: "s = (m, active, complete)" by (cases s)
  obtain res m1 where r: "runCheck rt cfg nm fn m = (res, m1)" by (cases "runCheck rt cfg nm fn m")
  have m1: "rel m m1" using runCheck_rel[OF assms(1)[unfolded st] r] .
  have "rel m (fst t)" if "applyResult rt cfg res now (m1, active) = Some t" for t
    using applyResult_rel[OF that] m1 rel_trans by blast
  then show ?thesis
    using assms(2) by (fastforce simp: run_stage_def st s r rel_refl split: if_splits option.splits)
qed

lemma poll_stages_effect: "st \<in> set (poll_stages rt cfg snap) \<Longrightarrow> stage_effect st"
  using logs_leads metrics_leads
  by (auto simp: poll_stages_def stage_effect_def snapshot_checks_declared usage_check_declared leads_refl split_beta)

lemma custom_stage_effect: "stage_effect (custom_stage rt cfg apis)"
  using dynamic_leads by (auto simp: custom_stage_def stage_effect_def custom_check_declared split_beta)

lemma discover_rel: "rel m (snd (discover rt cfg m))"
proof -
  obtain t m1 where a: "ask (rt_clock rt) m = (t, m1)" by (cases "ask (rt_clock rt) m")
  obtain server m2 where b: "ask (rt_discovery rt) m1 = (server, m2)" by (cases "ask (rt_discovery rt) m1")
  have m1: "rel m m1" using a by blast
  have m2: "rel m m2" using rel_trans[OF m1] asks[of m1 "rt_discovery rt"] discovery_leads b by simp
  have "rel m (m2\<lparr>mn_cache := c\<rparr>)" for c by (rule rel_trans[OF m2 frame]) simp_all
  with m1 show ?thesis by (auto simp: discover_def a b split: prod.split)
qed

lemma loadSuppressions_rel: "rel m (loadSuppressions rt cfg m)"
proof -
  obtain r m1 where a: "ask (get_cm (rt_api rt) (Namespace cfg) (SuppressConfigMapName cfg)) m = (r, m1)"
    by (cases "ask (get_cm (rt_api rt) (Namespace cfg) (SuppressConfigMapName cfg)) m")
  have m1: "rel m m1"
    using asks[of m "get_cm (rt_api rt) (Namespace cfg) (SuppressConfigMapName cfg)"] get_leads a by simp
  have "rel n (n\<lparr>mn_suppressions := s\<rparr>)" for n s by (rule frame) simp_all
  then show ?thesis using m1 rel_trans by (auto simp: loadSuppressions_def a split: sum.split) 
qed

lemma run_custom_rel:
  assumes "run_custom rt cfg now s = Some s'"
  shows "rel (fst s) (fst s')"
proof -
  obtain m active complete where s: "s = (m, active, complete)" by (cases s)
  obtain apis m1 where d: "discover rt cfg m = (apis, m1)" by (cases "discover rt cfg m")
  have "rel m m1" using discover_rel[of m] d by simp
  then show ?thesis
    using assms run_stage_rel[OF custom_stage_effect, of now apis "(m1, active, complete)" s'] rel_trans
    by (auto simp: run_custom_def s d rel_refl split: if_splits)
qed

lemma poll_checks_rel:
  assumes "poll_checks rt cfg m = Some (now, s)"
  shows "rel m (fst s)"
proof -
  obtain now' m0 where c: "ask (rt_clock rt) (loadSuppressions rt cfg m) = (now', m0)"
    by (cases "ask (rt_clock rt) (loadSuppressions rt cfg m)")
  obtain ans finished m2 where l: "ask (rt_list rt) m0 = ((ans, finished), m2)" by (metis prod.collapse)
  have "rel m m0" using loadSuppressions_rel c rel_trans by blast
  then have m2: "rel m m2" using asks[of m0 "rt_list rt"] list_leads l rel_trans by fastforce
  define snap where "snap = buildSnapshot cfg (mn_state m2) now' ans finished"
  obtain s1 where s1: "foldM (run_stage rt cfg now') (poll_stages rt cfg snap) (m2, [], True) = Some s1"
    "run_custom rt cfg now' s1 = Some s"
    using assms by (auto simp: poll_checks_def c l Let_def snap_def[symmetric] split: option.splits)
  have "rel (fst (m2, [] :: (string, Finding) go_map, True)) (fst s1)"
    using s1(1) by (rule foldM_relates[where R = "\<lambda>s s'. rel (fst s) (fst s')"])
      (auto intro: rel_refl rel_trans run_stage_rel poll_stages_effect)
  with m2 run_custom_rel[OF s1(2)] show ?thesis by (auto intro: rel_trans)
qed

lemma poll_settle_rel:
  assumes "poll_settle rt cfg now (m, active, complete) = Some m'"
  shows "rel m m'"
proof -
  obtain n e where n: "(if complete then resolveMissingFindings rt cfg now active m else Some m) = Some n"
    "expireResolvedFindings rt cfg now n = Some e" "m' = updateActiveMetrics cfg active (pruneState rt cfg now e)"
    using assms by (auto simp: poll_settle_def split: option.splits)
  have "rel m n" using n(1) resolve_rel by (auto simp: rel_refl split: if_splits)
  moreover have "rel n e" using n(2) by (rule expire_rel)
  moreover have "rel u (updateActiveMetrics cfg active u)" for u by (simp add: updateActiveMetrics_def emits)
  ultimately show ?thesis using pruneState_rel n(3) by (blast intro: rel_trans)
qed

lemma mark_health_rel: "rel m (mark_health rt cfg start m)"
proof -
  obtain t m1 where a: "ask (rt_clock rt) m = (t, m1)" by (cases "ask (rt_clock rt) m")
  define m2 where "m2 = emit [Observe ''poll_duration_seconds'' [Namespace cfg] (time_sub t start)] m1"
  have "rel m1 m2" unfolding m2_def by (rule emits) simp
  then have m2: "rel m m2" using a rel_trans by blast
  obtain u m3 where b: "ask (rt_clock rt) m2 = (u, m3)" by (cases "ask (rt_clock rt) m2")
  then have m3: "rel m m3" using m2 rel_trans by blast
  have "rel m (m3\<lparr>mn_health := h\<rparr>)" for h by (rule rel_trans[OF m3 frame]) simp_all
  with m2 show ?thesis by (auto simp: mark_health_def a Let_def m2_def[symmetric] b split: option.split)
qed

theorem Poll_rel:
  assumes "Poll rt cfg m = Some m'"
  shows "rel m m'"
proof -
  obtain now s m1 m2 where p: "poll_checks rt cfg m = Some (now, s)" "poll_settle rt cfg now s = Some m1"
    "maybeSave rt cfg now m1 = Some m2" "m' = mark_health rt cfg now m2"
    using assms by (auto simp: Poll_def split: option.splits)
  have "rel (fst s) m1" using p(2) poll_settle_rel by (cases s) auto
  with poll_checks_rel[OF p(1)] maybeSave_rel[OF p(3)] mark_health_rel[of m2 now] p(4)
  show ?thesis by (blast intro: rel_trans)
qed

end

end
