(* ===== verification/Publishing.thy ===== *)
theory Publishing
  imports Config Findings
begin

text \<open>
  The Kafka publisher of \<open>publisher.go\<close>: construction with its validation and defaults, one
  publish under the caller's context and the delivery timeout, and \<open>Close\<close>. The client
  library and \<open>json.Marshal\<close> are parameters.
\<close>

section \<open>Contexts\<close>

text \<open>
  A context ends at its deadline, if it has one, or when it is cancelled, if it ever is,
  whichever comes first.
\<close>

record ctx =
  cx_deadline :: "time option"
  cx_cancelled :: "time option"

definition background :: ctx where
  "background = \<lparr>cx_deadline = None, cx_cancelled = None\<rparr>"

definition ends_by :: "ctx \<Rightarrow> time \<Rightarrow> bool" where
  "ends_by c t \<longleftrightarrow> (case cx_deadline c of None \<Rightarrow> False | Some d \<Rightarrow> d \<le> t) \<or>
     (case cx_cancelled c of None \<Rightarrow> False | Some d \<Rightarrow> d \<le> t)"

text \<open>\<open>context.WithTimeout\<close>: a parent that ends earlier keeps its deadline.\<close>

definition with_timeout :: "time \<Rightarrow> ctx \<Rightarrow> duration \<Rightarrow> ctx" where
  "with_timeout now parent d =
     parent\<lparr>cx_deadline := Some (case cx_deadline parent of None \<Rightarrow> now + d | Some t \<Rightarrow> min t (now + d))\<rparr>"

section \<open>The client library\<close>

datatype acks = NoAck | LeaderAck | AllISRAcks

record client_options =
  ko_SeedBrokers :: string
  ko_DefaultProduceTopic :: string
  ko_ProducerLinger :: duration
  ko_RequiredAcks :: acks
  ko_RecordRetries :: int
  ko_ProducerBatchMaxBytes :: int

record kafka_record =
  kr_Topic :: string
  kr_Key :: string
  kr_Value :: string

record ('c, 'w) kgo =
  kg_NewClient :: "client_options \<Rightarrow> 'w \<Rightarrow> (string + 'c) \<times> 'w"
  kg_ProduceSync :: "'c \<Rightarrow> ctx \<Rightarrow> kafka_record \<Rightarrow> 'w \<Rightarrow> string option \<times> 'w"
  kg_Flush :: "'c \<Rightarrow> ctx \<Rightarrow> 'w \<Rightarrow> string option \<times> 'w"
  kg_Close :: "'c \<Rightarrow> 'w \<Rightarrow> 'w"

section \<open>The publisher\<close>

record 'c KafkaPublisher =
  kp_client :: "'c option"
  kp_topic :: string
  kp_deliveryTimeout :: duration

datatype publisher_error = EmptyBroker | EmptyTopic | ClientError string

definition NewKafkaPublisher ::
  "('c, 'w) kgo \<Rightarrow> string \<Rightarrow> string \<Rightarrow> duration \<Rightarrow> 'w \<Rightarrow> (publisher_error + 'c KafkaPublisher) \<times> 'w" where
  "NewKafkaPublisher K broker topic deliveryTimeout0 w =
     (if broker = [] then (Inl EmptyBroker, w)
      else if topic = [] then (Inl EmptyTopic, w)
      else
        let deliveryTimeout = (if deliveryTimeout0 \<le> 0 then 10 * second else deliveryTimeout0)
        in case kg_NewClient K
              \<lparr>ko_SeedBrokers = broker, ko_DefaultProduceTopic = topic, ko_ProducerLinger = 5 * millisecond,
               ko_RequiredAcks = AllISRAcks, ko_RecordRetries = 10, ko_ProducerBatchMaxBytes = 1048576\<rparr> w of
            (Inl err, w1) \<Rightarrow> (Inl (ClientError err), w1)
          | (Inr client, w1) \<Rightarrow>
              (Inr \<lparr>kp_client = Some client, kp_topic = topic, kp_deliveryTimeout = deliveryTimeout\<rparr>, w1))"

text \<open>
  \<open>PublishFinding\<close>: the outer option is \<open>None\<close> for the use of a nil client, the inner one is the
  error. \<open>encode\<close> is \<open>json.Marshal\<close> on findings; the caller's context may be nil.
\<close>

definition PublishFinding ::
  "('c, 'w) kgo \<Rightarrow> (Finding \<Rightarrow> string option) \<Rightarrow> 'c KafkaPublisher \<Rightarrow> time \<Rightarrow> ctx option \<Rightarrow> Finding \<Rightarrow> 'w \<Rightarrow>
   (string option \<times> 'w) option" where
  "PublishFinding K encode p now ctx0 f w =
     (let ctx1 = (case ctx0 of None \<Rightarrow> background | Some c \<Rightarrow> c);
          ctx2 = (if kp_deliveryTimeout p > 0 then with_timeout now ctx1 (kp_deliveryTimeout p) else ctx1)
      in case encode f of
           None \<Rightarrow> Some (Some ''json: marshal error'', w)
         | Some data \<Rightarrow>
             (case kp_client p of
                None \<Rightarrow> None
              | Some client \<Rightarrow>
                  (case kg_ProduceSync K client ctx2
                          \<lparr>kr_Topic = kp_topic p, kr_Key = f_ID f, kr_Value = data\<rparr> w of
                     (Some err, w1) \<Rightarrow>
                       Some (Some (''deliver finding '' @ f_ID f @ '' to '' @ kp_topic p @ '': '' @ err), w1)
                   | (None, w1) \<Rightarrow> Some (None, w1))))"

text \<open>\<open>Close\<close>, safe on a nil receiver and on a receiver without client.\<close>

definition Close :: "('c, 'w) kgo \<Rightarrow> 'c KafkaPublisher option \<Rightarrow> time \<Rightarrow> 'w \<Rightarrow> 'w" where
  "Close K p now w =
     (case p of
        None \<Rightarrow> w
      | Some q \<Rightarrow>
          (case kp_client q of
             None \<Rightarrow> w
           | Some client \<Rightarrow>
               kg_Close K client (snd (kg_Flush K client (with_timeout now background (5 * second)) w))))"

section \<open>What the client library promises\<close>

text \<open>
  What the code relies on is what a partition of a topic is: \<open>log\<close> reads all records ever
  appended to one partition off the world, and \<open>mine\<close> says which keys are assigned to it.
  Whatever \<open>ProduceSync\<close> does only appends; if it returns no error (all in-sync replicas have
  acknowledged the record) and the key belongs to the partition, the record is among what was
  appended meanwhile. Other clients may append as well, and after an error the record may or
  may not be there.
\<close>

definition appends :: "('w \<Rightarrow> kafka_record list) \<Rightarrow> 'w \<Rightarrow> 'w \<Rightarrow> bool" where
  "appends log w w' \<longleftrightarrow> (\<exists>new. log w' = log w @ new)"

definition acknowledges :: "('c, 'w) kgo \<Rightarrow> ('w \<Rightarrow> kafka_record list) \<Rightarrow> (string \<Rightarrow> bool) \<Rightarrow> bool" where
  "acknowledges K log mine \<longleftrightarrow>
     (\<forall>c x r w err w'. kg_ProduceSync K c x r w = (err, w') \<longrightarrow>
        (\<exists>new. log w' = log w @ new \<and> (err = None \<and> mine (kr_Key r) \<longrightarrow> r \<in> set new)))"

text \<open>A context with a timeout ends at the timeout, or when its parent does, whichever is first.\<close>

lemma with_timeout_ends:
  "ends_by (with_timeout now parent d) t \<longleftrightarrow> now + d \<le> t \<or> ends_by parent t"
  by (auto simp: ends_by_def with_timeout_def split: option.splits)

lemma background_never_ends [simp]: "\<not> ends_by background t"
  by (simp add: ends_by_def background_def)

section \<open>A small broker\<close>

text \<open>
  A library that keeps a log and a clock: while the broker is up a publish takes no time,
  and once it is down it fails when its context ends.
\<close>

record broker =
  br_log :: "kafka_record list"
  br_clock :: time
  br_up :: bool

definition first_end :: "ctx \<Rightarrow> time option" where
  "first_end x = (case cx_deadline x of
     None \<Rightarrow> cx_cancelled x
   | Some t \<Rightarrow> (case cx_cancelled x of None \<Rightarrow> Some t | Some u \<Rightarrow> Some (min t u)))"

definition small_kgo :: "(unit, broker) kgo" where
  "small_kgo = \<lparr>
     kg_NewClient = (\<lambda>opts w. (Inr (), w)),
     kg_ProduceSync = (\<lambda>c x r w.
       if br_up w then (None, w\<lparr>br_log := br_log w @ [r]\<rparr>)
       else (Some ''context deadline exceeded'',
             w\<lparr>br_clock := (case first_end x of None \<Rightarrow> br_clock w | Some t \<Rightarrow> max t (br_clock w))\<rparr>)),
     kg_Flush = (\<lambda>c x w. (None, w)),
     kg_Close = (\<lambda>c w. w)\<rparr>"

lemma small_kgo_acknowledges: "acknowledges small_kgo br_log mine"
  by (auto simp: acknowledges_def small_kgo_def split: if_splits)

section \<open>Properties\<close>

text \<open>Construction: an empty broker or topic is refused without creating a client.\<close>

lemma NewKafkaPublisher_refuses:
  "broker = [] \<or> topic = [] \<Longrightarrow>
   NewKafkaPublisher K broker topic d w = (Inl (if broker = [] then EmptyBroker else EmptyTopic), w)"
  by (auto simp: NewKafkaPublisher_def)

text \<open>
  C18. A publisher that was built publishes with a bound and tells the truth. Its client waits
  for all in-sync replicas and retries ten times. Its timeout is the configured one, or ten
  seconds if that is not positive, so there always is one. Every publish then makes exactly
  one call of the library, for one record on its topic, keyed by the identifier of the finding,
  with the encoded finding as its value, under a context that ends when the timeout is over
  or when the caller's context ends (if it has one), whichever comes first, and not before;
  it reports success exactly if that call did, and otherwise names the finding, the topic and
  the reason. A finding that cannot be encoded is an error, and nothing is called.
\<close>

theorem PublishFinding_bounded:
  assumes "NewKafkaPublisher K broker topic d w0 = (Inr p, w1)"
  shows "\<exists>client opts. kg_NewClient K opts w0 = (Inr client, w1) \<and> ko_SeedBrokers opts = broker \<and>
    ko_RequiredAcks opts = AllISRAcks \<and> ko_RecordRetries opts = 10 \<and>
    (\<forall>encode now ctx0 f w. \<exists>x.
       (\<forall>t. ends_by x t \<longleftrightarrow> now + (if 0 < d then d else 10 * second) \<le> t \<or> (\<exists>c. ctx0 = Some c \<and> ends_by c t)) \<and>
       PublishFinding K encode p now ctx0 f w =
         (case encode f of
            None \<Rightarrow> Some (Some ''json: marshal error'', w)
          | Some data \<Rightarrow>
              (case kg_ProduceSync K client x \<lparr>kr_Topic = topic, kr_Key = f_ID f, kr_Value = data\<rparr> w of
                 (None, w') \<Rightarrow> Some (None, w')
               | (Some e, w') \<Rightarrow> Some (Some (''deliver finding '' @ f_ID f @ '' to '' @ topic @ '': '' @ e), w'))))"
proof -
  from assms obtain client opts where c: "kg_NewClient K opts w0 = (Inr client, w1)" "ko_SeedBrokers opts = broker"
    "ko_RequiredAcks opts = AllISRAcks" "ko_RecordRetries opts = 10" "kp_client p = Some client" "kp_topic p = topic"
    "kp_deliveryTimeout p = (if 0 < d then d else 10 * second)"
    by (fastforce simp: NewKafkaPublisher_def Let_def split: if_splits prod.splits sum.splits)
  have pos: "0 < kp_deliveryTimeout p" by (simp add: c(7) second_def)
  define x where "x now ctx0 = with_timeout now (case ctx0 of None \<Rightarrow> background | Some c \<Rightarrow> c) (kp_deliveryTimeout p)" for now ctx0
  have "PublishFinding K encode p now ctx0 f w =
      (case encode f of
         None \<Rightarrow> Some (Some ''json: marshal error'', w)
       | Some data \<Rightarrow>
           (case kg_ProduceSync K client (x now ctx0) \<lparr>kr_Topic = topic, kr_Key = f_ID f, kr_Value = data\<rparr> w of
              (None, w') \<Rightarrow> Some (None, w')
            | (Some e, w') \<Rightarrow> Some (Some (''deliver finding '' @ f_ID f @ '' to '' @ topic @ '': '' @ e), w')))"
    for encode now ctx0 f w
    using pos by (simp add: PublishFinding_def Let_def c(5,6) x_def split: option.split prod.split)
  moreover have "ends_by (x now ctx0) t \<longleftrightarrow>
      now + (if 0 < d then d else 10 * second) \<le> t \<or> (\<exists>c. ctx0 = Some c \<and> ends_by c t)" for now ctx0 t
    by (cases ctx0) (simp_all add: with_timeout_ends c(7) x_def)
  ultimately show ?thesis using c(1-4) by blast
qed

definition small_publisher :: "unit KafkaPublisher" where
  "small_publisher = \<lparr>kp_client = Some (), kp_topic = ''findings'', kp_deliveryTimeout = 10 * second\<rparr>"

lemma small_kgo_builds:
  "NewKafkaPublisher small_kgo ''broker'' ''findings'' 0 w = (Inr small_publisher, w)"
  by (simp add: NewKafkaPublisher_def small_kgo_def small_publisher_def Let_def)

text \<open>A broker that is down: the publish fails when the timeout ends.\<close>

theorem PublishFinding_bounded_witness:
  "\<forall>f. \<exists>w' e. PublishFinding small_kgo (\<lambda>f. Some ''{}'') small_publisher 5 None f \<lparr>br_log = [], br_clock = 5, br_up = False\<rparr> =
       Some (Some e, w') \<and> br_clock w' = 5 + 10 * second"
proof
  fix f
  let ?w = "\<lparr>br_log = [], br_clock = 5, br_up = False\<rparr>"
  have "\<exists>x. (\<forall>t. ends_by x t \<longleftrightarrow> 5 + 10 * second \<le> t) \<and>
    PublishFinding small_kgo (\<lambda>f. Some ''{}'') small_publisher 5 None f ?w =
       (case kg_ProduceSync small_kgo () x \<lparr>kr_Topic = ''findings'', kr_Key = f_ID f, kr_Value = ''{}''\<rparr> ?w of
          (None, w') \<Rightarrow> Some (None, w')
        | (Some e, w') \<Rightarrow> Some (Some (''deliver finding '' @ f_ID f @ '' to '' @ ''findings'' @ '': '' @ e), w'))"
    using PublishFinding_bounded[OF small_kgo_builds[of ?w]]
    by (elim exE conjE) (drule spec[of _ "\<lambda>f. Some ''{}''"], drule spec[of _ 5], drule spec[of _ None],
        drule spec[of _ f], drule spec[of _ ?w], simp)
  then obtain x where x: "\<forall>t. ends_by x t \<longleftrightarrow> 5 + 10 * second \<le> t"
    "PublishFinding small_kgo (\<lambda>f. Some ''{}'') small_publisher 5 None f ?w =
       (case kg_ProduceSync small_kgo () x \<lparr>kr_Topic = ''findings'', kr_Key = f_ID f, kr_Value = ''{}''\<rparr> ?w of
          (None, w') \<Rightarrow> Some (None, w')
        | (Some e, w') \<Rightarrow> Some (Some (''deliver finding '' @ f_ID f @ '' to '' @ ''findings'' @ '': '' @ e), w'))"
    by blast
  have first: "first_end x = Some t \<Longrightarrow> ends_by x t \<and> (\<forall>u. ends_by x u \<longrightarrow> t \<le> u)" "first_end x = None \<Longrightarrow> \<not> ends_by x t" for t
    by (auto simp: first_end_def ends_by_def split: option.splits)
  obtain t where t: "first_end x = Some t" "t = 5 + 10 * second"
    using first x(1) by (cases "first_end x") (auto intro: antisym)
  have "kg_ProduceSync small_kgo () x \<lparr>kr_Topic = ''findings'', kr_Key = f_ID f, kr_Value = ''{}''\<rparr> ?w =
      (Some ''context deadline exceeded'', ?w\<lparr>br_clock := 5 + 10 * second\<rparr>)"
    by (simp add: small_kgo_def t second_def)
  with x(2) show "\<exists>w' e. PublishFinding small_kgo (\<lambda>f. Some ''{}'') small_publisher 5 None f \<lparr>br_log = [], br_clock = 5, br_up = False\<rparr> =
       Some (Some e, w') \<and> br_clock w' = 5 + 10 * second" by simp
qed

end
