(* ===== verification/Delivery.thy ===== *)
theory Delivery
  imports Effects Publishing Wire "HOL-Library.Sublist"
begin

text \<open>
  Two relations that every effect keeps: the metrics library is called only as it was
  declared, and with the Kafka publisher behind the monitor's interface every partition of
  the topic grows, and the findings of its keys whose publish the monitor counts as accepted
  are among what is appended, in order.
\<close>

section \<open>Metrics\<close>

definition emits_declared :: "'w monitor \<Rightarrow> 'w monitor \<Rightarrow> bool" where
  "emits_declared m m' \<longleftrightarrow> (\<exists>ms. mn_metrics m' = mn_metrics m @ ms \<and> list_all declared ms)"

lemma publish_metrics:
  "\<exists>ms. mn_metrics (snd (publish rt cfg f m)) = mn_metrics m @ ms \<and> list_all declared ms"
proof -
  obtain r m1 where a: "ask (rt_publish rt f) m = (r, m1)" by (cases "ask (rt_publish rt f) m")
  have "mn_metrics m1 = mn_metrics m" using ask_sel(10)[of "rt_publish rt f" m] a by simp
  then show ?thesis by (cases r) (simp_all add: publish_def a)
qed

interpretation metric_effects: effects emits_declared rt "\<lambda>w w'. True" cfg for rt :: "('q, 'w) runtime" and cfg
proof
  show "emits_declared m m" for m :: "'w monitor" by (simp add: emits_declared_def)
  show "emits_declared m m2" if "emits_declared m m1" "emits_declared m1 m2" for m m1 m2 :: "'w monitor"
    using that by (auto simp: emits_declared_def)
  show "emits_declared m (snd (publish rt cfg f m))" for m :: "'w monitor" and f
    unfolding emits_declared_def by (rule publish_metrics)
qed (simp_all add: emits_declared_def)

section \<open>Delivery\<close>

definition record_of :: "(Finding \<Rightarrow> string option) \<Rightarrow> 'c KafkaPublisher \<Rightarrow> Finding \<Rightarrow> kafka_record" where
  "record_of encode p f = \<lparr>kr_Topic = kp_topic p, kr_Key = f_ID f, kr_Value = the (encode f)\<rparr>"

text \<open>
  The monitor publishes through this publisher, under the context that \<open>main\<close> hands to every
  poll and that the signal cancels; \<open>signal\<close> reads it off the world.
\<close>

definition through ::
  "('q, 'w) runtime \<Rightarrow> ('c, 'w) kgo \<Rightarrow> (Finding \<Rightarrow> string option) \<Rightarrow> 'c KafkaPublisher \<Rightarrow> ('w \<Rightarrow> time) \<Rightarrow> ('w \<Rightarrow> ctx) \<Rightarrow> bool" where
  "through rt K encode p clock signal \<longleftrightarrow>
     (\<forall>f w. PublishFinding K encode p (clock w) (Some (signal w)) f w = Some (rt_publish rt f w))"

text \<open>
  During everything else the monitor calls, others may write to the topic; what is there stays.
\<close>

definition keeps_topic :: "('q, 'w) runtime \<Rightarrow> ('w \<Rightarrow> kafka_record list) \<Rightarrow> bool" where
  "keeps_topic rt log \<longleftrightarrow>
     (\<forall>w. appends log w (snd (rt_clock rt w)) \<and> appends log w (snd (rt_order rt w)) \<and>
        appends log w (snd (rt_list rt w)) \<and> (\<forall>nm. appends log w (snd (rt_race rt nm w))) \<and>
        appends log w (snd (rt_logs rt w)) \<and> appends log w (snd (rt_metrics rt w)) \<and>
        appends log w (snd (rt_dynamic rt w)) \<and> appends log w (snd (rt_discovery rt w)) \<and>
        (\<forall>ns nm. appends log w (snd (get_cm (rt_api rt) ns nm w))) \<and>
        (\<forall>ns cm. appends log w (snd (update_cm (rt_api rt) ns cm w))))"

lemma appends_refl [simp]: "appends log w w"
  by (simp add: appends_def)

lemma appends_trans: "appends log w w1 \<Longrightarrow> appends log w1 w2 \<Longrightarrow> appends log w w2"
  by (auto simp: appends_def)

text \<open>The attempts that this partition has to show.\<close>

definition owed :: "(string \<Rightarrow> bool) \<Rightarrow> Finding \<times> bool \<Rightarrow> bool" where
  "owed mine a \<longleftrightarrow> snd a \<and> mine (f_ID (fst a))"

definition delivers ::
  "('w \<Rightarrow> kafka_record list) \<Rightarrow> (string \<Rightarrow> bool) \<Rightarrow> (Finding \<Rightarrow> kafka_record) \<Rightarrow> 'w monitor \<Rightarrow> 'w monitor \<Rightarrow> bool" where
  "delivers log mine enc m m' \<longleftrightarrow>
     (\<exists>sent new. mn_attempts m' = mn_attempts m @ sent \<and> log (mn_world m') = log (mn_world m) @ new \<and>
        subseq (map (enc \<circ> fst) (filter (owed mine) sent)) new)"

lemma publish_through:
  assumes "acknowledges K log mine" and "through rt K encode p clock signal"
  shows "\<exists>new. log (snd (rt_publish rt f w)) = log w @ new \<and>
    (fst (rt_publish rt f w) = None \<and> mine (f_ID f) \<longrightarrow> record_of encode p f \<in> set new)"
proof -
  obtain err w' where r: "rt_publish rt f w = (err, w')" by (cases "rt_publish rt f w")
  have run: "PublishFinding K encode p (clock w) (Some (signal w)) f w = Some (err, w')"
    using assms(2) r by (simp add: through_def)
  show ?thesis
  proof (cases "encode f")
    case None
    with run have "err = Some ''json: marshal error''" "w' = w" by (simp_all add: PublishFinding_def Let_def)
    with r show ?thesis by simp
  next
    case (Some data)
    obtain c x e where s: "kg_ProduceSync K c x (record_of encode p f) w = (e, w')" and e: "err = None \<longleftrightarrow> e = None"
      using run Some by (fastforce simp: PublishFinding_def Let_def record_of_def split: option.splits prod.splits)
    from assms(1)[unfolded acknowledges_def, rule_format, OF s] e show ?thesis
      by (auto simp: r record_of_def)
  qed
qed

lemma delivery_effects:
  fixes rt :: "('q, 'w) runtime"
  assumes "acknowledges K log mine" and "through rt K encode p clock signal" and "keeps_topic rt log"
  shows "effects (delivers log mine (record_of encode p)) rt (appends log) cfg"
proof
  let ?r = "delivers log mine (record_of encode p)"
  show "?r m m" for m :: "'w monitor" by (simp add: delivers_def)
  show "?r m m2" if "?r m m1" "?r m1 m2" for m m1 m2 :: "'w monitor"
  proof -
    obtain sent new sent' new' where
      "mn_attempts m1 = mn_attempts m @ sent" "log (mn_world m1) = log (mn_world m) @ new"
      "mn_attempts m2 = mn_attempts m1 @ sent'" "log (mn_world m2) = log (mn_world m1) @ new'"
      "subseq (map (record_of encode p \<circ> fst) (filter (owed mine) sent)) new"
      "subseq (map (record_of encode p \<circ> fst) (filter (owed mine) sent')) new'"
      using \<open>?r m m1\<close> \<open>?r m1 m2\<close> unfolding delivers_def by blast
    then show ?thesis
      unfolding delivers_def by (intro exI[of _ "sent @ sent'"] exI[of _ "new @ new'"]) (simp add: list_emb_append_mono)
  qed
  show "?r m (snd (publish rt cfg f m))" for m :: "'w monitor" and f
  proof -
    obtain new where new: "log (snd (rt_publish rt f (mn_world m))) = log (mn_world m) @ new"
      "fst (rt_publish rt f (mn_world m)) = None \<and> mine (f_ID f) \<longrightarrow> record_of encode p f \<in> set new"
      using publish_through[OF assms(1,2)] by blast
    then have "subseq (map (record_of encode p \<circ> fst) (filter (owed mine) [(f, accepted rt f m)])) new"
      by (simp add: owed_def accepted_def subseq_singleton_left)
    with new(1) show ?thesis unfolding delivers_def by (intro exI[of _ "[(f, accepted rt f m)]"] exI[of _ new]) simp
  qed
qed (use assms(3) in \<open>auto simp: delivers_def keeps_topic_def appends_def intro: appends_trans\<close>)

section \<open>A cluster with a broker\<close>

text \<open>The fields a reader of the topic sees, on the wire.\<close>

definition wire :: "Finding \<Rightarrow> string" where
  "wire f = wire_fields
     ([f_Source f, f_Namespace f, f_Kind f, f_Name f, f_Severity f, f_Classification f, show_int (f_Score f),
       f_Check f, f_Reason f, f_Status f] @ f_Evidence f)"

text \<open>The world is a pair of a broker and the one-object cluster.\<close>

definition on_cluster :: "(cluster \<Rightarrow> 'a \<times> cluster) \<Rightarrow> broker \<times> cluster \<Rightarrow> 'a \<times> broker \<times> cluster" where
  "on_cluster g w = (case g (snd w) of (a, c) \<Rightarrow> (a, fst w, c))"

definition broker_kgo :: "(unit, broker \<times> cluster) kgo" where
  "broker_kgo = \<lparr>
     kg_NewClient = (\<lambda>opts w. (Inr (), w)),
     kg_ProduceSync = (\<lambda>c x r w. case kg_ProduceSync small_kgo c x r (fst w) of (e, b) \<Rightarrow> (e, b, snd w)),
     kg_Flush = (\<lambda>c x w. (None, w)),
     kg_Close = (\<lambda>c w. w)\<rparr>"

abbreviation broker_log :: "broker \<times> cluster \<Rightarrow> kafka_record list" where
  "broker_log w \<equiv> br_log (fst w)"

lemma broker_acknowledges: "acknowledges broker_kgo broker_log mine"
  by (auto simp: acknowledges_def broker_kgo_def small_kgo_def split: if_splits)

definition broker_publish :: "Finding \<Rightarrow> broker \<times> cluster \<Rightarrow> string option \<times> broker \<times> cluster" where
  "broker_publish f w =
     the (PublishFinding broker_kgo (\<lambda>f. Some (wire f)) small_publisher (br_clock (fst w)) (Some background) f w)"

definition broker_runtime :: "(int, broker \<times> cluster) runtime" where
  "broker_runtime = \<lparr>
     rt_clock = (\<lambda>w. (unix_epoch + 1000, w)), rt_order = (\<lambda>w. ([], w)),
     rt_api = \<lparr>get_cm = (\<lambda>ns nm. on_cluster (cluster_get ns nm)),
               update_cm = (\<lambda>ns cm. on_cluster (cluster_update ns cm)),
               create_cm = (\<lambda>ns cm. on_cluster (cluster_create ns cm))\<rparr>,
     rt_codec = wire_codec, rt_publish = broker_publish,
     rt_list = (\<lambda>w. ((quiet_listing\<lparr>li_pods := Some []\<rparr>, True), w)), rt_race = (\<lambda>n w. (Delivered False, w)),
     rt_logs = (\<lambda>w. (\<lambda>p c. None, w)), rt_metrics = (\<lambda>w. (None, w)),
     rt_dynamic = (\<lambda>w. (None, w)), rt_discovery = (\<lambda>w. (None, w)), rt_deps = int_deps\<rparr>"

lemma broker_through:
  "through broker_runtime broker_kgo (\<lambda>f. Some (wire f)) small_publisher (br_clock \<circ> fst) (\<lambda>w. background)"
  by (auto simp: through_def broker_runtime_def broker_publish_def PublishFinding_def small_publisher_def Let_def
      split: prod.split option.split)

lemma broker_keeps_topic: "keeps_topic broker_runtime broker_log"
  by (simp add: keeps_topic_def appends_def broker_runtime_def on_cluster_def split: prod.split)

definition broker_monitor :: "(broker \<times> cluster) monitor" where
  "broker_monitor = NewMonitor (NewStateStore ''ns'' ''st'') (mn_state known_monitor) None
     (\<lparr>br_log = [], br_clock = 0, br_up = True\<rparr>, foreign_cluster)"

lemma broker_monitor_sel [simp]:
  "mn_state broker_monitor = mn_state known_monitor" "mn_attempts broker_monitor = []"
  "mn_world broker_monitor = (\<lparr>br_log = [], br_clock = 0, br_up = True\<rparr>, foreign_cluster)"
  by (simp_all add: broker_monitor_def NewMonitor_def)

lemma broker_monitor_wf: "state_wf (mn_state broker_monitor)"
  using known_monitor_wf by simp

end
