(* ===== verification/Main_Loop.thy ===== *)
theory Main_Loop
  imports Delivery Config
begin

text \<open>
  The process of \<open>main.go\<close>: construction of the parts, loading of the state, the first poll, and
  the loop that polls at every tick until the shutdown signal, then writes the state a last
  time. What the operating system and the libraries decide is a parameter: which clients
  can be built, and the sequence of ticks and signals the loop receives.
\<close>

section \<open>Definitions\<close>

datatype event = Tick | Shutdown

datatype phase = Waiting | Stopped

text \<open>
  The ways to fail: \<open>log.Fatalf\<close>, the ticker's panic with the world it leaves, and a nil
  dereference (or a poll that never returns).
\<close>

datatype 'w failure = Fatal string | Panic string 'w | Crash

text \<open>Which of the optional clients can be built.\<close>

record clients =
  cn_kube :: bool
  cn_metrics :: bool
  cn_dynamic :: bool

text \<open>
  The last write uses a time one write interval ahead of the clock, so that the throttle of
  \<open>maybeSave\<close> does not hold it back.
\<close>

definition shutdown_save :: "('q, 'w) runtime \<Rightarrow> Config \<Rightarrow> 'w monitor \<Rightarrow> 'w monitor option" where
  "shutdown_save rt cfg m =
     (case ask (rt_clock rt) m of (now, m1) \<Rightarrow> maybeSave rt cfg (now + StateWriteInterval cfg) m1)"

text \<open>The loop, on the events it receives; \<open>None\<close> is a poll that panics or does not return.\<close>

fun run_events ::
  "('q, 'w) runtime \<Rightarrow> Config \<Rightarrow> event list \<Rightarrow> 'w monitor \<Rightarrow> ('w monitor \<times> phase) option" where
  "run_events rt cfg [] m = Some (m, Waiting)"
| "run_events rt cfg (Tick # es) m =
     (case Poll rt cfg m of None \<Rightarrow> None | Some m' \<Rightarrow> run_events rt cfg es m')"
| "run_events rt cfg (Shutdown # es) m =
     (case shutdown_save rt cfg m of None \<Rightarrow> None | Some m' \<Rightarrow> Some (m', Stopped))"

text \<open>The state the process starts from: the one that is loaded, or a new one.\<close>

definition initial_state :: "Config \<Rightarrow> MonitorState option \<Rightarrow> MonitorState" where
  "initial_state cfg loaded = (case loaded of None \<Rightarrow> newMonitorState (Namespace cfg) | Some s \<Rightarrow> s)"

text \<open>
  Everything before the loop. The runtime depends on the publisher that was built. The first
  poll comes before the ticker, which panics on an interval that is not positive; the deferred
  \<open>Close\<close> of the publisher runs then.
\<close>

definition boot ::
  "('c KafkaPublisher \<Rightarrow> ('q, 'w) runtime) \<Rightarrow> ('c, 'w) kgo \<Rightarrow> clients \<Rightarrow> Config \<Rightarrow> ('w \<Rightarrow> time) \<Rightarrow> 'w \<Rightarrow>
   'w failure + ('c KafkaPublisher \<times> 'w monitor)" where
  "boot rt_of K cl cfg clock w =
     (let health = NewPollHealth (EffectiveMaxPollGap cfg) in
      if \<not> cn_kube cl then Inl (Fatal ''failed to build Kubernetes client'')
      else if ResourceUsage (Checks cfg) \<and> ResourceUsageBackend cfg = ''metrics-server'' \<and> \<not> cn_metrics cl
      then Inl (Fatal ''failed to build metrics client'')
      else if CustomResource (Checks cfg) \<and> \<not> cn_dynamic cl
      then Inl (Fatal ''failed to build dynamic client'')
      else (case NewKafkaPublisher K (RedpandaBroker cfg) (FindingsTopic cfg) (PublishTimeout cfg) w of
          (Inl e, w1) \<Rightarrow> Inl (Fatal ''failed to create Redpanda publisher'')
        | (Inr p, w1) \<Rightarrow>
            (let rt = rt_of p in
             case Load (rt_api rt) (rt_codec rt) (NewStateStore (Namespace cfg) (StateConfigMapName cfg)) w1 of
               (loaded, err, store, w2) \<Rightarrow>
                 (case Poll rt cfg (NewMonitor store (initial_state cfg loaded) (Some health) w2) of
                    None \<Rightarrow> Inl Crash
                  | Some m \<Rightarrow>
                      if PollInterval cfg \<le> 0
                      then Inl (Panic ''non-positive interval for NewTicker''
                                  (Close K (Some p) (clock (mn_world m)) (mn_world m)))
                      else Inr (p, m)))))"

text \<open>The process. When it stops, the deferred \<open>Close\<close> of the publisher runs.\<close>

definition main ::
  "('c KafkaPublisher \<Rightarrow> ('q, 'w) runtime) \<Rightarrow> ('c, 'w) kgo \<Rightarrow> clients \<Rightarrow> getenv \<Rightarrow> ('w \<Rightarrow> time) \<Rightarrow> event list \<Rightarrow> 'w \<Rightarrow>
   'w failure + ('w monitor \<times> phase)" where
  "main rt_of K cl ge clock es w =
     (let cfg = LoadConfig ge in
      case boot rt_of K cl cfg clock w of
        Inl e \<Rightarrow> Inl e
      | Inr (p, m) \<Rightarrow>
          (case run_events (rt_of p) cfg es m of
             None \<Rightarrow> Inl Crash
           | Some (m', Waiting) \<Rightarrow> Inr (m', Waiting)
           | Some (m', Stopped) \<Rightarrow>
               Inr (m'\<lparr>mn_world := Close K (Some p) (clock (mn_world m')) (mn_world m')\<rparr>, Stopped)))"

section \<open>The loop\<close>

lemma shutdown_returns:
  assumes "state_wf (mn_state m)"
  shows "\<exists>m'. shutdown_save rt cfg m = Some m' \<and> state_wf (mn_state m')"
proof -
  obtain now m1 where a: "ask (rt_clock rt) m = (now, m1)" by (cases "ask (rt_clock rt) m")
  have "state_wf (mn_state m1)" using asked(1)[OF a] assms by simp
  from maybeSave_returns[OF this, of rt cfg] show ?thesis by (auto simp: shutdown_save_def a)
qed

lemma run_events_returns:
  assumes "state_wf (mn_state m)"
  shows "\<exists>m' ph. run_events rt cfg es m = Some (m', ph) \<and> state_wf (mn_state m') \<and>
    (ph = Stopped \<longleftrightarrow> Shutdown \<in> set es)"
  using assms
proof (induction es arbitrary: m)
  case Nil
  then show ?case by simp
next
  case (Cons e es)
  show ?case
  proof (cases e)
    case Tick
    obtain m1 where "Poll rt cfg m = Some m1" "state_wf (mn_state m1)"
      by (rule Poll_parts[OF Cons.prems, of rt cfg]) auto
    with Cons.IH[of m1] Tick show ?thesis by simp
  next
    case Shutdown
    then show ?thesis using shutdown_returns[OF Cons.prems, of rt cfg] by auto
  qed
qed

text \<open>
  What is relied on of the decoder: a map it decodes has no key twice. Null entries and empty
  keys it does decode, so about the loaded state these are extra hypotheses.
\<close>

definition decodes_maps :: "codec \<Rightarrow> bool" where
  "decodes_maps co \<longleftrightarrow>
     (\<forall>raw d. unmarshal co raw = Some d \<longrightarrow>
        (\<forall>fs. de_Findings d = Some fs \<longrightarrow> gm_wf fs) \<and> (\<forall>obs. de_Observations d = Some obs \<longrightarrow> gm_wf obs))"

definition no_nulls :: "MonitorState \<Rightarrow> bool" where
  "no_nulls s \<longleftrightarrow> (\<forall>k. gm_get (ms_Findings s) k \<noteq> Some None) \<and> gm_get (ms_Observations s) [] = None"

lemma adopt_maps:
  "decodes_maps co \<Longrightarrow> adopt co ns cm = (state, err, ok) \<Longrightarrow> gm_wf (ms_Findings state) \<and> gm_wf (ms_Observations state)"
  by (auto simp: adopt_def Let_def decodes_maps_def split: if_splits option.splits)

lemma Load_maps:
  assumes "decodes_maps co" and "Load api co s w = (Some state, err, s', w')"
  shows "gm_wf (ms_Findings state) \<and> gm_wf (ms_Observations state)"
  using assms by (auto simp: Load_def Let_def split: prod.splits sum.splits api_error.splits dest: adopt_maps)

lemma initial_wf:
  assumes "decodes_maps co" and "Load api co s w = (loaded, err, s', w')" and "no_nulls (initial_state cfg loaded)"
  shows "state_wf (initial_state cfg loaded)"
  using assms Load_maps[OF assms(1), of api s w "the loaded"]
  by (cases loaded) (auto simp: initial_state_def no_nulls_def state_wf_def)

text \<open>The start: with the clients and the publisher built, it is \<open>Load\<close>, the first poll, the ticker.\<close>

lemma boot_built:
  assumes "cn_kube cl" "cn_metrics cl" "cn_dynamic cl"
    and "NewKafkaPublisher K (RedpandaBroker cfg) (FindingsTopic cfg) (PublishTimeout cfg) w = (Inr p, w1)"
    and "Load (rt_api (rt_of p)) (rt_codec (rt_of p)) (NewStateStore (Namespace cfg) (StateConfigMapName cfg)) w1 =
           (loaded, err, store, w2)"
  shows "boot rt_of K cl cfg clock w =
    (case Poll (rt_of p) cfg (NewMonitor store (initial_state cfg loaded) (Some (NewPollHealth (EffectiveMaxPollGap cfg))) w2) of
       None \<Rightarrow> Inl Crash
     | Some m \<Rightarrow>
         if PollInterval cfg \<le> 0
         then Inl (Panic ''non-positive interval for NewTicker'' (Close K (Some p) (clock (mn_world m)) (mn_world m)))
         else Inr (p, m))"
  by (simp add: boot_def assms Let_def)

lemma first_poll_returns:
  assumes "decodes_maps (rt_codec rt)"
    and "Load (rt_api rt) (rt_codec rt) s w1 = (loaded, err, store, w2)"
    and "no_nulls (initial_state cfg loaded)"
  obtains m where "Poll rt cfg (NewMonitor store (initial_state cfg loaded) health w2) = Some m" "state_wf (mn_state m)"
proof -
  have "state_wf (mn_state (NewMonitor store (initial_state cfg loaded) health w2))"
    using initial_wf[OF assms] by (simp add: NewMonitor_def)
  then obtain m where "Poll rt cfg (NewMonitor store (initial_state cfg loaded) health w2) = Some m" "state_wf (mn_state m)"
    by (rule Poll_parts[of _ rt cfg]) auto
  then show thesis by (rule that)
qed

text \<open>The effects of a run are those of its polls and of the last write.\<close>

context effects
begin

lemma shutdown_rel: "shutdown_save rt cfg m = Some m' \<Longrightarrow> rel m m'"
  by (auto simp: shutdown_save_def split: prod.splits intro: rel_trans maybeSave_rel)

lemma run_events_rel: "run_events rt cfg es m = Some (m', ph) \<Longrightarrow> rel m m'"
proof (induction es arbitrary: m)
  case Nil
  then show ?case by (simp add: rel_refl)
next
  case (Cons e es)
  then show ?case
    by (cases e) (auto split: option.splits intro: rel_trans Poll_rel shutdown_rel)
qed

end

section \<open>The last write\<close>

text \<open>
  A write that is due either has nothing it may write (the state cannot be encoded, or is too
  large after all pruning), or is exactly one \<open>Save\<close> of the state, with its outcome recorded.
\<close>

definition write_refused :: "('q, 'w) runtime \<Rightarrow> Config \<Rightarrow> 'w monitor \<Rightarrow> bool" where
  "write_refused rt cfg m \<longleftrightarrow>
     (case marshal (rt_codec rt) (mn_state m) of
        None \<Rightarrow> True
      | Some data \<Rightarrow> 0 < MaxStateBytes cfg \<and> MaxStateBytes cfg < int (length data))"

definition write_made :: "('q, 'w) runtime \<Rightarrow> Config \<Rightarrow> StateStore \<Rightarrow> 'w monitor \<Rightarrow> bool" where
  "write_made rt cfg s m \<longleftrightarrow>
     (\<exists>err w. Save (rt_api rt) (rt_codec rt) s (mn_state m) w = (err, mn_store m, mn_world m) \<and>
        (mn_dirty m \<longleftrightarrow> err \<noteq> None) \<and>
        last (mn_metrics m) = Inc ''state_writes_total'' [Namespace cfg, if err = None then ''ok'' else ''error''])"

lemma maybeSave_outcome:
  assumes "state_wf (mn_state m)" and "write_due cfg now m"
  shows "\<exists>m'. maybeSave rt cfg now m = Some m' \<and>
    (mn_dirty m' \<and> mn_store m' = mn_store m \<and> write_refused rt cfg m' \<or> write_made rt cfg (mn_store m) m')"
proof -
  have guard: "\<not> (\<not> mn_dirty m \<or> (\<not> is_zero (mn_lastWrite m) \<and> time_sub now (mn_lastWrite m) < StateWriteInterval cfg))"
    using assms(2) by (auto simp: write_due_def is_zero_def)
  obtain r m1 where p: "pruneForStateSize rt cfg (MaxStateBytes cfg) m = Some (r, m1)" "prunes m m1"
    "currentStateBytes rt m1 = r"
  proof (cases "0 < MaxStateBytes cfg")
    case True
    from pruneForStateSize_returns[OF assms(1) True, of rt cfg] that show thesis by blast
  next
    case False
    with that[of "currentStateBytes rt m" m] show thesis by (simp add: pruneForStateSize_def prunes.rel_refl)
  qed
  have d: "mn_dirty m1" "mn_store m1 = mn_store m" using p(2) assms(2) by (auto simp: prunes_def deletes_def write_due_def)
  show ?thesis
  proof (cases r)
    case None
    then have "write_refused rt cfg m1" using p(3) by (auto simp: currentStateBytes_def write_refused_def split: option.splits)
    then show ?thesis
      unfolding maybeSave_def if_not_P[OF guard] p(1) using d by (simp add: None write_refused_def)
  next
    case (Some b)
    then obtain data where data: "marshal (rt_codec rt) (mn_state m1) = Some data" "b = int (length data)"
      using p(3) by (auto simp: currentStateBytes_def split: option.splits)
    show ?thesis
    proof (cases "0 < MaxStateBytes cfg \<and> MaxStateBytes cfg < b")
      case True
      then show ?thesis
        unfolding maybeSave_def if_not_P[OF guard] p(1) using d by (simp add: Some write_refused_def data)
    next
      case False
      obtain err store w where sv: "Save (rt_api rt) (rt_codec rt) (mn_store m1) (mn_state m1) (mn_world m1) = (err, store, w)"
        by (metis prod_cases3)
      then show ?thesis
        unfolding maybeSave_def if_not_P[OF guard] p(1) using d False
        by (cases err) (auto simp: Some write_made_def Let_def)
    qed
  qed
qed

section \<open>Null findings\<close>








section \<open>Properties\<close>

text \<open>
  C2. The process survives: with the clients and the publisher built, a state loaded that has
  no null finding and no observation under the empty key, and a positive poll interval, no
  sequence of ticks and signals makes it panic, crash or hang, whatever the API, the broker
  and the clock do; the state stays well-formed, and it stops exactly if it was told to. Of
  the decoder only that its maps have no key twice is relied on; the two conditions on the
  loaded state are needed (C36 and C38).
\<close>

theorem process_survives:
  assumes "cn_kube cl" "cn_metrics cl" "cn_dynamic cl" and "cfg = LoadConfig ge" and "0 < PollInterval cfg"
    and "NewKafkaPublisher K (RedpandaBroker cfg) (FindingsTopic cfg) (PublishTimeout cfg) w = (Inr p, w1)"
    and "decodes_maps (rt_codec (rt_of p))"
    and "Load (rt_api (rt_of p)) (rt_codec (rt_of p)) (NewStateStore (Namespace cfg) (StateConfigMapName cfg)) w1 =
           (loaded, err, store, w2)"
    and "no_nulls (initial_state cfg loaded)"
  shows "\<exists>m ph. main rt_of K cl ge clock es w = Inr (m, ph) \<and> state_wf (mn_state m) \<and>
    (ph = Stopped \<longleftrightarrow> Shutdown \<in> set es)"
proof -
  obtain m where m: "Poll (rt_of p) cfg (NewMonitor store (initial_state cfg loaded)
      (Some (NewPollHealth (EffectiveMaxPollGap cfg))) w2) = Some m" "state_wf (mn_state m)"
    by (rule first_poll_returns[OF assms(7-9)])
  have b: "boot rt_of K cl cfg clock w = Inr (p, m)"
    unfolding boot_built[where rt_of = rt_of, OF assms(1-3,6,8)] using m(1) assms(5) by simp
  from run_events_returns[OF m(2), of "rt_of p" cfg es] obtain m' ph where
    "run_events (rt_of p) cfg es m = Some (m', ph)" "state_wf (mn_state m')"
    "ph = Stopped \<longleftrightarrow> Shutdown \<in> set es" by blast
  then show ?thesis by (cases ph) (simp_all add: main_def assms(4)[symmetric] b)
qed

text \<open>A cluster in which the saved state of before is stored under the configured name.\<close>

definition all_clients :: clients where
  "all_clients = \<lparr>cn_kube = True, cn_metrics = True, cn_dynamic = True\<rparr>"

lemma all_clients_sel [simp]: "cn_kube all_clients" "cn_metrics all_clients" "cn_dynamic all_clients"
  by (simp_all add: all_clients_def)

definition stored_cm :: "Config \<Rightarrow> string \<Rightarrow> configmap" where
  "stored_cm cfg data = with_state data (foreign_cm\<lparr>cm_Name := StateConfigMapName cfg, cm_Namespace := Namespace cfg\<rparr>)"

definition stored_world :: "Config \<Rightarrow> string \<Rightarrow> broker \<times> cluster" where
  "stored_world cfg data =
     (\<lparr>br_log = [], br_clock = 0, br_up = True\<rparr>, foreign_cluster\<lparr>cl_object := Some (stored_cm cfg data)\<rparr>)"

lemma broker_publisher_built:
  "\<exists>p. NewKafkaPublisher broker_kgo (RedpandaBroker (LoadConfig ge)) (FindingsTopic (LoadConfig ge)) d w = (Inr p, w)"
proof -
  have "RedpandaBroker (LoadConfig ge) \<noteq> []" "FindingsTopic (LoadConfig ge) \<noteq> []"
    by (simp_all add: LoadConfig_def env_def Let_def)
  then show ?thesis by (simp add: NewKafkaPublisher_def broker_kgo_def Let_def)
qed

lemma stored_loads:
  assumes "adopt co (Namespace cfg) (stored_cm cfg data) = (state, err, True)"
  shows "\<exists>store. Load (rt_api broker_runtime) co (NewStateStore (Namespace cfg) (StateConfigMapName cfg)) (stored_world cfg data) =
    (Some state, err, store, stored_world cfg data)"
  using assms
  by (simp add: Load_def broker_runtime_def on_cluster_def NewStateStore_def cluster_get_def stored_world_def
      stored_cm_def with_state_def Let_def)

lemma stored_data [simp]: "data_at (cm_Data (stored_cm cfg data)) stateDataKey = data"
  by (simp add: stored_cm_def data_at_with_state)

lemma wire_codec_maps: "decodes_maps wire_codec"
  by (auto simp: decodes_maps_def wire_codec_def read_map_wf split: list.splits)

lemma broker_codec [simp]: "rt_codec broker_runtime = wire_codec"
  by (simp add: broker_runtime_def)

lemma stored_state_loads:
  assumes "cfg = LoadConfig ge"
  obtains data loaded store where "Load (rt_api broker_runtime) wire_codec (NewStateStore (Namespace cfg) (StateConfigMapName cfg))
      (stored_world cfg data) = (Some loaded, None, store, stored_world cfg data)" "same_state loaded saved_state"
proof -
  obtain data where d: "marshal wire_codec saved_state = Some data" using wire_codec_writes by blast
  have "reads_back wire_codec saved_state"
    using saved_state_wf by (intro wire_codec_reads_back) (simp_all add: state_wf_def)
  then obtain loaded where a: "adopt wire_codec (Namespace cfg) (stored_cm cfg data) = (loaded, None, True)" "same_state loaded saved_state"
    using adopt_saved[of wire_codec saved_state data "stored_cm cfg data" "Namespace cfg"] d by (auto simp: saved_state_def)
  from stored_loads[OF a(1)] a(2) that show thesis by blast
qed

theorem process_survives_witness:
  "\<exists>data loaded s w' m. Load (rt_api broker_runtime) wire_codec (NewStateStore (Namespace demo_config) (StateConfigMapName demo_config))
       (stored_world demo_config data) = (Some loaded, None, s, w') \<and> gm_len (ms_Findings loaded) \<noteq> 0 \<and>
     main (\<lambda>p. broker_runtime) broker_kgo all_clients (\<lambda>_. []) (br_clock \<circ> fst) [Tick, Tick, Shutdown]
       (stored_world demo_config data) = Inr (m, Stopped)"
proof -
  obtain data loaded store where l: "Load (rt_api broker_runtime) wire_codec (NewStateStore (Namespace demo_config) (StateConfigMapName demo_config))
      (stored_world demo_config data) = (Some loaded, None, store, stored_world demo_config data)" "same_state loaded saved_state"
    by (rule stored_state_loads[OF refl])
  obtain p where p: "NewKafkaPublisher broker_kgo (RedpandaBroker demo_config) (FindingsTopic demo_config)
      (PublishTimeout demo_config) (stored_world demo_config data) = (Inr p, stored_world demo_config data)"
    using broker_publisher_built by blast
  have pos: "0 < PollInterval demo_config"
    by (simp add: LoadConfig_def durationEnv_def Let_def second_def minute_def)
  have "state_wf loaded" using same_state_wf[OF l(2) saved_state_wf] .
  then have n: "no_nulls (initial_state demo_config (Some loaded))" by (simp add: no_nulls_def initial_state_def state_wf_def)
  have "gm_get (ms_Findings loaded) ''a'' \<noteq> None" using l(2) by (simp add: same_state_def saved_state_def)
  then have "gm_len (ms_Findings loaded) \<noteq> 0" by (auto simp: gm_len_def gm_get_def)
  moreover
  note maps = wire_codec_maps[folded broker_codec] and load = l(1)[folded broker_codec]
  have "\<exists>m. main (\<lambda>p. broker_runtime) broker_kgo all_clients (\<lambda>_. []) (br_clock \<circ> fst) [Tick, Tick, Shutdown]
       (stored_world demo_config data) = Inr (m, Stopped)"
    using process_survives[where rt_of = "\<lambda>p. broker_runtime" and cl = all_clients and clock = "br_clock \<circ> fst"
        and es = "[Tick, Tick, Shutdown]" and store = store and err = None and ?w2.0 = "stored_world demo_config data",
        OF all_clients_sel refl pos p maps load n] by auto
  ultimately show ?thesis using l(1) by blast
qed

text \<open>
  C37. A poll interval that is not positive is accepted by the configuration and stops the
  process. With the clients and the publisher built and a state loaded that has no null
  finding and no observation under the empty key, the process loads the state and polls once,
  with all the effects of both on the world; then the ticker panics, and all that still
  happens is the deferred \<open>Close\<close> of the publisher.
\<close>

theorem nonpositive_interval_panics:
  assumes "cn_kube cl" "cn_metrics cl" "cn_dynamic cl" and "cfg = LoadConfig ge"
    and "parse_duration (ge ''POLL_INTERVAL'') = Some d" and "d \<le> 0"
    and "NewKafkaPublisher K (RedpandaBroker cfg) (FindingsTopic cfg) (PublishTimeout cfg) w = (Inr p, w1)"
    and "decodes_maps (rt_codec (rt_of p))"
    and "Load (rt_api (rt_of p)) (rt_codec (rt_of p)) (NewStateStore (Namespace cfg) (StateConfigMapName cfg)) w1 =
           (loaded, err, store, w2)"
    and "no_nulls (initial_state cfg loaded)"
  shows "\<exists>m. Poll (rt_of p) cfg (NewMonitor store (initial_state cfg loaded) (Some (NewPollHealth (EffectiveMaxPollGap cfg))) w2) = Some m \<and>
    main rt_of K cl ge clock es w =
      Inl (Panic ''non-positive interval for NewTicker'' (Close K (Some p) (clock (mn_world m)) (mn_world m)))"
proof -
  have "parse_duration [] = None" by (simp add: parse_duration_def)
  then have "PollInterval cfg = d"
    using assms(5) by (auto simp: assms(4) LoadConfig_def durationEnv_def Let_def)
  moreover obtain m where m: "Poll (rt_of p) cfg (NewMonitor store (initial_state cfg loaded)
      (Some (NewPollHealth (EffectiveMaxPollGap cfg))) w2) = Some m"
    by (rule first_poll_returns[OF assms(8-10)])
  ultimately have "boot rt_of K cl cfg clock w =
      Inl (Panic ''non-positive interval for NewTicker'' (Close K (Some p) (clock (mn_world m)) (mn_world m)))"
    unfolding boot_built[where rt_of = rt_of, OF assms(1-3,7,9)] using assms(6) by simp
  with m show ?thesis by (simp add: main_def assms(4)[symmetric])
qed

theorem nonpositive_interval_panics_witness:
  "\<exists>data w'. main (\<lambda>p. broker_runtime) broker_kgo all_clients ((\<lambda>_. [])(''POLL_INTERVAL'' := ''0'')) (br_clock \<circ> fst) []
     (stored_world (LoadConfig ((\<lambda>_. [])(''POLL_INTERVAL'' := ''0''))) data) = Inl (Panic ''non-positive interval for NewTicker'' w')"
proof -
  let ?ge = "(\<lambda>_. [])(''POLL_INTERVAL'' := ''0'')"
  let ?cfg = "LoadConfig ?ge"
  obtain data loaded store where l: "Load (rt_api broker_runtime) wire_codec (NewStateStore (Namespace ?cfg) (StateConfigMapName ?cfg))
      (stored_world ?cfg data) = (Some loaded, None, store, stored_world ?cfg data)" "same_state loaded saved_state"
    by (rule stored_state_loads[OF refl])
  obtain p where p: "NewKafkaPublisher broker_kgo (RedpandaBroker ?cfg) (FindingsTopic ?cfg)
      (PublishTimeout ?cfg) (stored_world ?cfg data) = (Inr p, stored_world ?cfg data)"
    using broker_publisher_built by blast
  have "state_wf loaded" using same_state_wf[OF l(2) saved_state_wf] .
  then have n: "no_nulls (initial_state ?cfg (Some loaded))" by (simp add: no_nulls_def initial_state_def state_wf_def)
  have "parse_duration ''0'' = Some 0" by (simp add: parse_duration_def)
  then have d: "parse_duration (?ge ''POLL_INTERVAL'') = Some 0" by simp
  from nonpositive_interval_panics[where rt_of = "\<lambda>p. broker_runtime" and cl = all_clients and clock = "br_clock \<circ> fst" and es = "[]"
      and store = store and err = None and ?w2.0 = "stored_world ?cfg data", OF all_clients_sel refl d order_refl p wire_codec_maps[folded broker_codec] l(1)[folded broker_codec] n]
  show ?thesis by blast
qed

text \<open>
  C17. The write at shutdown is not held back by the throttle: if the state is dirty and the
  clock is not behind the last write, then either the state has no encoding, or none within
  the size limit even after pruning, and it stays dirty; or \<open>Save\<close> is called once, on the store
  of the monitor and the (pruned) state, its outcome is what the store and the world hold
  afterwards and what the last metric counts, and the state is clean exactly if it succeeded.
\<close>

theorem shutdown_write_attempted:
  assumes "state_wf (mn_state m)" and "mn_dirty m" and "mn_lastWrite m \<le> fst (rt_clock rt (mn_world m))"
    and "int64_range (StateWriteInterval cfg)"
  shows "\<exists>m'. shutdown_save rt cfg m = Some m' \<and>
    (mn_dirty m' \<and> mn_store m' = mn_store m \<and>
       (case marshal (rt_codec rt) (mn_state m') of
          None \<Rightarrow> True
        | Some data \<Rightarrow> 0 < MaxStateBytes cfg \<and> MaxStateBytes cfg < int (length data)) \<or>
     (\<exists>err w. Save (rt_api rt) (rt_codec rt) (mn_store m) (mn_state m') w = (err, mn_store m', mn_world m') \<and>
        (mn_dirty m' \<longleftrightarrow> err \<noteq> None) \<and>
        last (mn_metrics m') = Inc ''state_writes_total'' [Namespace cfg, if err = None then ''ok'' else ''error'']))"
proof -
  obtain now m1 where a: "ask (rt_clock rt) m = (now, m1)" by (cases "ask (rt_clock rt) m")
  have now: "now = fst (rt_clock rt (mn_world m))" using ask_sel(1)[of "rt_clock rt" m] a by simp
  have m1: "mn_state m1 = mn_state m" "mn_dirty m1" "mn_lastWrite m1 = mn_lastWrite m" "mn_store m1 = mn_store m"
    using ask_sel(3,4,7,8)[of "rt_clock rt" m] a assms(2) by auto
  have "StateWriteInterval cfg \<le> time_sub (now + StateWriteInterval cfg) (mn_lastWrite m)"
    using assms(3,4) by (simp add: now time_sub_def int64_range_def)
  then have "write_due cfg (now + StateWriteInterval cfg) m1" by (simp add: write_due_def m1)
  with maybeSave_outcome[of m1 cfg _ rt] assms(1) m1(1) show ?thesis
    by (simp add: shutdown_save_def a m1(4) write_refused_def write_made_def)
qed

theorem shutdown_write_attempted_witness:
  "\<exists>m' err w. shutdown_save restart_runtime keep_all dirty_monitor = Some m' \<and>
     Save cluster_api wire_codec (NewStateStore ''ns'' ''st'') (mn_state m') w = (err, mn_store m', mn_world m') \<and>
     (mn_dirty m' \<longleftrightarrow> err \<noteq> None)"
proof -
  have wf: "state_wf (mn_state dirty_monitor)" "mn_dirty dirty_monitor" using saved_state_wf by simp_all
  have cl: "mn_lastWrite dirty_monitor \<le> fst (rt_clock restart_runtime (mn_world dirty_monitor))"
    by (simp add: restart_runtime_def idle_runtime_def unix_epoch_def)
  have "int64_range (StateWriteInterval keep_all)"
    by (simp add: keep_all_def pods_only_def LoadConfig_def durationEnv_def Let_def int64_range_def second_def minute_def)
  from shutdown_write_attempted[OF wf cl this]
  obtain m' where m': "shutdown_save restart_runtime keep_all dirty_monitor = Some m'"
    "marshal wire_codec (mn_state m') = None \<or>
     (\<exists>err w. Save cluster_api wire_codec (NewStateStore ''ns'' ''st'') (mn_state m') w = (err, mn_store m', mn_world m') \<and>
        (mn_dirty m' \<longleftrightarrow> err \<noteq> None))"
    by (auto simp: restart_runtime_def idle_runtime_def split: option.splits)
  with wire_codec_writes[of "mn_state m'"] show ?thesis by auto
qed

text \<open>
  C23. No run misuses the metrics library: the collectors are registered under different
  names, and every counter, gauge and histogram that any run writes, through all its polls
  and the last write, is addressed with as many label values as it was declared with, so
  \<open>WithLabelValues\<close> does not panic.
\<close>

theorem run_metrics_declared:
  assumes "run_events rt cfg es m = Some (m', ph)"
  shows "distinct (map mv_Name registered) \<and>
    (\<exists>ms. mn_metrics m' = mn_metrics m @ ms \<and> (\<forall>x \<in> set ms. declared x))"
  using metric_effects.run_events_rel[OF assms] registered_distinct by (auto simp: emits_declared_def list_all_iff)

theorem run_metrics_declared_witness:
  "\<exists>m' ms. run_events idle_runtime pods_only [Tick, Shutdown] known_monitor = Some (m', Stopped) \<and>
     mn_metrics m' = mn_metrics known_monitor @ ms \<and> (\<forall>x \<in> set ms. declared x)"
proof -
  obtain m' where r: "run_events idle_runtime pods_only [Tick, Shutdown] known_monitor = Some (m', Stopped)"
    using run_events_returns[OF known_monitor_wf, of idle_runtime pods_only "[Tick, Shutdown]"] by auto
  with run_metrics_declared[OF r] show ?thesis by blast
qed

text \<open>
  C3. Nothing the monitor counts as accepted is missing from the topic. Take one partition:
  its log, and the keys assigned to it. With the Kafka publisher behind the interface, a run
  only appends to the log, and the findings of these keys whose publish the run counted as
  accepted are among what is appended, in the order of the publishes, each keyed by its
  identifier, with the encoded finding as its value. In between there may be records of
  other writers, and records of publishes that failed for the monitor but were stored.
\<close>

theorem topic_holds_accepted_publishes:
  fixes rt :: "('q, 'w) runtime"
  assumes "acknowledges K log mine" and "through rt K encode p clock signal" and "keeps_topic rt log"
    and "run_events rt cfg es m = Some (m', ph)"
  shows "\<exists>sent new. mn_attempts m' = mn_attempts m @ sent \<and> log (mn_world m') = log (mn_world m) @ new \<and>
    subseq
      (map (\<lambda>(f, ok). \<lparr>kr_Topic = kp_topic p, kr_Key = f_ID f, kr_Value = the (encode f)\<rparr>)
         (filter (\<lambda>(f, ok). ok \<and> mine (f_ID f)) sent))
      new"
proof -
  obtain sent new where new: "mn_attempts m' = mn_attempts m @ sent" "log (mn_world m') = log (mn_world m) @ new"
    "subseq (map (record_of encode p \<circ> fst) (filter (owed mine) sent)) new"
    using effects.run_events_rel[OF delivery_effects[OF assms(1-3)] assms(4)] unfolding delivers_def by blast
  have "filter (owed mine) sent = filter (\<lambda>(f, ok). ok \<and> mine (f_ID f)) sent"
    by (rule filter_cong) (auto simp: owed_def)
  moreover have "map (record_of encode p \<circ> fst) xs =
      map (\<lambda>(f, ok). \<lparr>kr_Topic = kp_topic p, kr_Key = f_ID f, kr_Value = the (encode f)\<rparr>) xs" for xs :: "(Finding \<times> bool) list"
    by (rule map_cong) (auto simp: record_of_def)
  ultimately show ?thesis using new by (metis (no_types))
qed

lemma broker_run:
  obtains m' where "run_events broker_runtime pods_only [Tick, Shutdown] broker_monitor = Some (m', Stopped)"
  using run_events_returns[OF broker_monitor_wf, of broker_runtime pods_only "[Tick, Shutdown]"] by auto

theorem topic_holds_accepted_publishes_witness:
  "\<exists>m' sent. run_events broker_runtime pods_only [Tick, Shutdown] broker_monitor = Some (m', Stopped) \<and>
     mn_attempts m' = sent \<and> subseq (map (f_ID \<circ> fst) (filter snd sent)) (map kr_Key (broker_log (mn_world m')))"
proof -
  obtain m' where r: "run_events broker_runtime pods_only [Tick, Shutdown] broker_monitor = Some (m', Stopped)"
    by (rule broker_run)
  from topic_holds_accepted_publishes[OF broker_acknowledges[of "\<lambda>_. True"] broker_through broker_keeps_topic r]
  have "subseq (map kr_Key (map (\<lambda>(f, ok). \<lparr>kr_Topic = kp_topic small_publisher, kr_Key = f_ID f, kr_Value = wire f\<rparr>)
      (filter (\<lambda>(f, ok). ok) (mn_attempts m')))) (map kr_Key (broker_log (mn_world m')))"
    by (intro subseq_map) simp
  moreover have "filter (\<lambda>(f, ok). ok) xs = filter snd xs" for xs :: "(Finding \<times> bool) list"
    by (rule filter_cong) auto
  ultimately show ?thesis using r by (simp add: case_prod_unfold comp_def)
qed




end
