(* ===== verification/Consumer.thy ===== *)
theory Consumer
  imports Main_Loop
begin

text \<open>
  The example consumer (\<open>examples/consumer/main.go\<close>): it reads the findings topic from the
  start and prints one line per record. With the monitor and the publisher in front of it,
  the findings whose publish the monitor counts as accepted are among the lines. The client
  library and \<open>json.Unmarshal\<close> are parameters.
\<close>

section \<open>Definitions\<close>

text \<open>The consumer's own copy of the payload.\<close>

record consumer_Finding =
  cf_Source :: string
  cf_Namespace :: string
  cf_Kind :: string
  cf_Name :: string
  cf_Severity :: string
  cf_Classification :: string
  cf_Score :: int
  cf_Check :: string
  cf_Reason :: string
  cf_Status :: string
  cf_Evidence :: "string list"

definition consumer_env :: "getenv \<Rightarrow> string \<Rightarrow> string \<Rightarrow> string" where
  "consumer_env ge key fallback = (let v = ge key in if v \<noteq> [] then v else fallback)"

record consumer_options =
  kc_SeedBrokers :: string
  kc_ConsumerGroup :: string
  kc_ConsumeTopics :: string
  kc_AtStart :: bool

text \<open>One answer of \<open>PollFetches\<close>: errors by topic and partition, and records.\<close>

record fetches =
  fx_Errors :: "(string \<times> int \<times> string) list"
  fx_Records :: "kafka_record list"

datatype terminal = Logged string | Printed string

text \<open>\<open>strings.Join\<close>.\<close>

fun join :: "string \<Rightarrow> string list \<Rightarrow> string" where
  "join sep [] = []"
| "join sep [x] = x"
| "join sep (x # y # xs) = x @ sep @ join sep (y # xs)"

definition finding_line :: "consumer_Finding \<Rightarrow> string" where
  "finding_line f =
     (let evidence0 = join ''; '' (cf_Evidence f);
          evidence = (if evidence0 = [] then ''-'' else evidence0)
      in ''['' @ cf_Severity f @ ''] ns='' @ cf_Namespace f @ '' '' @ cf_Kind f @ ''/'' @ cf_Name f
         @ '' check='' @ cf_Check f @ '' reason='' @ cf_Reason f @ '' score='' @ show_int (cf_Score f)
         @ '' status='' @ cf_Status f @ '' :: '' @ evidence @ [CHR 0x0A])"

type_synonym decoder = "string \<Rightarrow> string + consumer_Finding"

definition each_record :: "decoder \<Rightarrow> kafka_record \<Rightarrow> terminal" where
  "each_record decode r =
     (case decode (kr_Value r) of
        Inl err \<Rightarrow> Logged (''unmarshal: '' @ err)
      | Inr f \<Rightarrow> Printed (finding_line f))"

definition poll_error :: "string \<times> int \<times> string \<Rightarrow> terminal" where
  "poll_error e = (case e of (topic, part, err) \<Rightarrow>
     Logged (''poll error topic='' @ topic @ '' partition='' @ show_int part @ '': '' @ err))"

text \<open>
  The loop: each answer comes with whether the context has ended by the time the loop looks.
  The second component of the result is whether the loop returned.
\<close>

fun consume :: "decoder \<Rightarrow> (fetches \<times> bool) list \<Rightarrow> terminal list \<times> bool" where
  "consume decode [] = ([], False)"
| "consume decode ((fx, done) # polls) =
     (let out = (if fx_Errors fx \<noteq> [] then map poll_error (fx_Errors fx)
                 else map (each_record decode) (fx_Records fx))
      in if done then (out, True)
         else (case consume decode polls of (rest, returned) \<Rightarrow> (out @ rest, returned)))"

definition consumer_options_for :: "getenv \<Rightarrow> consumer_options" where
  "consumer_options_for ge =
     \<lparr>kc_SeedBrokers = consumer_env ge ''KAFKA_BROKER'' ''localhost:9092'',
      kc_ConsumerGroup = consumer_env ge ''KAFKA_GROUP'' ''quickstart-consumer'',
      kc_ConsumeTopics = consumer_env ge ''KAFKA_TOPIC'' ''k8s.namespace.findings'',
      kc_AtStart = True\<rparr>"

text \<open>
  \<open>main\<close>: \<open>new_client\<close> gives the error of the constructor, if any; \<open>fetch\<close> is what a client with
  these options will answer.
\<close>

definition consumer_main ::
  "(consumer_options \<Rightarrow> string option) \<Rightarrow> (consumer_options \<Rightarrow> (fetches \<times> bool) list) \<Rightarrow>
   decoder \<Rightarrow> getenv \<Rightarrow> terminal list \<times> bool" where
  "consumer_main new_client fetch decode ge =
     (let opts = consumer_options_for ge in
      case new_client opts of
        Some err \<Rightarrow> ([Logged (''kafka client: '' @ err)], True)
      | None \<Rightarrow>
          (case consume decode (fetch opts) of
             (out, returned) \<Rightarrow> (Logged (''consuming topic='' @ kc_ConsumeTopics opts @ '' group='' @ kc_ConsumerGroup opts
                @ '' broker='' @ kc_SeedBrokers opts) # out, returned)))"

section \<open>What is printed\<close>




text \<open>An answer with an error prints nothing, whatever records came with it.\<close>

lemma errors_hide_records:
  "fx_Errors fx \<noteq> [] \<Longrightarrow>
   fst (consume decode ((fx, done) # polls)) = map poll_error (fx_Errors fx) @ (if done then [] else fst (consume decode polls))"
  by (simp add: Let_def split: prod.split)

section \<open>Properties\<close>





end
