(* ===== verification/Check_Facts.thy ===== *)
theory Check_Facts
  imports Resource_Usage
begin

text \<open>
  What the checks over the snapshot report. A rule set per family (\<open>pod_fault\<close> and its
  siblings) says declaratively what counts as a fault of the cluster; the loops of
  \<open>checks.go\<close> report these and nothing else.
\<close>

section \<open>Symptoms\<close>

text \<open>What identifies a finding within the namespace, and its score.\<close>

type_synonym symptom = "string \<times> string \<times> string \<times> string \<times> int"

definition symptom_of :: "Finding \<Rightarrow> symptom" where
  "symptom_of f = (f_Kind f, f_Name f, f_Check f, f_Reason f, f_Score f)"

lemma symptom_of_NewFinding [simp]:
  "symptom_of (NewFinding ns kind nm check reason score ev) = (kind, nm, check, reason, clampScore score)"
  by (simp add: symptom_of_def)

lemma symptom_of_matching [simp]:
  "symptom_of (f\<lparr>f_MatchingKubernetesEventFound := b\<rparr>) = symptom_of f"
  by (simp add: symptom_of_def)

definition symptoms :: "checkResult \<Rightarrow> symptom set" where
  "symptoms r = symptom_of ` set (cr_findings r)"

lemma symptoms_simps [simp]:
  "symptoms incomplete = {}" "symptoms (completed fs) = symptom_of ` set fs"
  by (simp_all add: symptoms_def incomplete_def completed_def)

lemma clamp_scores [simp]:
  "clampScore (scoreWaitingReason r) = scoreWaitingReason r" "clampScore (scoreEventReason r) = scoreEventReason r"
  by (simp_all add: clampScore_def scoreWaitingReason_def scoreEventReason_def)

lemma clamp_numerals [simp]:
  "clampScore 30 = 30" "clampScore 45 = 45" "clampScore 50 = 50" "clampScore 55 = 55" "clampScore 60 = 60"
  "clampScore 65 = 65" "clampScore 70 = 70" "clampScore 85 = 85"
  by (simp_all add: clampScore_def)

section \<open>What counts as a fault\<close>

text \<open>
  Restart counts are compared as numbers here; that the 32-bit sums of the code agree is
  part of the theorem. A pod is ready by its first condition of type Ready.
\<close>

definition restarts :: "'q pod \<Rightarrow> int" where
  "restarts pod = sum_list (map cs_RestartCount (pod_ContainerStatuses pod))"

definition ready :: "'q pod \<Rightarrow> bool" where
  "ready pod \<longleftrightarrow> (case find (\<lambda>c. co_Type c = ''Ready'') (pod_Conditions pod) of
     None \<Rightarrow> False | Some c \<Rightarrow> co_Status c = ''True'')"

inductive pod_fault :: "Config \<Rightarrow> 'q snapshot \<Rightarrow> 'q pod \<Rightarrow> symptom \<Rightarrow> bool" for cfg snap pod where
  pending: "pod_Phase pod = ''Pending'' \<Longrightarrow> 5 * minute < time_sub (sn_now snap) (pod_CreationTimestamp pod) \<Longrightarrow>
    pod_fault cfg snap pod (''Pod'', pod_Name pod, ''pod-health'', ''pending-too-long'', 55)"
| not_ready: "\<not> ready pod \<Longrightarrow> 5 * minute < time_sub (sn_now snap) (pod_CreationTimestamp pod) \<Longrightarrow>
    pod_fault cfg snap pod (''Pod'', pod_Name pod, ''pod-health'', ''not-ready'', 60)"
| waiting: "st \<in> set (pod_ContainerStatuses pod) \<Longrightarrow> cs_Waiting st = Some w \<Longrightarrow>
    wa_Reason w \<noteq> ''ContainerCreating'' \<Longrightarrow> wa_Reason w \<noteq> ''PodInitializing'' \<Longrightarrow>
    pod_fault cfg snap pod
      (''Pod'', pod_Name pod, ''pod-health'', normalizeReason (wa_Reason w), scoreWaitingReason (wa_Reason w))"
| oom: "st \<in> set (pod_ContainerStatuses pod) \<Longrightarrow> cs_LastTerminated st = Some ''OOMKilled'' \<Longrightarrow>
    pod_fault cfg snap pod (''Pod'', pod_Name pod, ''pod-health'', ''oom-killed'', 85)"
| restarting: "gm_get (sn_priorObservations snap) (restart_key (pod_Name pod)) = Some ob \<Longrightarrow>
    time_sub (sn_now snap) (ob_LastSeen ob) \<le> RestartWindow cfg \<Longrightarrow>
    ob_RestartCount ob + RestartWarningCount cfg \<le> restarts pod \<Longrightarrow>
    pod_fault cfg snap pod (''Pod'', pod_Name pod, ''restart-rate'', ''restarts-increased'', 65)"

definition lacks :: "'q deps \<Rightarrow> ('q resource_list \<Rightarrow> 'q) \<Rightarrow> 'q resource_list option \<Rightarrow> bool" where
  "lacks D what rl \<longleftrightarrow> (\<forall>r. rl = Some r \<longrightarrow> q_isZero D (what r))"

inductive spec_fault :: "'q deps \<Rightarrow> 'q pod \<Rightarrow> symptom \<Rightarrow> bool" for D pod where
  no_memory_request: "c \<in> set (pod_Containers pod) \<Longrightarrow> lacks D rl_memory (c_Requests c) \<Longrightarrow>
    spec_fault D pod (''Pod'', pod_Name pod @ ''/'' @ c_Name c, ''resource-spec'', ''missing-memory-request'', 45)"
| no_memory_limit: "c \<in> set (pod_Containers pod) \<Longrightarrow> lacks D rl_memory (c_Limits c) \<Longrightarrow>
    spec_fault D pod (''Pod'', pod_Name pod @ ''/'' @ c_Name c, ''resource-spec'', ''missing-memory-limit'', 45)"
| no_cpu_request: "c \<in> set (pod_Containers pod) \<Longrightarrow> lacks D rl_cpu (c_Requests c) \<Longrightarrow>
    spec_fault D pod (''Pod'', pod_Name pod @ ''/'' @ c_Name c, ''resource-spec'', ''missing-cpu-request'', 30)"

inductive event_fault :: "Config \<Rightarrow> time \<Rightarrow> event \<Rightarrow> symptom \<Rightarrow> bool" for cfg now ev where
  warning: "ev_Type ev = ''Warning'' \<Longrightarrow> time_sub now (eventLastSeen ev) \<le> EventLookback cfg \<Longrightarrow>
    event_fault cfg now ev
      (if ev_InvolvedKind ev = [] then ''Object'' else ev_InvolvedKind ev, ev_InvolvedName ev, ''event'',
       normalizeReason (ev_Reason ev), scoreEventReason (ev_Reason ev))"

text \<open>A workload without a replica count wants one replica.\<close>

inductive workload_fault :: "'q snapshot \<Rightarrow> symptom \<Rightarrow> bool" for snap where
  unavailable: "d \<in> set (sn_deployments snap) \<Longrightarrow>
    dep_AvailableReplicas d < (case dep_Replicas d of None \<Rightarrow> 1 | Some n \<Rightarrow> n) \<Longrightarrow> sn_deploymentsOK snap \<Longrightarrow>
    workload_fault snap (''Deployment'', dep_Name d, ''workload'', ''available-replicas-below-desired'', 65)"
| lagging: "d \<in> set (sn_deployments snap) \<Longrightarrow> dep_ObservedGeneration d < dep_Generation d \<Longrightarrow>
    sn_deploymentsOK snap \<Longrightarrow>
    workload_fault snap (''Deployment'', dep_Name d, ''workload'', ''generation-lag'', 50)"
| unready_set: "s \<in> set (sn_statefulSets snap) \<Longrightarrow>
    sts_ReadyReplicas s < (case sts_Replicas s of None \<Rightarrow> 1 | Some n \<Rightarrow> n) \<Longrightarrow> sn_statefulSetsOK snap \<Longrightarrow>
    workload_fault snap (''StatefulSet'', sts_Name s, ''workload'', ''ready-replicas-below-desired'', 65)"
| unready_daemon: "d \<in> set (sn_daemonSets snap) \<Longrightarrow> ds_NumberReady d < ds_DesiredNumberScheduled d \<Longrightarrow>
    sn_daemonSetsOK snap \<Longrightarrow>
    workload_fault snap (''DaemonSet'', ds_Name d, ''workload'', ''ready-pods-below-desired'', 65)"

inductive service_fault :: "'q deps \<Rightarrow> 'q pod list \<Rightarrow> service \<Rightarrow> symptom \<Rightarrow> bool" for D pods svc where
  no_ingress: "svc_Type svc = ''LoadBalancer'' \<Longrightarrow> svc_Ingress svc = [] \<Longrightarrow>
    service_fault D pods svc (''Service'', svc_Name svc, ''service'', ''load-balancer-pending'', 55)"
| no_pods: "svc_Type svc \<noteq> ''ExternalName'' \<Longrightarrow> svc_Selector svc \<noteq> [] \<Longrightarrow>
    (\<forall>pod \<in> set pods. live pod \<longrightarrow> \<not> sel_matches D (svc_Selector svc) (pod_Labels pod)) \<Longrightarrow>
    service_fault D pods svc (''Service'', svc_Name svc, ''service'', ''selector-matches-no-pods'', 60)"

inductive claim_fault :: "pvc \<Rightarrow> symptom \<Rightarrow> bool" for p where
  unbound: "pvc_Phase p = ''Pending'' \<Longrightarrow>
    claim_fault p (''PersistentVolumeClaim'', pvc_Name p, ''pvc'', ''pending'', 60)"
| lost: "pvc_Phase p = ''Lost'' \<Longrightarrow> claim_fault p (''PersistentVolumeClaim'', pvc_Name p, ''pvc'', ''lost'', 85)"
| condition: "c \<in> set (pvc_Conditions p) \<Longrightarrow> co_Status c = ''True'' \<Longrightarrow>
    claim_fault p (''PersistentVolumeClaim'', pvc_Name p, ''pvc'', ''condition-'' @ normalizeReason (co_Type c) @ ''-true'', 55)"

inductive scaling_fault :: "hpa \<Rightarrow> symptom \<Rightarrow> bool" for h where
  inactive: "c \<in> set (hpa_Conditions h) \<Longrightarrow> co_Type c = ''ScalingActive'' \<Longrightarrow> co_Status c = ''False'' \<Longrightarrow>
    scaling_fault h (''HorizontalPodAutoscaler'', hpa_Name h, ''scaling'', ''scaling-active-false'', 70)"
| unable: "c \<in> set (hpa_Conditions h) \<Longrightarrow> co_Type c = ''AbleToScale'' \<Longrightarrow> co_Status c = ''False'' \<Longrightarrow>
    scaling_fault h (''HorizontalPodAutoscaler'', hpa_Name h, ''scaling'', ''able-to-scale-false'', 65)"
| limited: "c \<in> set (hpa_Conditions h) \<Longrightarrow> co_Type c = ''ScalingLimited'' \<Longrightarrow> co_Status c = ''True'' \<Longrightarrow>
    scaling_fault h (''HorizontalPodAutoscaler'', hpa_Name h, ''scaling'', ''scaling-limited'', 55)"
| exhausted: "hpa_MaxReplicas h \<le> hpa_CurrentReplicas h \<Longrightarrow> hpa_MaxReplicas h \<le> hpa_DesiredReplicas h \<Longrightarrow>
    scaling_fault h (''HorizontalPodAutoscaler'', hpa_Name h, ''scaling'', ''max-replicas-reached'', 65)"
| behind: "hpa_CurrentReplicas h < hpa_DesiredReplicas h \<Longrightarrow>
    scaling_fault h (''HorizontalPodAutoscaler'', hpa_Name h, ''scaling'', ''desired-replicas-above-current'', 55)"

lemmas faults = pod_fault.simps spec_fault.simps event_fault.simps workload_fault.simps
  service_fault.simps claim_fault.simps scaling_fault.simps

section \<open>The loops find the faults\<close>

lemma podReady_ready: "podReady pod = ready pod"
proof -
  have "ready_condition cs = (case find (\<lambda>c. co_Type c = ''Ready'') cs of None \<Rightarrow> False | Some c \<Rightarrow> co_Status c = ''True'')" for cs
    by (induction cs) simp_all
  then show ?thesis by (simp add: podReady_def ready_def)
qed

lemma waiting_score: "0 < scoreWaitingReason r \<longleftrightarrow> r \<noteq> ''ContainerCreating'' \<and> r \<noteq> ''PodInitializing''"
  by (simp add: scoreWaitingReason_def)

text \<open>The 32-bit sum is the sum while it fits.\<close>

lemma wrapped_sum:
  assumes "list_all (\<lambda>n. 0 \<le> n) ns" and "0 \<le> t" and "t + sum_list ns \<le> 2147483647"
  shows "foldl (\<lambda>t n. wrap32 (t + n)) t ns = t + sum_list ns"
  using assms
proof (induction ns arbitrary: t)
  case (Cons n ns)
  have "0 \<le> sum_list ns" using Cons.prems(1) by (auto simp: list_all_iff intro: sum_list_nonneg)
  with Cons show ?case by (simp add: int32_range_def)
qed simp

definition restarts_fit :: "'q snapshot \<Rightarrow> bool" where
  "restarts_fit snap \<longleftrightarrow>
     list_all (\<lambda>pod. list_all (\<lambda>st. 0 \<le> cs_RestartCount st) (pod_ContainerStatuses pod) \<and> restarts pod \<le> 2147483647)
       (sn_pods snap) \<and>
     list_all (\<lambda>kv. 0 \<le> ob_RestartCount (snd kv) \<and> ob_RestartCount (snd kv) \<le> 2147483647) (sn_priorObservations snap)"

lemma total_restarts_fit:
  assumes "restarts_fit snap" and "pod \<in> set (sn_pods snap)"
  shows "total_restarts (pod_ContainerStatuses pod) = restarts pod" "0 \<le> restarts pod" "restarts pod \<le> 2147483647"
proof -
  let ?ns = "map cs_RestartCount (pod_ContainerStatuses pod)"
  have fit: "list_all (\<lambda>n. 0 \<le> n) ?ns" "sum_list ?ns \<le> 2147483647"
    using assms by (auto simp: restarts_fit_def restarts_def list_all_iff)
  have "0 \<le> sum_list ?ns" using fit(1) by (intro sum_list_nonneg) (auto simp: list_all_iff)
  with fit(2) show "0 \<le> restarts pod" "restarts pod \<le> 2147483647" by (simp_all add: restarts_def)
  have "total_restarts sts = foldl (\<lambda>t n. wrap32 (t + n)) 0 (map cs_RestartCount sts)" for sts
    by (simp add: total_restarts_def foldl_map)
  with wrapped_sum[OF fit(1), of 0] fit(2) show "total_restarts (pod_ContainerStatuses pod) = restarts pod"
    by (simp add: restarts_def)
qed

lemma prior_fits:
  assumes "restarts_fit snap" and "gm_get (sn_priorObservations snap) k = Some ob"
  shows "0 \<le> ob_RestartCount ob" "ob_RestartCount ob \<le> 2147483647"
  using assms map_of_SomeD[of "sn_priorObservations snap" k ob]
  by (auto simp: restarts_fit_def list_all_iff gm_get_def)

lemma mem_symptoms:
  "s \<in> symptom_of ` set [] \<longleftrightarrow> False"
  "s \<in> symptom_of ` set (f # fs) \<longleftrightarrow> s = symptom_of f \<or> s \<in> symptom_of ` set fs"
  "s \<in> symptom_of ` set (fs @ gs) \<longleftrightarrow> s \<in> symptom_of ` set fs \<or> s \<in> symptom_of ` set gs"
  "s \<in> symptom_of ` set (if b then fs else gs) \<longleftrightarrow> b \<and> s \<in> symptom_of ` set fs \<or> \<not> b \<and> s \<in> symptom_of ` set gs"
  "s \<in> symptom_of ` set (concat (map g xs)) \<longleftrightarrow> (\<exists>x \<in> set xs. s \<in> symptom_of ` set (g x))"
  by auto

lemma status_symptoms:
  "s \<in> symptom_of ` set (status_findings ns nm st) \<longleftrightarrow>
     (\<exists>w. cs_Waiting st = Some w \<and> wa_Reason w \<noteq> ''ContainerCreating'' \<and> wa_Reason w \<noteq> ''PodInitializing'' \<and>
        s = (''Pod'', nm, ''pod-health'', normalizeReason (wa_Reason w), scoreWaitingReason (wa_Reason w))) \<or>
     cs_LastTerminated st = Some ''OOMKilled'' \<and> s = (''Pod'', nm, ''pod-health'', ''oom-killed'', 85)"
  unfolding status_findings_def Let_def mem_symptoms by (cases "cs_Waiting st") (auto simp: mem_symptoms waiting_score simp del: set_simps)

lemma restart_symptoms:
  assumes "restarts_fit snap" and "pod \<in> set (sn_pods snap)"
  shows "s \<in> symptom_of ` set (restart_findings cfg snap (pod_Name pod) (total_restarts (pod_ContainerStatuses pod))) \<longleftrightarrow>
    (\<exists>ob. gm_get (sn_priorObservations snap) (restart_key (pod_Name pod)) = Some ob \<and>
       time_sub (sn_now snap) (ob_LastSeen ob) \<le> RestartWindow cfg \<and>
       ob_RestartCount ob + RestartWarningCount cfg \<le> restarts pod \<and>
       s = (''Pod'', pod_Name pod, ''restart-rate'', ''restarts-increased'', 65))"
proof (cases "gm_get (sn_priorObservations snap) (restart_key (pod_Name pod))")
  case None
  then show ?thesis by (simp add: restart_findings_def)
next
  case (Some ob)
  note fit = total_restarts_fit[OF assms] prior_fits[OF assms(1) Some]
  then have "wrap32 (restarts pod - ob_RestartCount ob) = restarts pod - ob_RestartCount ob"
    by (intro wrap32_id) (simp add: int32_range_def)
  with Some fit(1) show ?thesis by (auto simp: restart_findings_def Let_def)
qed

text \<open>The symptoms of one object, family by family.\<close>

lemma pod_symptoms:
  assumes "restarts_fit snap" and "pod \<in> set (sn_pods snap)"
  shows "s \<in> symptom_of ` set (pod_findings cfg snap pod) \<longleftrightarrow> pod_fault cfg snap pod s"
proof -
  have eq: "s \<in> symptom_of ` set (pod_findings cfg snap pod) \<longleftrightarrow>
      (pod_Phase pod = ''Pending'' \<and> 5 * minute < time_sub (sn_now snap) (pod_CreationTimestamp pod) \<and>
         s = (''Pod'', pod_Name pod, ''pod-health'', ''pending-too-long'', 55)) \<or>
      (\<not> ready pod \<and> 5 * minute < time_sub (sn_now snap) (pod_CreationTimestamp pod) \<and>
         s = (''Pod'', pod_Name pod, ''pod-health'', ''not-ready'', 60)) \<or>
      (\<exists>st \<in> set (pod_ContainerStatuses pod). s \<in> symptom_of ` set (status_findings (Namespace cfg) (pod_Name pod) st)) \<or>
      s \<in> symptom_of ` set (restart_findings cfg snap (pod_Name pod) (total_restarts (pod_ContainerStatuses pod)))"
    unfolding pod_findings_def Let_def mem_symptoms podReady_ready symptom_of_NewFinding clamp_numerals by argo
  show ?thesis
  proof
    show "pod_fault cfg snap pod s" if "s \<in> symptom_of ` set (pod_findings cfg snap pod)"
      using that unfolding eq restart_symptoms[OF assms] status_symptoms
      by (elim disjE conjE exE bexE) (simp_all add: pod_fault.intros)
    show "s \<in> symptom_of ` set (pod_findings cfg snap pod)" if "pod_fault cfg snap pod s"
      using that by (cases rule: pod_fault.cases) (unfold eq restart_symptoms[OF assms] status_symptoms, simp_all, blast+)
  qed
qed

lemma spec_symptoms:
  "s \<in> symptom_of ` set (checkPodResourceSpecs D cfg pod) \<longleftrightarrow> spec_fault D pod s"
proof -
  have lacks: "(case rl of None \<Rightarrow> True | Some r \<Rightarrow> q_isZero D (what r)) = lacks D what rl"
    for rl and what :: "'a resource_list \<Rightarrow> 'a"
    by (cases rl) (simp_all add: lacks_def)
  show ?thesis
    unfolding checkPodResourceSpecs_def container_spec_findings_def Let_def mem_symptoms spec_fault.simps lacks
      symptom_of_NewFinding clamp_numerals by blast
qed

lemma event_symptoms: "s \<in> symptom_of ` set (event_findings D cfg now ev) \<longleftrightarrow> event_fault cfg now ev s"
  unfolding event_findings_def Let_def mem_symptoms event_fault.simps symptom_of_matching symptom_of_NewFinding clamp_scores
  by (simp add: not_less) blast

lemma countLive_Cons:
  "countLiveMatchingPods D (pod # ps) sel =
     countLiveMatchingPods D ps sel + (if live pod \<and> sel_matches D sel (pod_Labels pod) then 1 else 0)"
proof -
  let ?g = "\<lambda>n pod. if \<not> live pod then n else if sel_matches D sel (pod_Labels pod) then n + 1 else n"
  have "foldl ?g (k + j) ps = foldl ?g k ps + j" for k j :: int
  proof (induction ps arbitrary: k)
    case (Cons p ps)
    from Cons.IH[of "?g k p"] show ?case by (auto simp: add_ac)
  qed simp
  from this[of 0 1] show ?thesis by (simp add: countLiveMatchingPods_def)
qed

lemma countLive_zero:
  "countLiveMatchingPods D ps sel = 0 \<longleftrightarrow>
     (\<forall>pod \<in> set ps. live pod \<longrightarrow> \<not> sel_matches D sel (pod_Labels pod))"
proof -
  have pos: "0 \<le> countLiveMatchingPods D ps sel" for ps
    by (induction ps) (simp_all add: countLive_Cons, simp add: countLiveMatchingPods_def)
  show ?thesis
  proof (induction ps)
    case (Cons p ps)
    with pos[of ps] show ?case by (auto simp: countLive_Cons)
  qed (simp add: countLiveMatchingPods_def)
qed

lemma service_symptoms:
  "s \<in> symptom_of ` set (service_findings D cfg pods svc) \<longleftrightarrow>
     svc_DeletionTimestamp svc = None \<and> service_fault D pods svc s"
proof (cases "svc_DeletionTimestamp svc = None")
  case True
  then show ?thesis
    unfolding service_findings_def mem_symptoms service_fault.simps countLive_zero symptom_of_NewFinding clamp_numerals
    by auto
next
  case False
  then show ?thesis by (simp add: service_findings_def)
qed

lemma claim_symptoms:
  "s \<in> symptom_of ` set (pvc_findings cfg p) \<longleftrightarrow> pvc_DeletionTimestamp p = None \<and> claim_fault p s"
proof -
  have "''Lost'' \<noteq> ''Pending''" by simp
  then show ?thesis
    unfolding pvc_findings_def pvc_condition_findings_def mem_symptoms claim_fault.simps symptom_of_NewFinding clamp_numerals
    by (metis (no_types, lifting))
qed

lemma hpa_condition_symptoms:
  "s \<in> symptom_of ` set (hpa_condition_findings ns nm c) \<longleftrightarrow>
     co_Type c = ''ScalingActive'' \<and> co_Status c = ''False'' \<and>
       s = (''HorizontalPodAutoscaler'', nm, ''scaling'', ''scaling-active-false'', 70) \<or>
     co_Type c = ''AbleToScale'' \<and> co_Status c = ''False'' \<and>
       s = (''HorizontalPodAutoscaler'', nm, ''scaling'', ''able-to-scale-false'', 65) \<or>
     co_Type c = ''ScalingLimited'' \<and> co_Status c = ''True'' \<and>
       s = (''HorizontalPodAutoscaler'', nm, ''scaling'', ''scaling-limited'', 55)"
proof -
  have "''AbleToScale'' \<noteq> ''ScalingActive''" "''ScalingLimited'' \<noteq> ''ScalingActive''" "''ScalingLimited'' \<noteq> ''AbleToScale''"
    by simp_all
  then show ?thesis
    unfolding hpa_condition_findings_def Let_def mem_symptoms symptom_of_NewFinding clamp_numerals
    by metis
qed

lemma scaling_symptoms: "s \<in> symptom_of ` set (hpaFindings ns h) \<longleftrightarrow> scaling_fault h s"
proof -
  note eqs = hpaFindings_def mem_symptoms hpa_condition_symptoms symptom_of_NewFinding clamp_numerals
  show ?thesis
  proof
    show "scaling_fault h s" if "s \<in> symptom_of ` set (hpaFindings ns h)"
      using that unfolding eqs by (elim disjE conjE exE bexE) (simp_all add: scaling_fault.intros)
    show "s \<in> symptom_of ` set (hpaFindings ns h)" if "scaling_fault h s"
      using that by (cases rule: scaling_fault.cases) (unfold eqs, simp_all, blast+)
  qed
qed

lemma workload_symptoms: "s \<in> symptoms (snd (checkWorkloads cfg snap)) \<longleftrightarrow> workload_fault snap s"
proof -
  have eq: "cr_findings (snd (checkWorkloads cfg snap)) =
      (if sn_deploymentsOK snap then concat (map (deploymentFindings (Namespace cfg)) (sn_deployments snap)) else []) @
      (if sn_statefulSetsOK snap then concat (map (statefulset_findings (Namespace cfg)) (sn_statefulSets snap)) else []) @
      (if sn_daemonSetsOK snap then concat (map (daemonset_findings (Namespace cfg)) (sn_daemonSets snap)) else [])"
    by (simp add: checkWorkloads_def Let_def)
  note eqs = symptoms_def eq deploymentFindings_def statefulset_findings_def daemonset_findings_def Let_def mem_symptoms
    symptom_of_NewFinding clamp_numerals
  show ?thesis
  proof
    show "workload_fault snap s" if "s \<in> symptoms (snd (checkWorkloads cfg snap))"
      using that unfolding eqs by (elim disjE conjE exE bexE) (simp_all add: workload_fault.intros)
    show "s \<in> symptoms (snd (checkWorkloads cfg snap))" if "workload_fault snap s"
      using that by (cases rule: workload_fault.cases) (unfold eqs, simp_all, blast+)
  qed
qed

lemma pods_findings: "cr_findings (snd (checkPods cfg snap)) =
  (if sn_podsOK snap then concat (map (pod_findings cfg snap) (filter live (sn_pods snap))) else [])"
proof -
  have "fst (fold (check_pod cfg snap) pods (fs, obs)) = fs @ concat (map (pod_findings cfg snap) (filter live pods))" for pods fs obs
    by (induction pods arbitrary: fs obs) (simp_all add: check_pod_def)
  from this[of "sn_pods snap" "[]" "[]"] show ?thesis
    by (auto simp: checkPods_def incomplete_def split: prod.split)
qed

lemma symptoms_concat:
  "symptoms (completed (concat (map g xs))) = {s. \<exists>x \<in> set xs. s \<in> symptom_of ` set (g x)}"
  by auto

lemma mem_unless: "s \<in> symptom_of ` set (if b then [] else fs) \<longleftrightarrow> \<not> b \<and> s \<in> symptom_of ` set fs"
  by simp

lemmas family_symptoms = symptoms_concat mem_unless spec_symptoms event_symptoms service_symptoms claim_symptoms
  scaling_symptoms

lemma pods_symptoms:
  assumes "restarts_fit snap"
  shows "symptoms (snd (checkPods cfg snap)) =
    {s. sn_podsOK snap \<and> (\<exists>pod \<in> set (sn_pods snap). live pod \<and> pod_fault cfg snap pod s)}"
proof (intro set_eqI)
  fix s
  show "s \<in> symptoms (snd (checkPods cfg snap)) \<longleftrightarrow>
      s \<in> {s. sn_podsOK snap \<and> (\<exists>pod \<in> set (sn_pods snap). live pod \<and> pod_fault cfg snap pod s)}"
    unfolding symptoms_def pods_findings mem_symptoms mem_Collect_eq
    using pod_symptoms[OF assms, of _ s cfg] by auto
qed

section \<open>Terminating pods\<close>

definition without_terminating :: "'q snapshot \<Rightarrow> 'q snapshot" where
  "without_terminating snap = snap\<lparr>sn_pods := filter live (sn_pods snap)\<rparr>"

lemma without_terminating_sel [simp]:
  "sn_pods (without_terminating snap) = filter live (sn_pods snap)"
  "sn_podsOK (without_terminating snap) = sn_podsOK snap" "sn_now (without_terminating snap) = sn_now snap"
  "sn_services (without_terminating snap) = sn_services snap" "sn_servicesOK (without_terminating snap) = sn_servicesOK snap"
  "sn_priorObservations (without_terminating snap) = sn_priorObservations snap"
  by (simp_all add: without_terminating_def)

lemma fold_live:
  assumes "\<And>pod acc. \<not> live pod \<Longrightarrow> g pod acc = acc"
  shows "fold g (filter live pods) acc = fold g pods acc"
  using assms by (induction pods arbitrary: acc) simp_all

lemma concat_live:
  assumes "\<And>pod. \<not> live pod \<Longrightarrow> g pod = []"
  shows "concat (map g (filter live pods)) = concat (map g pods)"
  using assms by (induction pods) simp_all

lemma check_pod_prior: "check_pod cfg (without_terminating snap) = check_pod cfg snap"
  unfolding check_pod_def pod_findings_def restart_findings_def without_terminating_sel ..

lemma usage_step_prior: "usage_step D cfg (without_terminating snap) = usage_step D cfg snap"
  unfolding usage_step_def without_terminating_sel ..

lemma service_findings_live: "service_findings D cfg (filter live pods) = service_findings D cfg pods"
proof -
  have "countLiveMatchingPods D (filter live pods) sel = countLiveMatchingPods D pods sel" for sel
    by (induction pods) (simp_all add: countLive_Cons)
  then show ?thesis by (intro ext) (simp add: service_findings_def)
qed

text \<open>When the families are complete, from their contract.\<close>

lemmas completes = pods_family.complete_iff specs_family.complete_iff logs_family.complete_iff
  events_family.complete_iff workloads_family.complete_iff services_family.complete_iff
  pvcs_family.complete_iff scaling_family.complete_iff

section \<open>Properties\<close>

text \<open>
  C4. The checks report exactly the faults of the cluster. Whenever the restart counts fit
  their 32 bits, the symptoms each family reports (kind, name, check, reason and score) are
  those of the declarative rules, over the live objects for the families that skip objects
  being deleted, and nothing when the listing the family needs is missing.
\<close>

theorem checks_report_faults:
  assumes "restarts_fit snap"
  shows "symptoms (snd (checkPods cfg snap)) =
      {s. sn_podsOK snap \<and> (\<exists>pod \<in> set (sn_pods snap). live pod \<and> pod_fault cfg snap pod s)} \<and>
    symptoms (snd (checkResourceSpecs D cfg snap)) =
      {s. sn_podsOK snap \<and> (\<exists>pod \<in> set (sn_pods snap). live pod \<and> spec_fault D pod s)} \<and>
    symptoms (snd (checkEvents D cfg snap)) =
      {s. sn_eventsOK snap \<and> (\<exists>ev \<in> set (sn_events snap). event_fault cfg (sn_now snap) ev s)} \<and>
    symptoms (snd (checkWorkloads cfg snap)) = {s. workload_fault snap s} \<and>
    symptoms (snd (checkServices D cfg snap)) =
      {s. sn_servicesOK snap \<and> sn_podsOK snap \<and>
          (\<exists>svc \<in> set (sn_services snap). svc_DeletionTimestamp svc = None \<and> service_fault D (sn_pods snap) svc s)} \<and>
    symptoms (snd (checkPVCs cfg snap)) =
      {s. sn_pvcsOK snap \<and> (\<exists>p \<in> set (sn_pvcs snap). pvc_DeletionTimestamp p = None \<and> claim_fault p s)} \<and>
    symptoms (snd (checkScaling cfg snap)) =
      {s. sn_hpasOK snap \<and> (\<exists>h \<in> set (sn_hpas snap). hpa_DeletionTimestamp h = None \<and> scaling_fault h s)}"
  apply (intro conjI)
  subgoal by (rule pods_symptoms[OF assms])
  subgoal by (simp add: checkResourceSpecs_def family_symptoms del: symptoms_simps(2))
  subgoal by (simp add: checkEvents_def family_symptoms del: symptoms_simps(2))
  subgoal by (simp add: workload_symptoms set_eq_iff)
  subgoal by (cases "sn_servicesOK snap"; cases "sn_podsOK snap") (simp_all add: checkServices_def family_symptoms del: symptoms_simps(2))
  subgoal by (simp add: checkPVCs_def family_symptoms del: symptoms_simps(2))
  subgoal by (simp add: checkScaling_def family_symptoms del: symptoms_simps(2))
  done

text \<open>A pod that ran to completion ten minutes ago.\<close>

definition done_pod :: "int pod" where
  "done_pod = \<lparr>pod_Name = ''job'', pod_Labels = [], pod_CreationTimestamp = 0, pod_DeletionTimestamp = None,
     pod_Phase = ''Succeeded'',
     pod_Conditions = [\<lparr>co_Type = ''Ready'', co_Status = ''False'', co_Reason = ''PodCompleted'', co_Message = []\<rparr>],
     pod_ContainerStatuses = [], pod_Containers = []\<rparr>"

definition done_snapshot :: "int snapshot" where
  "done_snapshot = (empty_snapshot (10 * minute) [])\<lparr>sn_pods := [done_pod], sn_podsOK := True\<rparr>"

theorem checks_report_faults_witness:
  "(''Pod'', ''job'', ''pod-health'', ''not-ready'', 60) \<in> symptoms (snd (checkPods (LoadConfig (\<lambda>_. [])) done_snapshot))"
proof -
  have "restarts_fit done_snapshot"
    by (simp add: done_snapshot_def done_pod_def restarts_fit_def restarts_def empty_snapshot_def)
  moreover have "live done_pod" by (simp add: live_def done_pod_def)
  moreover have "pod_fault (LoadConfig (\<lambda>_. [])) done_snapshot done_pod (''Pod'', ''job'', ''pod-health'', ''not-ready'', 60)"
    using pod_fault.not_ready[of done_pod done_snapshot]
    by (simp add: done_snapshot_def done_pod_def ready_def empty_snapshot_def time_sub_def minute_def second_def)
  moreover have "sn_podsOK done_snapshot" "done_pod \<in> set (sn_pods done_snapshot)" by (simp_all add: done_snapshot_def)
  ultimately show ?thesis using checks_report_faults[of done_snapshot "LoadConfig (\<lambda>_. [])" int_deps] by blast
qed

text \<open>
  C29. A pod that is being deleted has no influence on any check: on the snapshot without such
  pods every check that reads pods returns the same result and the same counters.
\<close>

theorem terminating_pods_invisible:
  "checkPods cfg (without_terminating snap) = checkPods cfg snap \<and>
   checkResourceSpecs D cfg (without_terminating snap) = checkResourceSpecs D cfg snap \<and>
   checkServices D cfg (without_terminating snap) = checkServices D cfg snap \<and>
   checkLogs logs cfg (without_terminating snap) = checkLogs logs cfg snap \<and>
   checkResourceUsage D metrics cfg (without_terminating snap) = checkResourceUsage D metrics cfg snap"
proof -
  have limits: "mem_limits D (filter live pods) = mem_limits D pods" for pods
    unfolding mem_limits_def by (rule fold_live) simp
  have pods: "fold (check_pod cfg snap) (filter live pods) acc = fold (check_pod cfg snap) pods acc" for pods acc
    by (rule fold_live) (simp add: check_pod_def)
  have "checkResourceUsage D metrics cfg (without_terminating snap) = checkResourceUsage D metrics cfg snap"
    unfolding checkResourceUsage_def without_terminating_sel usage_step_prior limits ..
  then show ?thesis
    by (simp add: checkPods_def checkResourceSpecs_def checkServices_def checkLogs_def
        check_pod_prior pods service_findings_live concat_live)
qed

text \<open>
  C15. An enabled check is complete exactly if the lists it reads were answered and the listing
  met its deadline; a listing that misses its deadline leaves no check complete that reads
  it, whatever had arrived by then. (The check on resource usage needs the answer of its
  own API besides, and has nothing to do without a metrics client.) Each of the eight lists
  of the snapshot that is marked as read is the list the API answered.
\<close>

theorem check_complete_iff_listed:
  fixes ans :: "'q listing"
  assumes "snap = buildSnapshot cfg state now ans finished" and "in_time \<longleftrightarrow> CheckTimeout cfg \<le> 0 \<or> finished"
  shows
    "(Pods (Checks cfg) \<longrightarrow> cr_complete (snd (checkPods cfg snap)) = (in_time \<and> li_pods ans \<noteq> None)) \<and>
     (ResourceSpecs (Checks cfg) \<longrightarrow> cr_complete (snd (checkResourceSpecs D cfg snap)) = (in_time \<and> li_pods ans \<noteq> None)) \<and>
     (Logs (Checks cfg) \<longrightarrow> cr_complete (snd (checkLogs logs cfg snap)) = (in_time \<and> li_pods ans \<noteq> None)) \<and>
     (Events (Checks cfg) \<longrightarrow> cr_complete (snd (checkEvents D cfg snap)) = (in_time \<and> li_events ans \<noteq> None)) \<and>
     (Workloads (Checks cfg) \<longrightarrow> cr_complete (snd (checkWorkloads cfg snap)) =
        (in_time \<and> li_deployments ans \<noteq> None \<and> li_statefulSets ans \<noteq> None \<and> li_daemonSets ans \<noteq> None)) \<and>
     (Services (Checks cfg) \<longrightarrow> cr_complete (snd (checkServices D cfg snap)) =
        (in_time \<and> li_services ans \<noteq> None \<and> li_pods ans \<noteq> None)) \<and>
     (PVCs (Checks cfg) \<longrightarrow> cr_complete (snd (checkPVCs cfg snap)) = (in_time \<and> li_pvcs ans \<noteq> None)) \<and>
     (Scaling (Checks cfg) \<longrightarrow> cr_complete (snd (checkScaling cfg snap)) = (in_time \<and> li_hpas ans \<noteq> None)) \<and>
     (ResourceUsage (Checks cfg) \<longrightarrow> cr_complete (snd (checkResourceUsage D metrics cfg snap)) =
        (case metrics of None \<Rightarrow> True | Some None \<Rightarrow> False | Some (Some items) \<Rightarrow> in_time \<and> li_pods ans \<noteq> None)) \<and>
     (sn_podsOK snap \<longrightarrow> li_pods ans = Some (sn_pods snap)) \<and>
     (sn_eventsOK snap \<longrightarrow> li_events ans = Some (sn_events snap)) \<and>
     (sn_deploymentsOK snap \<longrightarrow> li_deployments ans = Some (sn_deployments snap)) \<and>
     (sn_statefulSetsOK snap \<longrightarrow> li_statefulSets ans = Some (sn_statefulSets snap)) \<and>
     (sn_daemonSetsOK snap \<longrightarrow> li_daemonSets ans = Some (sn_daemonSets snap)) \<and>
     (sn_servicesOK snap \<longrightarrow> li_services ans = Some (sn_services snap)) \<and>
     (sn_pvcsOK snap \<longrightarrow> li_pvcs ans = Some (sn_pvcs snap)) \<and>
     (sn_hpasOK snap \<longrightarrow> li_hpas ans = Some (sn_hpas snap))"
proof (cases in_time)
  case True
  then have snap: "snap = listSnapshot (Checks cfg) ans (empty_snapshot now (prior_observations (ms_Observations state)))"
    using assms by (auto simp: buildSnapshot_def Let_def)
  have "(sn_podsOK snap \<longrightarrow> li_pods ans = Some (sn_pods snap)) \<and>
     (sn_eventsOK snap \<longrightarrow> li_events ans = Some (sn_events snap)) \<and>
     (sn_deploymentsOK snap \<longrightarrow> li_deployments ans = Some (sn_deployments snap)) \<and>
     (sn_statefulSetsOK snap \<longrightarrow> li_statefulSets ans = Some (sn_statefulSets snap)) \<and>
     (sn_daemonSetsOK snap \<longrightarrow> li_daemonSets ans = Some (sn_daemonSets snap)) \<and>
     (sn_servicesOK snap \<longrightarrow> li_services ans = Some (sn_services snap)) \<and>
     (sn_pvcsOK snap \<longrightarrow> li_pvcs ans = Some (sn_pvcs snap)) \<and>
     (sn_hpasOK snap \<longrightarrow> li_hpas ans = Some (sn_hpas snap))"
    by (auto simp: snap listSnapshot_def empty_snapshot_def)
  with True show ?thesis
    by (simp add: completes usage_family.complete_iff snap listSnapshot_flags needs_pods_def split: option.split)
next
  case False
  then have snap: "snap = empty_snapshot now (prior_observations (ms_Observations state))"
    using assms by (auto simp: buildSnapshot_def Let_def)
  show ?thesis
    using False by (simp add: completes usage_family.complete_iff snap empty_snapshot_def split: option.split)
qed

theorem check_complete_iff_listed_witness:
  "\<not> cr_complete (snd (checkServices int_deps (LoadConfig (\<lambda>_. []))
      (buildSnapshot (LoadConfig (\<lambda>_. [])) (newMonitorState ''ns'') 0 (\<lparr>li_pods = None, li_events = Some [],
        li_deployments = Some [], li_statefulSets = Some [], li_daemonSets = Some [], li_services = Some [],
        li_pvcs = Some [], li_hpas = Some []\<rparr> :: int listing) True)))"
proof -
  have "Services (Checks (LoadConfig (\<lambda>_. [])))"
    by (simp add: LoadConfig_def Let_def LoadChecks_def boolEnvDefaultOn_def to_lower_def trim_space_def)
  with check_complete_iff_listed[OF refl refl, of "LoadConfig (\<lambda>_. [])" "newMonitorState ''ns''" 0 _ True int_deps]
  show ?thesis by simp
qed

end
