(* ===== verification/Restart_Rate.thy ===== *)
theory Restart_Rate
  imports Check_Facts Poll_Trace
begin

text \<open>
  The restart detector over two whole polls: the first poll stores the restart counts it saw,
  the second compares with them. What decides is the difference between these two polls
  alone, as long as pruning did not delete the stored count in between.
\<close>

section \<open>What a result leaves in the observations\<close>

lemma gm_wf_permute: "gm_wf (permute code m) = gm_wf m"
  by (simp add: gm_wf_def distinct_map)

lemma get_merged:
  assumes "gm_wf kvs" and "gm_wf (observations m)"
  shows "gm_wf (observations (fold merge_observation kvs m)) \<and>
    gm_get (observations (fold merge_observation kvs m)) k =
      (case gm_get kvs k of None \<Rightarrow> gm_get (observations m) k | Some ob \<Rightarrow> Some (Some ob))"
  using assms
proof (induction kvs arbitrary: m)
  case (Cons kv kvs)
  obtain k1 ob1 where kv: "kv = (k1, ob1)" by (cases kv)
  from Cons.prems(1) have new: "gm_wf kvs" "gm_get kvs k1 = None"
    by (simp_all add: kv gm_wf_def gm_get_def map_of_eq_None_iff)
  have "gm_wf (observations (merge_observation kv m))" using Cons.prems(2) by (simp add: go_map_simps)
  from Cons.IH[OF new(1) this] new(2) Cons.prems(2) show ?case
    by (auto simp: kv go_map_simps split: option.split)
qed simp

lemma collectFindings_observations:
  fixes rt :: "('q, 'w) runtime"
  assumes "collectFindings rt cfg fs now (m, active) = Some s'"
  shows "observations (fst s') = observations m"
proof -
  have "observations (fst s') = observations (fst (m, active))"
    using assms unfolding collectFindings_def
  proof (rule foldM_relates[where R = "\<lambda>s s'. observations (fst s') = observations (fst s)"])
    fix f and s t :: "'w monitor \<times> (string, Finding) go_map"
    assume "collect_finding rt cfg now f s = Some t"
    then show "observations (fst t) = observations (fst s)"
      using collect_frame[of rt cfg now f "fst s" "snd s" "fst t" "snd t"] by simp
  qed auto
  then show ?thesis by simp
qed

lemma applyResult_observations:
  assumes "applyResult rt cfg res now (m, active) = Some (m', active')"
    and "gm_wf (cr_observations res)" and "gm_wf (observations m)"
  shows "gm_wf (observations m') \<and> gm_get (observations m') k =
    (case gm_get (cr_observations res) k of None \<Rightarrow> gm_get (observations m) k | Some ob \<Rightarrow> Some (Some ob))"
proof -
  obtain code m1 where a: "ask (rt_order rt) m = (code, m1)" by (cases "ask (rt_order rt) m")
  have m1: "observations m1 = observations m" using asked(1)[OF a] by simp
  define kvs where "kvs = permute code (cr_observations res)"
  have same: "gm_get kvs j = Some v \<longleftrightarrow> gm_get (cr_observations res) j = Some v" for j v
    using assms(2) by (simp add: kvs_def gm_wf_permute gm_get_mem)
  have "gm_get kvs j = gm_get (cr_observations res) j" for j
    using same[of j "the (gm_get kvs j)"] same[of j "the (gm_get (cr_observations res) j)"]
    by (cases "gm_get kvs j"; cases "gm_get (cr_observations res) j") auto
  moreover have "gm_wf kvs" using assms(2) by (simp add: kvs_def gm_wf_permute)
  ultimately have kvs: "gm_wf kvs" "gm_get kvs j = gm_get (cr_observations res) j" for j by simp_all
  have "observations m' = observations (fold merge_observation kvs m1)"
    using collectFindings_observations[of rt cfg "cr_findings res" now _ active "(m', active')"] assms(1)
    by (simp add: applyResult_def a kvs_def)
  then show ?thesis
    using get_merged[of kvs m1 k] kvs assms(3) m1 by (simp split: option.split)
qed

text \<open>What the check on pods stores, if the names of live pods are distinct.\<close>

definition restart_observation :: "'q snapshot \<Rightarrow> 'q pod \<Rightarrow> Observation" where
  "restart_observation snap pod =
     \<lparr>ob_RestartCount = total_restarts (pod_ContainerStatuses pod), ob_LastSeen = sn_now snap,
      ob_MemorySamplesPct = [], ob_LastResourceSample = 0\<rparr>"

lemma restart_key_inject [simp]: "restart_key a = restart_key b \<longleftrightarrow> a = b"
  by (simp add: restart_key_def)

lemma check_pod_cases:
  "live pod \<Longrightarrow> check_pod cfg snap pod (fs, obs) =
     (fs @ pod_findings cfg snap pod, gm_set (restart_key (pod_Name pod)) (restart_observation snap pod) obs)"
  "\<not> live pod \<Longrightarrow> check_pod cfg snap pod acc = acc"
  by (simp_all add: check_pod_def restart_observation_def)

lemma check_pod_stores:
  assumes "gm_wf obs" and "distinct (map pod_Name (filter live pods))" and "pod \<in> set pods" and "live pod"
  shows "gm_get (snd (fold (check_pod cfg snap) pods (fs, obs))) (restart_key (pod_Name pod)) =
    Some (restart_observation snap pod)"
proof -
  have other: "gm_get (snd (fold (check_pod cfg snap) ps (fs, obs))) (restart_key nm) = gm_get obs (restart_key nm)"
    if "gm_wf obs" "nm \<notin> pod_Name ` set (filter live ps)" for ps nm fs obs
    using that
  proof (induction ps arbitrary: fs obs)
    case (Cons p ps)
    then show ?case by (cases "live p") (auto simp: check_pod_cases go_map_simps)
  qed simp
  from assms show ?thesis
  proof (induction pods arbitrary: fs obs)
    case (Cons p ps)
    show ?case
    proof (cases "live p \<and> p = pod")
      case True
      then have "pod_Name pod \<notin> pod_Name ` set (filter live ps)" using Cons.prems(2) by auto
      with True Cons.prems(1) show ?thesis
        using other[of "gm_set (restart_key (pod_Name pod)) (restart_observation snap pod) obs" "pod_Name pod" ps] Cons.prems(4)
        by (simp add: check_pod_cases go_map_simps)
    next
      case False
      with Cons.prems have "pod \<in> set ps" "distinct (map pod_Name (filter live ps))" by (auto split: if_splits)
      with Cons.IH Cons.prems(1,4) show ?thesis by (cases "live p") (simp_all add: check_pod_cases go_map_simps)
    qed
  qed simp
qed

lemma checkPods_stores:
  assumes "sn_podsOK snap" and "distinct (map pod_Name (filter live (sn_pods snap)))"
    and "pod \<in> set (sn_pods snap)" and "live pod"
  shows "gm_get (cr_observations (snd (checkPods cfg snap))) (restart_key (pod_Name pod)) =
    Some (restart_observation snap pod)"
  using check_pod_stores[OF _ assms(2-4), of "[]" cfg snap "[]"] assms(1) by (auto simp: checkPods_def split: prod.split)

section \<open>The baseline through the rest of the poll\<close>

lemma restart_key_not_memory [simp]: "memory_key a \<noteq> restart_key b" "restart_key b \<noteq> memory_key a"
proof -
  have "last (memory_key a) \<noteq> last (restart_key b)" by (simp add: memory_key_def restart_key_def)
  then show "memory_key a \<noteq> restart_key b" "restart_key b \<noteq> memory_key a" by auto
qed

lemma usage_keeps_baseline:
  "gm_wf (cr_observations (snd (checkResourceUsage D ans cfg snap))) \<and>
   gm_get (cr_observations (snd (checkResourceUsage D ans cfg snap))) (restart_key nm) = None"
proof -
  have "gm_wf (snd (snd (fold (usage_step D cfg snap lim) items acc))) \<and>
      gm_get (snd (snd (fold (usage_step D cfg snap lim) items acc))) (restart_key nm) = None"
    if "gm_wf (snd (snd acc))" "gm_get (snd (snd acc)) (restart_key nm) = None" for lim items acc
    using that
  proof (induction items arbitrary: acc)
    case (Cons pm items)
    have "gm_wf (snd (snd (usage_step D cfg snap lim pm acc))) \<and>
        gm_get (snd (snd (usage_step D cfg snap lim pm acc))) (restart_key nm) = None"
      using Cons.prems by (auto simp: usage_step_def Let_def go_map_simps split: option.split prod.split)
    with Cons.IH show ?case by simp
  qed simp
  note step = this[of "([], [], [])"]
  have usage: "gm_wf obs \<and> gm_get obs (restart_key nm) = None"
    if "fold (usage_step D cfg snap lim) items ([], [], []) = (ms, fs, obs)" for lim items ms fs obs
    using step[of lim items] that by simp
  show ?thesis
    by (auto simp: checkResourceUsage_def completed_def incomplete_def split: option.split prod.split dest: usage)
qed

text \<open>A result that leaves the baseline of a pod alone.\<close>

definition spares :: "string \<Rightarrow> checkResult \<Rightarrow> bool" where
  "spares nm res \<longleftrightarrow> gm_wf (cr_observations res) \<and> gm_get (cr_observations res) (restart_key nm) = None"

lemma spares_none: "cr_observations res = [] \<Longrightarrow> spares nm res"
  by (simp add: spares_def)

lemma other_stages_spare:
  fixes snap :: "'q snapshot" and rt :: "('q, 'w) runtime"
  shows "st \<in> set (tl (poll_stages rt cfg snap)) \<Longrightarrow> spares nm (snd (fst (snd (snd st) w)))"
    "spares nm (snd (fst (snd (snd (custom_stage rt cfg apis)) w)))"
proof -
  have usage: "spares nm (snd (checkResourceUsage D ans cfg snap))" for D ans
    using usage_keeps_baseline by (simp add: spares_def)
  have specs: "cr_observations (snd (checkResourceSpecs D cfg snap)) = []"
    and events: "cr_observations (snd (checkEvents D cfg snap)) = []"
    and workloads: "cr_observations (snd (checkWorkloads cfg snap)) = []"
    and services: "cr_observations (snd (checkServices D cfg snap)) = []"
    and pvcs: "cr_observations (snd (checkPVCs cfg snap)) = []"
    and scaling: "cr_observations (snd (checkScaling cfg snap)) = []"
    and logs: "cr_observations (snd (checkLogs lg cfg snap)) = []"
    and custom: "cr_observations (snd (checkCustomResources D c apis cfg)) = []" for D lg c
    by (simp_all add: checkResourceSpecs_def checkEvents_def checkWorkloads_def checkServices_def checkPVCs_def
        checkScaling_def checkLogs_def checkCustomResources_def completed_def incomplete_def Let_def
        split: option.split prod.split)
  show "st \<in> set (tl (poll_stages rt cfg snap)) \<Longrightarrow> spares nm (snd (fst (snd (snd st) w)))"
    by (auto simp: poll_stages_def spares_none specs events workloads services pvcs scaling logs usage split_beta)
  show "spares nm (snd (fst (snd (snd (custom_stage rt cfg apis)) w)))"
    by (simp add: custom_stage_def spares_none custom split_beta)
qed

definition baseline :: "string \<Rightarrow> Observation \<Rightarrow> 'w monitor \<Rightarrow> bool" where
  "baseline nm ob m \<longleftrightarrow> gm_wf (observations m) \<and> gm_get (observations m) (restart_key nm) = Some (Some ob)"

interpretation baseline: poll_invariant rt cfg "spares nm" "baseline nm ob" for rt :: "('q, 'w) runtime" and cfg nm ob
proof
  show "baseline nm ob (fst s')"
    if "spares nm res" "baseline nm ob m" "applyResult rt cfg res now (m, active) = Some s'" for res m now active s'
    using that applyResult_observations[of rt cfg res now m active "fst s'" "snd s'" "restart_key nm"]
    by (simp add: spares_def baseline_def)
qed (simp_all add: baseline_def spares_def incomplete_def)

text \<open>If the check on pods delivered, the baseline is in the state after all checks.\<close>

lemma pods_ran_first:
  assumes "(''pods'', w, r) \<in> set (poll_trace rt cfg m)" and "poll_start rt cfg m = (now, snap, m2)"
  shows "Pods (Checks cfg)" "r = fst (runCheck rt cfg ''pods'' (\<lambda>w. (checkPods cfg snap, w)) m2)"
proof -
  let ?fn = "\<lambda>w. (checkPods cfg snap, w)"
  let ?custom = "custom_stage rt cfg (poll_discovery rt cfg m)"
  have tl: "(True, ''pods'', fn) \<notin> set (tl (poll_stages rt cfg snap))" "(True, ''pods'', fn) \<notin> set [?custom]" for fn
    by (simp_all add: poll_stages_def custom_stage_def)
  have no: "(''pods'', w, r) \<notin> set (stage_trace rt cfg now (tl (poll_stages rt cfg snap)) acc)"
    "(''pods'', w, r) \<notin> set (stage_trace rt cfg now [?custom] acc)" for acc
    using in_stage_trace[of "(''pods'', w, r)" rt cfg now "tl (poll_stages rt cfg snap)" acc]
      in_stage_trace[of "(''pods'', w, r)" rt cfg now "[?custom]" acc] tl by auto
  have stages: "poll_stages rt cfg snap = (Pods (Checks cfg), ''pods'', ?fn) # tl (poll_stages rt cfg snap)"
    by (simp add: poll_stages_def)
  have "(''pods'', w, r) \<in> set (stage_trace rt cfg now ((Pods (Checks cfg), ''pods'', ?fn) # tl (poll_stages rt cfg snap)) (m2, [], True))"
    using assms(1) no(2) unfolding stages[symmetric]
    by (auto simp: poll_trace_def assms(2) simp del: stage_trace.simps split: option.splits if_splits)
  then have "Pods (Checks cfg) \<and> r = fst (runCheck rt cfg ''pods'' ?fn m2)"
    using no(1) by (auto split: option.splits if_splits)
  then show "Pods (Checks cfg)" "r = fst (runCheck rt cfg ''pods'' ?fn m2)" by auto
qed

lemma baseline_after_checks:
  assumes "poll_checks rt cfg m = Some (now, acc)" and "(''pods'', w, r) \<in> set (poll_trace rt cfg m)" and "cr_complete r"
    and "gm_wf (observations m)" and "snap = poll_snapshot rt cfg m"
    and "distinct (map pod_Name (filter live (sn_pods snap)))" and "pod \<in> set (sn_pods snap)" and "live pod"
  shows "baseline (pod_Name pod) (restart_observation snap pod) (fst acc)"
proof -
  obtain now' snap' m2 where s: "poll_start rt cfg m = (now', snap', m2)" by (metis prod_cases3)
  have snap': "snap' = snap" using poll_start_frame(4)[OF s] assms(5) by simp
  let ?fn = "\<lambda>w. (checkPods cfg snap, w)" and ?rest = "tl (poll_stages rt cfg snap)"
  obtain acc1 where a: "foldM (run_stage rt cfg now') (poll_stages rt cfg snap) (m2, [], True) = Some acc1"
    "now = now'" "run_custom rt cfg now acc1 = Some acc"
    using assms(1) by (auto simp: poll_checks_stages after_stages_def s snap' split: option.splits)
  have stages: "poll_stages rt cfg snap = (Pods (Checks cfg), ''pods'', ?fn) # ?rest" by (simp add: poll_stages_def)
  obtain acc0 where b: "run_stage rt cfg now' (Pods (Checks cfg), ''pods'', ?fn) (m2, [], True) = Some acc0"
    "foldM (run_stage rt cfg now') ?rest acc0 = Some acc1"
    using a(1) by (subst (asm) stages) (auto split: option.splits)
  obtain res m3 where rc: "runCheck rt cfg ''pods'' ?fn m2 = (res, m3)" by (cases "runCheck rt cfg ''pods'' ?fn m2")
  note ran = pods_ran_first[OF assms(2) s, unfolded snap' rc fst_conv]
  have res: "res = snd (checkPods cfg snap)"
    using runCheck_result[OF rc] assms(3) ran(2) by (auto simp: incomplete_def)
  then have ok: "sn_podsOK snap" using assms(3) ran(2) by (simp add: pods_family.complete_iff)
  have m3: "observations m3 = observations m"
    using runCheck_frame(1)[OF rc] poll_start_frame(1)[OF s] by simp
  obtain m4 active' where ap: "applyResult rt cfg res now' (m3, []) = Some (m4, active')" "fst acc0 = m4"
    using b(1) ran(1) by (auto simp: run_stage_def rc split: option.splits)
  have "gm_wf (cr_observations res)" unfolding res by (rule pods_family.deltas_wf)
  from applyResult_observations[OF ap(1) this] assms(4) have "baseline (pod_Name pod) (restart_observation snap pod) (fst acc0)"
    unfolding baseline_def m3 ap(2) res checkPods_stores[OF ok assms(6-8)] by (metis (no_types, lifting) checkPods_stores[OF ok assms(6-8)] option.case(2))
  then have "baseline (pod_Name pod) (restart_observation snap pod) (fst acc1)"
    by (rule baseline.stages_inv[OF b(2), rotated])
       (auto simp: list_all_iff baseline.stage_admits_def other_stages_spare(1))
  then show ?thesis
    by (rule baseline.custom_inv[OF a(3), rotated]) (simp add: baseline.stage_admits_def other_stages_spare(2))
qed

section \<open>Two polls\<close>

text \<open>
  C8. Restarts are counted between two consecutive polls. A whole poll whose check on pods
  delivered leaves, of every live pod it saw, either this count or (if pruning deleted it)
  no count at all. If the check on pods of the next poll delivers too, it reports the pod for
  restarting exactly if the count was kept, the polls lie within the window, and the pod's
  restart count grew by the threshold or more between these two polls, whatever happened,
  and whatever was stored, before the first.
\<close>

theorem restart_rate_between_polls:
  assumes "state_wf (mn_state m)" and "Poll rt cfg m = Some m'"
    and "(''pods'', w1, r1) \<in> set (poll_trace rt cfg m)" and "cr_complete r1"
    and "(''pods'', w2, r2) \<in> set (poll_trace rt cfg m')" and "cr_complete r2"
    and "snap1 = poll_snapshot rt cfg m" and "snap2 = poll_snapshot rt cfg m'"
    and "distinct (map pod_Name (filter live (sn_pods snap1)))"
    and "pod1 \<in> set (sn_pods snap1)" and "live pod1"
    and "distinct (map pod_Name (filter live (sn_pods snap2)))"
    and "pod2 \<in> set (sn_pods snap2)" and "live pod2" and "pod_Name pod2 = pod_Name pod1"
    and "restarts_fit snap1" and "restarts_fit snap2" and "int64_range (sn_now snap2 - sn_now snap1)"
  shows "(''Pod'', pod_Name pod1, ''restart-rate'', ''restarts-increased'', 65) \<in> symptoms r2 \<longleftrightarrow>
    gm_get (observations m') (restart_key (pod_Name pod1)) \<noteq> None \<and>
    sn_now snap2 - sn_now snap1 \<le> RestartWindow cfg \<and> restarts pod1 + RestartWarningCount cfg \<le> restarts pod2"
proof -
  let ?key = "restart_key (pod_Name pod1)" and ?s = "(''Pod'', pod_Name pod1, ''restart-rate'', ''restarts-increased'', 65 :: int)"
  have kept: "gm_wf (observations m') \<and> gm_get (observations m') ?key \<in> {None, Some (Some (restart_observation snap1 pod1))}"
    using assms(1)
  proof (rule Poll_parts[where rt = rt and cfg = cfg])
    fix now n1 active complete n2 n3
    assume p: "poll_checks rt cfg m = Some (now, n1, active, complete)" "state_wf (mn_state n1)"
      "poll_settle rt cfg now (n1, active, complete) = Some n2" "state_wf (mn_state n3)"
      "gm_get (observations n3) \<subseteq>\<^sub>m gm_get (observations n2)" "Poll rt cfg m = Some (mark_health rt cfg now n3)"
    have m': "observations m' = observations n3" using p(6) assms(2) by auto
    have "gm_get (observations n1) ?key = Some (Some (restart_observation snap1 pod1))"
      using baseline_after_checks[OF p(1) assms(3,4) wf_maps(2)[OF assms(1)] assms(7) assms(9-11)] by (simp add: baseline_def)
    moreover have "gm_get (observations n3) \<subseteq>\<^sub>m gm_get (observations n1)"
      using p(5) settle_observations[OF p(3,2)] by (rule map_le_trans)
    ultimately have "gm_get (observations n3) ?key \<in> {None, Some (Some (restart_observation snap1 pod1))}"
      by (cases "gm_get (observations n3) ?key") (auto simp: map_le_def dom_def)
    with wf_maps(2)[OF p(4)] show ?thesis unfolding m' by blast
  qed
  have r2: "r2 = snd (checkPods cfg snap2)"
    using poll_trace_delivered[OF assms(5,6)] by (simp add: check_answer_def assms(8))
  have ok: "sn_podsOK snap2" using assms(6) by (simp add: r2 pods_family.complete_iff)
  obtain now1 x1 where s1: "poll_start rt cfg m = (now1, snap1, x1)"
    using assms(7) by (cases "poll_start rt cfg m") (auto simp: poll_snapshot_def)
  obtain now2 x2 where s2: "poll_start rt cfg m' = (now2, snap2, x2)"
    using assms(8) by (cases "poll_start rt cfg m'") (auto simp: poll_snapshot_def)
  have prior: "gm_get (sn_priorObservations snap2) ?key =
      (if gm_get (observations m') ?key = None then None else Some (restart_observation snap1 pod1))"
    using kept by (auto simp: poll_start_frame(6)[OF s2] get_prior)
  have only: "pod = pod2" if "pod \<in> set (sn_pods snap2)" "live pod" "pod_Name pod = pod_Name pod1" for pod
    using that assms(12-15) by (auto simp: distinct_map inj_on_def)
  have "time_sub (sn_now snap2) (sn_now snap1) = sn_now snap2 - sn_now snap1"
    using assms(18) by simp
  then have "pod_fault cfg snap2 pod2 ?s \<longleftrightarrow> gm_get (observations m') ?key \<noteq> None \<and>
      sn_now snap2 - sn_now snap1 \<le> RestartWindow cfg \<and> restarts pod1 + RestartWarningCount cfg \<le> restarts pod2"
    by (simp add: pod_fault.simps assms(15) prior restart_observation_def total_restarts_fit(1)[OF assms(16,10)])
  moreover have "pod_fault cfg snap2 pod ?s \<Longrightarrow> pod_Name pod = pod_Name pod1" for pod
    by (auto simp: pod_fault.simps)
  ultimately show ?thesis
    unfolding r2 pods_symptoms[OF assms(17)] mem_Collect_eq using assms(13,14) ok only by blast
qed

text \<open>A pod whose container restarted five times within the two seconds between two polls.\<close>

definition crashing_pod :: "int \<Rightarrow> int pod" where
  "crashing_pod n = done_pod\<lparr>pod_ContainerStatuses :=
     [\<lparr>cs_Name = ''main'', cs_RestartCount = n, cs_Waiting = None, cs_LastTerminated = None\<rparr>]\<rparr>"

definition crash_runtime :: "(int, time) runtime" where
  "crash_runtime = ticking second (\<lambda>w. [crashing_pod (if w \<le> 2 * second then 1 else 6)])"

definition crash_start :: "time monitor" where
  "crash_start = NewMonitor (NewStateStore ''ns'' ''st'') (newMonitorState ''ns'') None second"

lemma crash_sel [simp]:
  "live (crashing_pod n)" "restarts (crashing_pod n) = n" "pod_Name (crashing_pod n) = ''job''"
  "list_all (\<lambda>st. 0 \<le> cs_RestartCount st) (pod_ContainerStatuses (crashing_pod n)) = (0 \<le> n)"
  "mn_state crash_start = newMonitorState ''ns''" "mn_world crash_start = second"
  by (simp_all add: live_def crashing_pod_def done_pod_def restarts_def crash_start_def NewMonitor_def)

lemma crash_first_check:
  assumes "sn_pods snap = [crashing_pod 1]" "sn_podsOK snap" "sn_now snap = second" "sn_priorObservations snap = []"
  shows "checkPods keep_all snap = ([checks_total (Namespace keep_all) ''pods'' ''ok''],
    \<lparr>cr_findings = [], cr_complete = True,
     cr_observations = [(restart_key ''job'', restart_observation snap (crashing_pod 1))]\<rparr>)"
  using assms
  by (simp add: checkPods_def check_pod_cases pod_findings_def restart_findings_def status_findings_def Let_def)
     (simp add: crashing_pod_def done_pod_def time_sub_def second_def minute_def status_findings_def)

lemma crash_checks:
  "\<exists>m1 ob. poll_checks crash_runtime keep_all crash_start = Some (second, m1, [], True) \<and> mn_world m1 = 2 * second \<and>
     mn_health m1 = None \<and> findings m1 = [] \<and> observations m1 = [(restart_key ''job'', Some ob)] \<and> ob_RestartCount ob = 1"
proof -
  let ?snap = "poll_snapshot crash_runtime keep_all crash_start"
  have snap: "sn_pods ?snap = [crashing_pod 1]" "sn_podsOK ?snap" "sn_now ?snap = second" "sn_priorObservations ?snap = []"
    by (simp_all add: crash_runtime_def prior_observations_def)
  have count: "ob_RestartCount (restart_observation ?snap (crashing_pod 1)) = 1"
    by (simp add: restart_observation_def crashing_pod_def total_restarts_def int32_range_def)
  have "after_stages crash_runtime keep_all crash_start = Some
      (emit [checks_total (Namespace keep_all) ''pods'' ''ok'']
         (crash_start\<lparr>mn_suppressions := None, mn_world := 2 * second\<rparr>)
       \<lparr>mn_dirty := True, mn_state := (newMonitorState ''ns'')\<lparr>ms_Observations :=
          [(restart_key ''job'', Some (restart_observation ?snap (crashing_pod 1)))]\<rparr>\<rparr>, [], True)"
    using crash_first_check[OF snap]
    by (simp add: after_stages_def poll_snapshot_def crash_runtime_def ticking_start poll_stages_def run_stage_def
        runCheck_def ask_def second_def applyResult_def collectFindings_def merge_observation_def set_observations_def
        mark_dirty_def emit_def)
  then show ?thesis
    using count by (simp add: poll_checks_stages run_custom_def crash_runtime_def ticking_start crash_start_def NewMonitor_def)
qed

theorem restart_rate_between_polls_witness:
  "\<exists>m' w2 r2. Poll crash_runtime keep_all crash_start = Some m' \<and>
     (''pods'', w2, r2) \<in> set (poll_trace crash_runtime keep_all m') \<and>
     (''Pod'', ''job'', ''restart-rate'', ''restarts-increased'', 65) \<in> symptoms r2"
proof -
  obtain m1 ob where c: "poll_checks crash_runtime keep_all crash_start = Some (second, m1, [], True)"
    "mn_world m1 = 2 * second" "mn_health m1 = None" "findings m1 = []"
    "observations m1 = [(restart_key ''job'', Some ob)]" "ob_RestartCount ob = 1"
    using crash_checks by blast
  have "resolveMissingFindings crash_runtime keep_all second [] m1 = Some m1"
    using c(4) by (simp add: resolveMissingFindings_def crash_runtime_def ask_def gm_keys_def)
  from ticking_keeps[of second "\<lambda>w. [crashing_pod (if w \<le> 2 * second then 1 else 6)]", folded crash_runtime_def, OF c(1) this c(3)]
  obtain m' where m': "Poll crash_runtime keep_all crash_start = Some m'" "mn_state m' = mn_state m1" "mn_world m' = 3 * second"
    using c(2) by auto
  let ?snap1 = "poll_snapshot crash_runtime keep_all crash_start" and ?snap2 = "poll_snapshot crash_runtime keep_all m'"
  obtain w1 w2 where tr: "(''pods'', w1, snd (checkPods keep_all ?snap1)) \<in> set (poll_trace crash_runtime keep_all crash_start)"
    "(''pods'', w2, snd (checkPods keep_all ?snap2)) \<in> set (poll_trace crash_runtime keep_all m')"
    using ticking_pods_ran[of second "\<lambda>w. [crashing_pod (if w \<le> 2 * second then 1 else 6)]"] unfolding crash_runtime_def by blast
  have snap1: "sn_pods ?snap1 = [crashing_pod 1]" "sn_podsOK ?snap1" "sn_now ?snap1 = second" "sn_priorObservations ?snap1 = []"
    by (simp_all add: crash_runtime_def prior_observations_def)
  have snap2: "sn_pods ?snap2 = [crashing_pod 6]" "sn_podsOK ?snap2" "sn_now ?snap2 = 3 * second"
    "sn_priorObservations ?snap2 = [(restart_key ''job'', ob)]"
    by (simp_all add: crash_runtime_def m' c(5)) (simp_all add: second_def)
  have fit: "restarts_fit ?snap1" "restarts_fit ?snap2"
    by (simp_all add: restarts_fit_def snap1 snap2 c(6))
  have "int64_range (3 * second - second)" by (simp add: int64_range_def second_def)
  moreover have "RestartWindow keep_all = 10 * minute" "RestartWarningCount keep_all = 3"
    by (simp_all add: keep_all_def pods_only_def LoadConfig_def durationEnv_def intEnv_def Let_def clampInt32_def int32_range_def)
  moreover have "3 * second - second \<le> 10 * minute" by (simp add: second_def minute_def)
  ultimately have "(''Pod'', ''job'', ''restart-rate'', ''restarts-increased'', 65) \<in> symptoms (snd (checkPods keep_all ?snap2))"
    using restart_rate_between_polls[OF _ m'(1) tr(1) _ tr(2) _ refl refl, of "crashing_pod 1" "crashing_pod 6"]
    by (simp add: snap1 snap2 pods_family.complete_iff fit m'(2) c(5))
  with m'(1) tr(2) show ?thesis by blast
qed

end
