(* ===== verification/Dispatch_Spacing.thy ===== *)
theory Dispatch_Spacing
  imports Restart_Rate
begin

text \<open>
  How AI dispatches are spaced over whole polls. The cooldown of a finding lives in its
  stored state, so the promise is per finding, and holds as long as the state is kept:
  expiry, the caps and the size limit may delete it, and the cooldown with it.
\<close>

section \<open>Runs of polls that keep a finding\<close>

text \<open>Polls one after the other; after each of them the finding \<open>k\<close> is in the state.\<close>

inductive kept_run :: "('q, 'w) runtime \<Rightarrow> Config \<Rightarrow> string \<Rightarrow> 'w monitor \<Rightarrow> 'w monitor \<Rightarrow> bool"
  for rt :: "('q, 'w) runtime" and cfg k where
  kept_start: "kept_run rt cfg k m m"
| kept_poll: "kept_run rt cfg k m m1 \<Longrightarrow> Poll rt cfg m1 = Some m2 \<Longrightarrow> gm_get (findings m2) k \<noteq> None \<Longrightarrow>
    kept_run rt cfg k m m2"

section \<open>The invariant\<close>

definition dispatched :: "string \<Rightarrow> Finding \<times> bool \<Rightarrow> bool" where
  "dispatched k a \<longleftrightarrow> snd a \<and> f_AITriageRequired (fst a) \<and> f_ID (fst a) = k"

text \<open>The later of two dispatches comes after the cooldown of the earlier.\<close>

definition spaced :: "string \<Rightarrow> Finding \<times> bool \<Rightarrow> Finding \<times> bool \<Rightarrow> bool" where
  "spaced k a b \<longleftrightarrow> (dispatched k a \<and> dispatched k b \<longrightarrow>
     (\<exists>c. f_CooldownUntil (fst a) = Some c \<and> c < f_LastSeen (fst b)))"

text \<open>The attempts from the \<open>n\<close>-th on are spaced, and the stored cooldown covers each of them.\<close>

definition cooldown_inv :: "string \<Rightarrow> nat \<Rightarrow> 'w monitor \<Rightarrow> bool" where
  "cooldown_inv k n m \<longleftrightarrow>
     state_wf (mn_state m) \<and> n \<le> length (mn_attempts m) \<and> sorted_wrt (spaced k) (drop n (mn_attempts m)) \<and>
     (\<forall>a \<in> set (drop n (mn_attempts m)). dispatched k a \<longrightarrow>
        (\<exists>st c d. gm_get (findings m) k = Some (Some st) \<and>
           fs_CooldownUntil st = Some c \<and> f_CooldownUntil (fst a) = Some d \<and> d \<le> c))"

lemma cooldown_start:
  "state_wf (mn_state m) \<Longrightarrow> cooldown_inv k (length (mn_attempts m)) m"
  by (simp add: cooldown_inv_def)

lemma outgoing_dispatch:
  "finding_ok ns f \<Longrightarrow> f_AITriageRequired (outgoing cfg now st f) = triage_due cfg now st f"
  "triage_due cfg now st f \<Longrightarrow> f_CooldownUntil (outgoing cfg now st f) = Some (now + cooldown_for cfg f)"
  by (simp_all add: outgoing_def triaged_def stamped_def finding_ok_def)

lemma next_state_cooldown:
  "fs_CooldownUntil (next_state cfg now st f sent) =
   (if sent = Some True \<and> triage_due cfg now st f then Some (now + cooldown_for cfg f) else fs_CooldownUntil st)"
  by (simp add: next_state_def seen_again_def split: option.split bool.split)

lemma cooldown_for_nonneg: "0 \<le> DownstreamCooldown cfg \<Longrightarrow> 0 \<le> cooldown_for cfg f"
  by (simp add: cooldown_for_def)

text \<open>One round of collecting.\<close>

lemma cooldown_step:
  assumes "finding_ok ns f" and "0 \<le> DownstreamCooldown cfg" and "cooldown_inv k n m"
    and "collect_finding rt cfg now f (m, active) = Some s'"
  shows "cooldown_inv k n (fst s')"
proof (cases "isSuppressed (mn_suppressions m) f")
  case True
  with assms(3,4) show ?thesis by (auto simp: collect_finding_def)
next
  case False
  note inv = assms(3)[unfolded cooldown_inv_def]
  obtain st where st: "start_state m now f = Some st" using start_state_wf inv by blast
  define g where "g = outgoing cfg now st f"
  define w where "w = wants_publish cfg now (gm_get (findings m) (f_ID f) \<noteq> None) st f"
  define sent where "sent = (if w then Some (accepted rt g m) else None)"
  define xs where "xs = (if w then [(g, accepted rt g m)] else [])"
  define m' where "m' = fst s'"
  have m': "mn_attempts m' = mn_attempts m @ xs"
      "findings m' = gm_set (f_ID f) (Some (next_state cfg now st f sent)) (findings m)"
    using collect_finding_spec[OF False st w_def g_def, of rt active] assms(4) by (auto simp: sent_def xs_def m'_def)
  have wf': "state_wf (mn_state m')"
    using collecting.act_returns[OF assms(1), of "(m, active)" rt cfg now] assms(4) inv by (auto simp: m'_def)
  have get: "gm_get (findings m') k = (if f_ID f = k then Some (Some (next_state cfg now st f sent)) else gm_get (findings m) k)"
    using inv by (simp add: m'(2) wf_maps go_map_simps)
  have drop: "drop n (mn_attempts m') = drop n (mn_attempts m) @ xs" using inv by (simp add: m'(1))
  let ?due = "triage_due cfg now st f"
  have gx: "fst b = g" if "b \<in> set xs" for b using that by (auto simp: xs_def split: if_splits)
  have disp: "dispatched k b \<longleftrightarrow> sent = Some True \<and> ?due \<and> f_ID f = k" if "b \<in> set xs" for b
    using that outgoing_dispatch(1)[OF assms(1)] by (auto simp: xs_def sent_def dispatched_def g_def split: if_splits)
  have old: "\<exists>c d. fs_CooldownUntil st = Some c \<and> f_CooldownUntil (fst a) = Some d \<and> d \<le> c"
    if "a \<in> set (drop n (mn_attempts m))" "dispatched k a" "f_ID f = k" for a
    using that inv st by (fastforce simp: start_state_def)
  have due: "c < now" if "?due" "fs_CooldownUntil st = Some c" for c
    using that by (simp add: triage_due_def after_def)
  have "spaced k a b" if ab: "a \<in> set (drop n (mn_attempts m))" "b \<in> set xs" for a b
  proof (cases "dispatched k a \<and> dispatched k b")
    case True
    then obtain c d where cd: "fs_CooldownUntil st = Some c" "f_CooldownUntil (fst a) = Some d" "d \<le> c"
      using old[OF ab(1)] disp[OF ab(2)] by blast
    moreover have "c < now" using True disp[OF ab(2)] due cd(1) by blast
    ultimately show ?thesis using gx[OF ab(2)] by (simp add: spaced_def g_def)
  qed (auto simp: spaced_def)
  then have "sorted_wrt (spaced k) (drop n (mn_attempts m'))"
    using inv by (simp add: drop sorted_wrt_append xs_def)
  moreover have "\<exists>st' c d. gm_get (findings m') k = Some (Some st') \<and>
      fs_CooldownUntil st' = Some c \<and> f_CooldownUntil (fst a) = Some d \<and> d \<le> c"
    if a: "a \<in> set (drop n (mn_attempts m'))" "dispatched k a" for a
  proof (cases "a \<in> set (drop n (mn_attempts m))")
    case True
    show ?thesis
    proof (cases "f_ID f = k")
      case same: True
      obtain c d where cd: "fs_CooldownUntil st = Some c" "f_CooldownUntil (fst a) = Some d" "d \<le> c"
        using old[OF True a(2) same] by blast
      have "\<exists>c'. fs_CooldownUntil (next_state cfg now st f sent) = Some c' \<and> c \<le> c'"
        using due[of c] cd(1) cooldown_for_nonneg[OF assms(2), of f] by (auto simp: next_state_cooldown)
      then show ?thesis using cd same by (auto simp: get)
    next
      case False
      with inv True a(2) show ?thesis by (simp add: get)
    qed
  next
    case False
    with a(1) have x: "a \<in> set xs" by (simp add: drop)
    then have s: "sent = Some True" "?due" "f_ID f = k" using disp a(2) by blast+
    then show ?thesis
      using gx[OF x] outgoing_dispatch(2)[OF s(2)] by (simp add: g_def get next_state_cooldown)
  qed
  moreover have "n \<le> length (mn_attempts m')" using inv by (simp add: m'(1))
  ultimately show ?thesis using wf' by (simp add: cooldown_inv_def m'_def)
qed

interpretation cooldown: poll_invariant rt cfg "result_ok (Namespace cfg)"
  "\<lambda>m. 0 \<le> DownstreamCooldown cfg \<and> cooldown_inv k n m" for rt :: "('q, 'w) runtime" and cfg k n
proof
  fix res and m :: "'w monitor" and now active s'
  assume ok: "result_ok (Namespace cfg) res" and inv: "0 \<le> DownstreamCooldown cfg \<and> cooldown_inv k n m"
    and ap: "applyResult rt cfg res now (m, active) = Some s'"
  obtain code m1 where a: "ask (rt_order rt) m = (code, m1)" by (cases "ask (rt_order rt) m")
  have m1: "mn_state m1 = mn_state m" "mn_attempts m1 = mn_attempts m" using ask_sel(3,11)[of "rt_order rt" m] a by auto
  define m2 where "m2 = fold merge_observation (permute code (cr_observations res)) m1"
  have "state_wf (mn_state m2)"
    using merge_loop[of m1 "permute code (cr_observations res)"] result_ok_keys[OF ok] inv m1
    by (auto simp: m2_def cooldown_inv_def)
  then have m2: "cooldown_inv k n (fst (m2, active))" using inv by (simp add: cooldown_inv_def m2_def m1)
  have "foldM (collect_finding rt cfg now) (cr_findings res) (m2, active) = Some s'"
    using ap by (simp add: applyResult_def a collectFindings_def m2_def)
  then have "cooldown_inv k n (fst s')"
    using m2
  proof (rule foldM_invariant[where I = "\<lambda>s. cooldown_inv k n (fst s)"])
    fix f and s t :: "'w monitor \<times> (string, Finding) go_map"
    assume "f \<in> set (cr_findings res)" "cooldown_inv k n (fst s)" "collect_finding rt cfg now f s = Some t"
    then show "cooldown_inv k n (fst t)"
      using cooldown_step[of "Namespace cfg" f cfg k n "fst s" rt now "snd s" t] ok inv by (auto simp: result_ok_def list_all_iff)
  qed
  with inv show "0 \<le> DownstreamCooldown cfg \<and> cooldown_inv k n (fst s')" by simp
qed (simp_all add: cooldown_inv_def)

text \<open>The rest of a poll dispatches nothing, and leaves the cooldown of what it keeps.\<close>

definition cools :: "string \<Rightarrow> 'w monitor \<Rightarrow> 'w monitor \<Rightarrow> bool" where
  "cools k m m' \<longleftrightarrow>
     (\<exists>xs. mn_attempts m' = mn_attempts m @ xs \<and> list_all (\<lambda>a. \<not> dispatched k a) xs) \<and>
     (\<forall>st'. gm_get (findings m') k = Some (Some st') \<longrightarrow>
        (\<exists>st. gm_get (findings m) k = Some (Some st) \<and> fs_CooldownUntil st' = fs_CooldownUntil st))"

interpretation cools: evolution "cools k" for k
proof
  show "cools k m m" for m :: "'a monitor" by (simp add: cools_def)
  show "cools k m m2" if "cools k m m1" "cools k m1 m2" for m m1 m2 :: "'a monitor"
    using that unfolding cools_def by (elim conjE exE) (intro conjI; fastforce)
qed

lemma cools_le:
  "mn_attempts m' = mn_attempts m \<Longrightarrow> gm_get (findings m') \<subseteq>\<^sub>m gm_get (findings m) \<Longrightarrow> cools k m m'"
  by (force simp: cools_def map_le_def)

lemma cools_inv:
  assumes "cools k m m'" and "cooldown_inv k n m" and "state_wf (mn_state m')" and "gm_get (findings m') k \<noteq> None"
  shows "cooldown_inv k n m'"
proof -
  obtain xs where xs: "mn_attempts m' = mn_attempts m @ xs" "\<And>a. a \<in> set xs \<Longrightarrow> \<not> dispatched k a"
    using assms(1) by (auto simp: cools_def list_all_iff)
  obtain st st' where st: "gm_get (findings m') k = Some (Some st')" "gm_get (findings m) k = Some (Some st)"
    "fs_CooldownUntil st' = fs_CooldownUntil st"
    using assms(1,4) wf_no_nil[OF assms(3), of k] by (fastforce simp: cools_def)
  have quiet: "spaced k a b" if "b \<in> set xs \<or> a \<in> set xs" for a b
    using that xs(2)[of a] xs(2)[of b] by (auto simp: spaced_def)
  have "sorted_wrt (spaced k) xs" using quiet by (simp add: sorted_wrt_iff_nth_less)
  with assms(2,3) xs quiet st show ?thesis
    by (auto simp: cooldown_inv_def sorted_wrt_append)
qed

lemma settle_cools:
  assumes "poll_settle rt cfg now (m, active, complete) = Some m'" and "state_wf (mn_state m)"
  shows "cools k m m'"
  using assms
proof (rule settle_parts)
  fix n e
  assume n: "(if complete then resolveMissingFindings rt cfg now active m else Some m) = Some n" "state_wf (mn_state n)"
    and e: "expireResolvedFindings rt cfg now n = Some e" "prunes e m'"
  have "cools k m n"
  proof (cases complete)
    case True
    with n have "resolveMissingFindings rt cfg now active m = Some n" by simp
    from resolve_missing_spec[OF assms(2) this] obtain gone fate where r:
      "set gone = {k. ongoing m k \<and> gm_get active k = None}"
      "mn_attempts n = mn_attempts m @ map (\<lambda>k. (resolved_finding cfg now k (state_of m k), fate k)) gone"
      "\<And>k. gm_get (findings n) k = (if k \<in> set gone then Some (Some (after_resolution now (fate k) (state_of m k)))
        else gm_get (findings m) k)" by blast
    have "\<not> dispatched k (resolved_finding cfg now j st, b)" for j st b
      by (simp add: dispatched_def resolved_finding_def)
    moreover have "fs_CooldownUntil (after_resolution now b st) = fs_CooldownUntil st" for b st
      by (simp add: after_resolution_def)
    ultimately show ?thesis using r(1)
      by (auto simp: cools_def r(2,3) list_all_iff ongoing_def state_of_def)
  next
    case False
    with n show ?thesis by (simp add: cools.rel_refl)
  qed
  moreover have "cools k n e"
    using expire_deletes[OF n(2) e(1)] by (intro cools_le) (force simp: map_le_def)+
  moreover have "cools k e m'" using e(2) by (intro cools_le) (simp_all add: prunes_def deletes_def)
  ultimately show ?thesis using cools.rel_trans by blast
qed

lemma poll_cools:
  assumes "0 \<le> DownstreamCooldown cfg" and "cooldown_inv k n m" and "Poll rt cfg m = Some m'"
    and "gm_get (findings m') k \<noteq> None"
  shows "cooldown_inv k n m'"
proof -
  have wf: "state_wf (mn_state m)" using assms(2) by (simp add: cooldown_inv_def)
  then show ?thesis
  proof (rule Poll_parts[where rt = rt and cfg = cfg])
    fix now m1 active complete m2 m3
    assume p: "poll_checks rt cfg m = Some (now, m1, active, complete)" "state_wf (mn_state m1)"
      "poll_settle rt cfg now (m1, active, complete) = Some m2" "state_wf (mn_state m3)"
      "mn_attempts m3 = mn_attempts m2" "gm_get (findings m3) \<subseteq>\<^sub>m gm_get (findings m2)"
      "Poll rt cfg m = Some (mark_health rt cfg now m3)"
    have m': "mn_state m' = mn_state m3" "mn_attempts m' = mn_attempts m3" using p(7) assms(3) by auto
    have "cooldown_inv k n m1"
      using cooldown.poll_checks_inv[OF p(1), of k n] poll_stages_ok[of cfg rt] custom_stage_ok[of cfg rt] assms(1,2)
      by (simp add: cooldown.stage_admits_def stage_ok_def list_all_iff)
    moreover have "cools k m1 m3"
      using settle_cools[OF p(3,2)] cools_le[OF p(5,6)] by (rule cools.rel_trans)
    moreover have "gm_get (findings m3) k \<noteq> None" using assms(4) m'(1) by simp
    ultimately have "cooldown_inv k n m3" using cools_inv p(4) by blast
    then show ?thesis by (simp add: cooldown_inv_def m')
  qed
qed

lemma kept_run_inv:
  assumes "kept_run rt cfg k m m'" and "0 \<le> DownstreamCooldown cfg" and "cooldown_inv k n m"
  shows "cooldown_inv k n m'"
  using assms by (induction rule: kept_run.induct) (auto intro: poll_cools)

section \<open>A pod that stays broken\<close>

text \<open>Two polls, forty minutes apart, on a pod that is never ready.\<close>

definition broken_runtime :: "(int, time) runtime" where
  "broken_runtime = ticking (20 * minute) (\<lambda>w. [done_pod])"

definition broken_start :: "time monitor" where
  "broken_start = NewMonitor (NewStateStore ''ns'' ''st'') (newMonitorState ''ns'') None (10 * minute)"

lemma broken_start_sel [simp]:
  "mn_state broken_start = newMonitorState ''ns''" "mn_world broken_start = 10 * minute"
  "mn_attempts broken_start = []" "mn_health broken_start = None"
  by (simp_all add: broken_start_def NewMonitor_def)

lemma done_pod_sel [simp]: "live done_pod" "pod_Name done_pod = ''job''"
  by (simp_all add: live_def done_pod_def)

lemma broken_check:
  assumes "sn_pods snap = [done_pod]" "sn_podsOK snap" "5 * minute < time_sub (sn_now snap) 0"
    and "\<And>ob. gm_get (sn_priorObservations snap) (restart_key ''job'') = Some ob \<Longrightarrow> ob_RestartCount ob = 0"
  shows "\<exists>ev. checkPods keep_all snap = ([checks_total (Namespace keep_all) ''pods'' ''ok''],
    \<lparr>cr_findings = [NewFinding (Namespace keep_all) ''Pod'' ''job'' ''pod-health'' ''not-ready'' 60 ev], cr_complete = True,
     cr_observations = [(restart_key ''job'', restart_observation snap done_pod)]\<rparr>)"
proof -
  have "RestartWarningCount keep_all = 3"
    by (simp add: keep_all_def pods_only_def LoadConfig_def intEnv_def Let_def clampInt32_def int32_range_def)
  then have "restart_findings keep_all snap ''job'' 0 = []"
    using assms(4) by (auto simp: restart_findings_def Let_def wrap32_id int32_range_def split: option.split)
  moreover have "\<not> podReady done_pod" "pod_ContainerStatuses done_pod = []" "pod_Phase done_pod = ''Succeeded''"
    "pod_CreationTimestamp done_pod = 0"
    by (simp_all add: podReady_ready ready_def done_pod_def)
  ultimately show ?thesis
    using assms(1-3)
    by (auto simp: checkPods_def check_pod_cases pod_findings_def Let_def total_restarts_def)
qed

text \<open>A poll of this cluster, up to the last check, in terms of the round for its one finding.\<close>

lemma broken_poll:
  assumes "checkPods keep_all (poll_snapshot broken_runtime keep_all m) =
      (ms, \<lparr>cr_findings = [g], cr_complete = True, cr_observations = [(key, ob)]\<rparr>)"
    and "start_state m (mn_world m) g = Some st" and "state_wf (mn_state m)" and "mn_health m = None"
    and "triage_due keep_all (mn_world m) st g"
    and "findings m = [] \<or> (\<exists>st0. findings m = [(f_ID g, st0)])"
  shows "\<exists>m'. Poll broken_runtime keep_all m = Some m' \<and>
    mn_attempts m' = mn_attempts m @ [(outgoing keep_all (mn_world m) st g, True)] \<and>
    findings m' = [(f_ID g, Some (next_state keep_all (mn_world m) st g (Some True)))] \<and>
    observations m' = gm_set key (Some ob) (observations m) \<and>
    mn_world m' = mn_world m + 40 * minute \<and> mn_health m' = None"
proof -
  let ?now = "mn_world m" and ?out = "outgoing keep_all (mn_world m) st g"
  define m2 where "m2 = merge_observation (key, ob)
    (emit ms (m\<lparr>mn_suppressions := None, mn_world := ?now + 20 * minute\<rparr>))"
  have m2: "findings m2 = findings m" "mn_suppressions m2 = None" "mn_attempts m2 = mn_attempts m"
    "observations m2 = gm_set key (Some ob) (observations m)" "mn_world m2 = ?now + 20 * minute" "mn_health m2 = None"
    using assms(4) by (simp_all add: m2_def)
  have sup: "\<not> isSuppressed (mn_suppressions m2) g" by (simp add: m2)
  have st: "start_state m2 ?now g = Some st" using assms(2) by (simp add: start_state_def m2(1))
  have w: "wants_publish keep_all ?now (gm_get (findings m2) (f_ID g) \<noteq> None) st g" using assms(5) by (simp add: wants_publish_def)
  have acc: "accepted broken_runtime f n" "snd (rt_publish broken_runtime f u) = u" for f n u by (simp_all add: broken_runtime_def)
  have "gm_set (f_ID g) v (findings m) = [(f_ID g, v)]" for v using assms(6) by auto
  with collect_finding_spec[OF sup st refl refl, where rt = broken_runtime and active = "[]" and cfg = keep_all] w acc obtain n where
    n: "collect_finding broken_runtime keep_all ?now g (m2, []) = Some (n, [(f_ID g, ?out)])"
      "mn_attempts n = mn_attempts m @ [(?out, True)]"
      "findings n = [(f_ID g, Some (next_state keep_all ?now st g (Some True)))]"
      "observations n = gm_set key (Some ob) (observations m)" "mn_world n = ?now + 20 * minute" "mn_health n = None"
    by (auto simp: m2)
  have c: "poll_checks broken_runtime keep_all m = Some (?now, n, [(f_ID g, ?out)], True)"
    using assms(1) n(1)
    by (simp add: poll_checks_stages after_stages_def poll_snapshot_def broken_runtime_def ticking_start poll_stages_def
        run_stage_def runCheck_def ask_def second_def applyResult_def collectFindings_def run_custom_def m2_def)
  have "resolveMissingFindings broken_runtime keep_all ?now [(f_ID g, ?out)] n = Some n"
    by (simp add: resolveMissingFindings_def broken_runtime_def ask_def n(3) gm_keys_def resolve_one_def)
  from ticking_keeps[of "20 * minute" "\<lambda>w. [done_pod]", folded broken_runtime_def, OF c this n(6)] n
  show ?thesis by (auto simp: minute_def)
qed

lemma keep_all_triage [simp]:
  "DownstreamTriageEnabled keep_all" "DownstreamMinScore keep_all = 60" "DownstreamCooldown keep_all = 30 * minute"
  by (simp_all add: keep_all_def pods_only_def)

section \<open>Properties\<close>

text \<open>
  C10. AI dispatches are spaced: in a sequence of whole polls after each of which the finding
  is in the state, of two accepted publishes for it that ask for AI triage the later one is
  made after the cooldown that the earlier one announced. It does not matter what the polls
  collect, resolve, expire, prune or write, which publishes fail, or what was stored before.
  (A finding that expiry, the caps or the size limit delete is forgotten with its cooldown:
  nothing is claimed across the deletion.)
\<close>

theorem ai_dispatches_respect_cooldown:
  assumes "kept_run rt cfg k m m'" and "state_wf (mn_state m)" and "0 \<le> DownstreamCooldown cfg"
    and "mn_attempts m' = mn_attempts m @ sent"
    and "i < j" and "j < length sent" and "sent ! i = (a, True)" and "sent ! j = (b, True)"
    and "f_AITriageRequired a" and "f_AITriageRequired b" and "f_ID a = k" and "f_ID b = k"
  shows "\<exists>c. f_CooldownUntil a = Some c \<and> c < f_LastSeen b"
proof -
  have "cooldown_inv k (length (mn_attempts m)) m'"
    using kept_run_inv[OF assms(1,3)] cooldown_start[OF assms(2)] by blast
  then have "spaced k (sent ! i) (sent ! j)"
    using assms(4-6) by (simp add: cooldown_inv_def sorted_wrt_iff_nth_less)
  then show ?thesis using assms(7-12) by (simp add: spaced_def dispatched_def)
qed

theorem ai_dispatches_respect_cooldown_witness:
  "\<exists>m' k a b c. kept_run broken_runtime keep_all k broken_start m' \<and> mn_attempts m' = [(a, True), (b, True)] \<and>
     f_AITriageRequired a \<and> f_AITriageRequired b \<and> f_CooldownUntil a = Some c \<and> c < f_LastSeen b"
proof -
  let ?f = "NewFinding (Namespace keep_all) ''Pod'' ''job'' ''pod-health'' ''not-ready'' 60"
  let ?k = "findingID (Namespace keep_all) ''Pod'' ''job'' ''pod-health'' ''not-ready''"
  have id: "f_ID (?f ev) = ?k" "f_Score (?f ev) = 60" "f_Classification (?f ev) = ''degraded''" "finding_ok (Namespace keep_all) (?f ev)" for ev
    by (simp_all add: clampScore_def classificationForScore_def)
  have age: "5 * minute < time_sub (10 * minute) 0" "5 * minute < time_sub (50 * minute) 0"
    by (simp_all add: time_sub_def minute_def second_def)
  obtain ev1 where c1: "checkPods keep_all (poll_snapshot broken_runtime keep_all broken_start) =
      ([checks_total (Namespace keep_all) ''pods'' ''ok''], \<lparr>cr_findings = [?f ev1], cr_complete = True,
       cr_observations = [(restart_key ''job'', restart_observation (poll_snapshot broken_runtime keep_all broken_start) done_pod)]\<rparr>)"
    using broken_check[of "poll_snapshot broken_runtime keep_all broken_start"] age(1)
    by (auto simp: broken_runtime_def prior_observations_def)
  define ob where "ob = restart_observation (poll_snapshot broken_runtime keep_all broken_start) done_pod"
  define st1 where "st1 = new_finding_state (10 * minute) (stamped (10 * minute) (?f ev1))"
  have due1: "triage_due keep_all (10 * minute) st1 (?f ev1)"
    by (simp add: triage_due_def triage_wanted_def id st1_def new_finding_state_def)
  obtain m1 where m1: "Poll broken_runtime keep_all broken_start = Some m1"
    "mn_attempts m1 = [(outgoing keep_all (10 * minute) st1 (?f ev1), True)]"
    "findings m1 = [(?k, Some (next_state keep_all (10 * minute) st1 (?f ev1) (Some True)))]"
    "observations m1 = [(restart_key ''job'', Some ob)]" "mn_world m1 = 50 * minute" "mn_health m1 = None"
    using broken_poll[OF c1, of st1] due1 by (auto simp: start_state_def st1_def ob_def id)
  have wf1: "state_wf (mn_state m1)"
    by (rule Poll_parts[of broken_start broken_runtime keep_all]) (use m1(1) in auto)
  have zero: "ob_RestartCount ob = 0" by (simp add: ob_def restart_observation_def done_pod_def total_restarts_def)
  obtain ev2 where c2: "checkPods keep_all (poll_snapshot broken_runtime keep_all m1) =
      ([checks_total (Namespace keep_all) ''pods'' ''ok''], \<lparr>cr_findings = [?f ev2], cr_complete = True,
       cr_observations = [(restart_key ''job'', restart_observation (poll_snapshot broken_runtime keep_all m1) done_pod)]\<rparr>)"
    using broken_check[of "poll_snapshot broken_runtime keep_all m1"] age(2) zero
    by (auto simp: broken_runtime_def m1(4,5))
  define st2 where "st2 = next_state keep_all (10 * minute) st1 (?f ev1) (Some True)"
  have cool: "fs_CooldownUntil st2 = Some (40 * minute)"
    by (simp add: st2_def next_state_cooldown due1 cooldown_for_def classificationForScore_def)
  have due2: "triage_due keep_all (50 * minute) st2 (?f ev2)"
    by (simp add: triage_due_def triage_wanted_def id cool after_def minute_def second_def)
  obtain m2 where m2: "Poll broken_runtime keep_all m1 = Some m2"
    "mn_attempts m2 = [(outgoing keep_all (10 * minute) st1 (?f ev1), True), (outgoing keep_all (50 * minute) st2 (?f ev2), True)]"
    "gm_get (findings m2) ?k \<noteq> None"
    using broken_poll[OF c2, of st2] wf1 due2 by (auto simp: start_state_def m1 st2_def id)
  have run: "kept_run broken_runtime keep_all ?k broken_start m2"
    using kept_poll[OF kept_poll[OF kept_start m1(1)] m2(1,3)] by (simp add: m1(3))
  let ?a = "outgoing keep_all (10 * minute) st1 (?f ev1)" and ?b = "outgoing keep_all (50 * minute) st2 (?f ev2)"
  have ai: "f_AITriageRequired ?a" "f_AITriageRequired ?b"
    unfolding outgoing_dispatch(1)[OF id(4)] by (fact due1, fact due2)
  have nonneg: "0 \<le> DownstreamCooldown keep_all" by (simp add: minute_def second_def)
  have "\<exists>c. f_CooldownUntil ?a = Some c \<and> c < f_LastSeen ?b"
    using nonneg
    by (intro ai_dispatches_respect_cooldown[OF run, of "[(?a, True), (?b, True)]" 0 1 ?a ?b]) (simp_all add: m2(2) ai)
  with run m2(2) ai show ?thesis by blast
qed

end
